theory Spec2Isabelle
  imports Complex_Main "HOL-Library.Log_Nat"
begin

section \<open>Data model\<close>

text \<open>
  The grid and the two hunger arrays are square numpy arrays of Python integers. An array is
  modelled by its contents, a function on coordinate pairs, together with the side length
  \<open>grid_size\<close> (\<open>grid.shape[0]\<close>) kept in the simulation record. Only coordinates in
  \<open>[0, grid_size)\<close> on both axes are ever read or written by the program; the lemmas
  \<open>get_nearby_cells_in_range\<close> and \<open>get_neighbors_coords_in_range\<close> below show it
  for the neighbour helpers.
\<close>

type_synonym coord = "int \<times> int"
type_synonym 'a array2 = "coord \<Rightarrow> 'a"

abbreviation (input) EMPTY :: int where "EMPTY \<equiv> 0"
abbreviation (input) PREY :: int where "PREY \<equiv> 1"
abbreviation (input) PREDATOR :: int where "PREDATOR \<equiv> 2"
abbreviation (input) SUBSTRATE :: int where "SUBSTRATE \<equiv> 3"

datatype error = ValueError | KeyError | ZeroDivisionError | MemoryError

text \<open>
  The parameter dictionary. Every key the engine reads is a field; \<open>None\<close> is an absent
  key. A read by \<open>params.get(key, default)\<close> is \<open>pget\<close>, a read by \<open>params[key]\<close>
  raises \<open>KeyError\<close> on an absent key.
\<close>

record params =
  predator_death_chance :: "real option"
  predator_starvation_steps :: "int option"
  hunt_success_prob :: "real option"
  predator_reproduction_chance :: "real option"
  predator_movement_prob :: "real option"
  prey_death_chance :: "real option"
  prey_starvation_steps :: "int option"
  prey_reproduction_chance :: "real option"
  substrate_random_death :: "real option"
  predator_birth_probability :: "real option"
  initial_substrate_probability :: "real option"
  neighborhood_type :: "string option"
  grid_type :: "string option"

definition pget :: "'a option \<Rightarrow> 'a \<Rightarrow> 'a" where
  "pget v d = (case v of None \<Rightarrow> d | Some a \<Rightarrow> a)"

subsection \<open>The random generator\<close>

text \<open>
  The generator is an explicit stream of raw draws. \<open>random.random()\<close> yields a multiple of
  \<open>2 ^ -53\<close> in \<open>[0, 1)\<close>; \<open>random.choice\<close> picks an index below the length of a
  non-empty list; \<open>shuffle\<close> is the in-place Fisher-Yates loop of \<open>random.shuffle\<close>
  (for \<open>i\<close> from \<open>len - 1\<close> down to \<open>1\<close>, swap positions \<open>i\<close> and a drawn
  \<open>j \<le> i\<close>). Probabilities are Python floats; the model computes with them as exact reals,
  except in the density policy and the placement of \<open>initialize_grid\<close>, where \<open>int()\<close>
  truncates products that the rounding of the floats moves across an integer (see there).
\<close>

type_synonym rng = "nat \<Rightarrow> nat"

definition rtail :: "rng \<Rightarrow> rng" where
  "rtail r = (\<lambda>i. r (Suc i))"

definition random :: "rng \<Rightarrow> real \<times> rng" where
  "random r = (real (r 0 mod 2 ^ 53) / 2 ^ 53, rtail r)"

definition choice :: "'a list \<Rightarrow> rng \<Rightarrow> 'a \<times> rng" where
  "choice xs r = (xs ! (r 0 mod length xs), rtail r)"

fun shuffle_loop :: "nat \<Rightarrow> 'a list \<Rightarrow> rng \<Rightarrow> 'a list \<times> rng" where
  "shuffle_loop 0 xs r = (xs, r)"
| "shuffle_loop (Suc i) xs r =
     (let j = r 0 mod (Suc (Suc i))
      in shuffle_loop i (xs[Suc i := xs ! j, j := xs ! Suc i]) (rtail r))"

definition shuffle :: "'a list \<Rightarrow> rng \<Rightarrow> 'a list \<times> rng" where
  "shuffle xs r = shuffle_loop (length xs - 1) xs r"

section \<open>Neighbour topology\<close>

subsection \<open>\<open>grid.get_neighbors_coords\<close> and \<open>grid.count_neighbors\<close> (radius 1)\<close>

definition directions :: "string \<Rightarrow> coord list" where
  "directions nt =
     (if nt = ''von_neumann'' then [(0, 1), (1, 0), (0, -1), (-1, 0)]
      else concat (map (\<lambda>dx. concat (map (\<lambda>dy.
             if dx = 0 \<and> dy = 0 then [] else [(dx, dy)]) [-1, 0, 1])) [-1, 0, 1]))"

definition get_neighbors_coords :: "nat \<Rightarrow> int \<Rightarrow> int \<Rightarrow> string \<Rightarrow> string \<Rightarrow> coord list" where
  "get_neighbors_coords n x y nt gt =
     concat (map (\<lambda>(dx, dy).
       (let nx = x + dx; ny = y + dy in
        if gt = ''torus'' then [(nx mod int n, ny mod int n)]
        else if 0 \<le> nx \<and> nx < int n \<and> 0 \<le> ny \<and> ny < int n then [(nx, ny)]
        else [])) (directions nt))"

definition count_neighbors ::
  "int array2 \<Rightarrow> nat \<Rightarrow> int \<Rightarrow> int \<Rightarrow> int \<Rightarrow> string \<Rightarrow> string \<Rightarrow> nat" where
  "count_neighbors g n x y entity_type nt gt =
     length (filter (\<lambda>c. g c = entity_type) (get_neighbors_coords n x y nt gt))"

subsection \<open>\<open>Simulation._get_nearby_cells\<close> (any radius)\<close>

text \<open>
  The helper reads \<open>grid_type\<close> with default \<open>'bounded'\<close> and \<open>neighborhood_type\<close> with
  default \<open>'moore'\<close>, and takes the side length from the grid.
\<close>

definition get_nearby_cells :: "params \<Rightarrow> nat \<Rightarrow> int \<Rightarrow> int \<Rightarrow> int \<Rightarrow> coord list" where
  "get_nearby_cells p n x y distance =
     (let gt = pget (grid_type p) ''bounded'';
          nt = pget (neighborhood_type p) ''moore''
      in concat (map (\<lambda>dx. concat (map (\<lambda>dy.
           if dx = 0 \<and> dy = 0 then []
           else if nt = ''von_neumann'' \<and> \<bar>dx\<bar> + \<bar>dy\<bar> > distance then []
           else (let nx = x + dx; ny = y + dy in
             if gt = ''bounded''
             then (if 0 \<le> nx \<and> nx < int n \<and> 0 \<le> ny \<and> ny < int n then [(nx, ny)] else [])
             else [((nx + int n) mod int n, (ny + int n) mod int n)]))
           [- distance..distance])) [- distance..distance]))"

text \<open>The offsets the two nested loops of \<open>_get_nearby_cells\<close> keep, in visiting order.\<close>

definition nearby_offsets :: "string \<Rightarrow> int \<Rightarrow> coord list" where
  "nearby_offsets nt distance =
     concat (map (\<lambda>dx. concat (map (\<lambda>dy.
       if dx = 0 \<and> dy = 0 then []
       else if nt = ''von_neumann'' \<and> \<bar>dx\<bar> + \<bar>dy\<bar> > distance then []
       else [(dx, dy)]) [- distance..distance])) [- distance..distance])"

definition in_grid :: "nat \<Rightarrow> coord \<Rightarrow> bool" where
  "in_grid n c = (0 \<le> fst c \<and> fst c < int n \<and> 0 \<le> snd c \<and> snd c < int n)"

definition wrap :: "nat \<Rightarrow> int \<Rightarrow> int \<Rightarrow> coord \<Rightarrow> coord" where
  "wrap n x y d = ((x + fst d) mod int n, (y + snd d) mod int n)"

definition shift :: "int \<Rightarrow> int \<Rightarrow> coord \<Rightarrow> coord" where
  "shift x y d = (x + fst d, y + snd d)"

section \<open>The simulation state\<close>

text \<open>\<open>self.statistics\<close>: the named event counters.\<close>

record events =
  predator_deaths :: nat
  predator_births :: nat
  predator_starved :: nat
  prey_deaths :: nat
  prey_births :: nat
  prey_hunted :: nat
  prey_starved :: nat
  substrate_created :: nat
  substrate_consumed :: nat

text \<open>\<open>self.stats\<close>: the historical series, one entry per generation.\<close>

record history =
  h_predator_count :: "nat list"
  h_prey_count :: "nat list"
  h_substrate_count :: "nat list"

record counts =
  c_predator_count :: nat
  c_prey_count :: nat
  c_substrate_count :: nat
  c_empty_count :: int

text \<open>
  A recorded frame. \<open>frame_grid = None\<close> is the entry \<open>'grid': None\<close>; the key
  \<open>'grid_size'\<close> exists only in the frames that \<open>step\<close> writes for large grids.
\<close>

record frame =
  frame_grid :: "int list list option"
  frame_grid_size :: "nat option"
  frame_step :: nat
  frame_statistics :: counts
  frame_timestamp :: string

record original_values =
  ov_initial_prey :: int
  ov_initial_predators :: int
  ov_initial_substrate_prob :: real

text \<open>The dictionary \<open>adjusted_values\<close>: a key is present once it has been assigned.\<close>

record adjusted_values =
  av_initial_prey :: "int option"
  av_initial_predators :: "int option"
  av_initial_substrate_prob :: "real option"
  av_actual_predator_count :: "int option"
  av_actual_prey_count :: "int option"
  av_actual_substrate_count :: "int option"

record adjustment_info =
  values_adjusted :: bool
  original_values :: original_values
  adjusted_values :: adjusted_values
  reason :: string

text \<open>
  In the simulation, \<open>adjustment_info = None\<close> stands for the dictionary
  \<open>{"values_adjusted": False}\<close> that \<open>__init__\<close> substitutes for a missing report.
\<close>

record simulation =
  grid :: "int array2"
  grid_size :: nat
  params :: params
  adjustment_info :: "adjustment_info option"
  recording_enabled :: bool
  recorded_frames :: "frame list"
  stats :: history
  statistics :: events
  predator_hunger :: "int array2"
  prey_hunger :: "int array2"

text \<open>The coordinate list built by the loops \<open>for x in range(n): for y in range(n)\<close>.\<close>

definition coords :: "nat \<Rightarrow> coord list" where
  "coords n = concat (map (\<lambda>x. map (\<lambda>y. (int x, int y)) [0..<n]) [0..<n])"

text \<open>\<open>np.count_nonzero(grid == v)\<close>.\<close>

definition count_cells :: "int array2 \<Rightarrow> nat \<Rightarrow> int \<Rightarrow> nat" where
  "count_cells g n v = length (filter (\<lambda>c. g c = v) (coords n))"

text \<open>\<open>copy.deepcopy(grid).tolist()\<close>.\<close>

definition tolist :: "int array2 \<Rightarrow> nat \<Rightarrow> int list list" where
  "tolist g n = map (\<lambda>x. map (\<lambda>y. g (int x, int y)) [0..<n]) [0..<n]"

subsection \<open>\<open>Simulation.__init__\<close>\<close>

text \<open>The argument \<open>now\<close> is the value of \<open>datetime.now().isoformat()\<close>.\<close>

definition Simulation_init ::
  "int array2 \<Rightarrow> nat \<Rightarrow> params \<Rightarrow> bool \<Rightarrow> adjustment_info option \<Rightarrow> string \<Rightarrow> simulation" where
  "Simulation_init g n p rec_enabled adj now =
     \<lparr> grid = g,
       grid_size = n,
       params = p,
       adjustment_info = adj,
       recording_enabled = rec_enabled,
       recorded_frames =
         (if rec_enabled
          then [\<lparr> frame_grid = Some (tolist g n),
                  frame_grid_size = None,
                  frame_step = 0,
                  frame_statistics =
                    \<lparr> c_predator_count = count_cells g n PREDATOR,
                      c_prey_count = count_cells g n PREY,
                      c_substrate_count = count_cells g n SUBSTRATE,
                      c_empty_count = int (count_cells g n EMPTY) \<rparr>,
                  frame_timestamp = now \<rparr>]
          else []),
       stats = \<lparr> h_predator_count = [count_cells g n PREDATOR],
                 h_prey_count = [count_cells g n PREY],
                 h_substrate_count = [count_cells g n SUBSTRATE] \<rparr>,
       statistics = \<lparr> predator_deaths = 0, predator_births = 0, predator_starved = 0,
                      prey_deaths = 0, prey_births = 0, prey_hunted = 0, prey_starved = 0,
                      substrate_created = 0, substrate_consumed = 0 \<rparr>,
       predator_hunger = (\<lambda>c. if g c = PREDATOR then 0 else - 1),
       prey_hunger = (\<lambda>c. if g c = PREY then 0 else - 1) \<rparr>"

section \<open>The cell rules\<close>

text \<open>
  The buffers of one sweep: the next-generation grid and hunger arrays, the generator, and
  the event counters, which the rules update in place. A rule returns the buffers as it left
  them and the exception it raised, if any.
\<close>

record sweep =
  new_grid :: "int array2"
  new_predator_hunger :: "int array2"
  new_prey_hunger :: "int array2"
  rand :: rng
  sw_events :: events

type_synonym outcome = "sweep \<times> error option"

subsection \<open>\<open>Simulation._update_predator\<close>\<close>

text \<open>The hunting branch, from \<open>random.choice(prey_neighbors)\<close> to its \<open>return\<close>.\<close>

definition predator_hunt :: "simulation \<Rightarrow> coord \<Rightarrow> coord list \<Rightarrow> sweep \<Rightarrow> sweep" where
  "predator_hunt s c prey_neighbors sw =
     (let (prey_c, r1) = choice prey_neighbors (rand sw);
          sw1 = sw\<lparr> new_grid := ((new_grid sw)(prey_c := PREDATOR))(c := EMPTY),
                    new_predator_hunger := ((new_predator_hunger sw)(prey_c := 0))(c := - 1),
                    rand := r1 \<rparr>;
          (d, r2) = random r1
      in if d < pget (predator_reproduction_chance (params s)) 0.2
         then (let empty_neighbors =
                     filter (\<lambda>c'. grid s c' = EMPTY)
                       (get_nearby_cells (params s) (grid_size s) (fst c) (snd c) 1)
               in if empty_neighbors \<noteq> []
                  then (let (nc, r3) = choice empty_neighbors r2
                        in sw1\<lparr> new_grid := (new_grid sw1)(nc := PREDATOR),
                                new_predator_hunger := (new_predator_hunger sw1)(nc := 0),
                                rand := r3 \<rparr>)
                  else sw1\<lparr> rand := r2 \<rparr>)
         else sw1\<lparr> rand := r2 \<rparr>)"

text \<open>The part after a failed or impossible hunt: hunger increase and movement.\<close>

definition predator_move :: "simulation \<Rightarrow> coord \<Rightarrow> int \<Rightarrow> sweep \<Rightarrow> sweep" where
  "predator_move s c current_hunger sw =
     (let new_hunger = current_hunger + 1;
          sw1 = sw\<lparr> new_predator_hunger := (new_predator_hunger sw)(c := new_hunger) \<rparr>;
          empty_neighbors =
            filter (\<lambda>c'. grid s c' = EMPTY)
              (get_nearby_cells (params s) (grid_size s) (fst c) (snd c) 1)
      in if empty_neighbors \<noteq> []
         then (let (d, r1) = random (rand sw1)
               in if d < pget (predator_movement_prob (params s)) 0.5
                  then (let (nc, r2) = choice empty_neighbors r1
                        in sw1\<lparr> new_grid := ((new_grid sw1)(nc := PREDATOR))(c := EMPTY),
                                new_predator_hunger :=
                                  ((new_predator_hunger sw1)(nc := new_hunger))(c := - 1),
                                rand := r2 \<rparr>)
                  else sw1\<lparr> rand := r1 \<rparr>)
         else sw1)"

text \<open>
  The rule. The quotient \<open>current_hunger / hunger_threshold\<close> is evaluated right after the
  starvation check. With a threshold of 0 it divides by zero; the hunger is a numpy integer,
  so numpy warns, the quotient is an infinity and the rule goes on. The model records that
  event as the error value \<open>ZeroDivisionError\<close> and ends the rule there, so that a theorem
  can say that the division by zero is not reached. The event needs a hunger below 0 at a
  predator cell.
\<close>

definition update_predator :: "simulation \<Rightarrow> coord \<Rightarrow> sweep \<Rightarrow> outcome" where
  "update_predator s c sw =
     (let (d1, r1) = random (rand sw)
      in if d1 < pget (predator_death_chance (params s)) 0.005
         then (sw\<lparr> new_grid := (new_grid sw)(c := EMPTY), rand := r1 \<rparr>, None)
         else
          (let current_hunger = predator_hunger s c;
               hunger_threshold = pget (predator_starvation_steps (params s)) 10
           in if current_hunger \<ge> hunger_threshold
              then (sw\<lparr> new_grid := (new_grid sw)(c := EMPTY), rand := r1 \<rparr>, None)
              else
               (let neighbors = get_nearby_cells (params s) (grid_size s) (fst c) (snd c) 2
                in if hunger_threshold = 0
                   then (sw\<lparr> rand := r1 \<rparr>, Some ZeroDivisionError)
                   else
                    (let hunger_risk = real_of_int current_hunger / real_of_int hunger_threshold;
                         hunt_probability =
                           pget (hunt_success_prob (params s)) 0.7 * (1 + hunger_risk);
                         prey_neighbors = filter (\<lambda>c'. grid s c' = PREY) neighbors
                     in if prey_neighbors \<noteq> []
                        then (let (d2, r2) = random r1
                              in if d2 < hunt_probability
                                 then (predator_hunt s c prey_neighbors (sw\<lparr> rand := r2 \<rparr>), None)
                                 else (predator_move s c current_hunger (sw\<lparr> rand := r2 \<rparr>), None))
                        else (predator_move s c current_hunger (sw\<lparr> rand := r1 \<rparr>), None)))))"

subsection \<open>\<open>Simulation._update_prey\<close>\<close>

text \<open>Foraging and movement: the part of the rule after the threat check.\<close>

definition prey_forage :: "simulation \<Rightarrow> coord \<Rightarrow> int \<Rightarrow> coord list \<Rightarrow> sweep \<Rightarrow> sweep" where
  "prey_forage s c new_hunger neighbors sw =
     (let substrate_neighbors = filter (\<lambda>c'. grid s c' = SUBSTRATE) neighbors
      in if substrate_neighbors \<noteq> []
         then (let (sc, r1) = choice substrate_neighbors (rand sw);
                   sw1 = sw\<lparr> new_grid := (new_grid sw)(sc := EMPTY),
                             new_prey_hunger := (new_prey_hunger sw)(c := 0),
                             rand := r1 \<rparr>;
                   (d, r2) = random r1
               in if d < pget (prey_reproduction_chance (params s)) 0.3
                  then (let empty_neighbors = filter (\<lambda>c'. grid s c' = EMPTY) neighbors
                        in if empty_neighbors \<noteq> []
                           then (let (nc, r3) = choice empty_neighbors r2
                                 in sw1\<lparr> new_grid := (new_grid sw1)(nc := PREY),
                                         new_prey_hunger := (new_prey_hunger sw1)(nc := 0),
                                         rand := r3 \<rparr>)
                           else sw1\<lparr> rand := r2 \<rparr>)
                  else sw1\<lparr> rand := r2 \<rparr>)
         else (let empty_neighbors = filter (\<lambda>c'. grid s c' = EMPTY) neighbors
               in if empty_neighbors \<noteq> []
                  then (let (nc, r1) = choice empty_neighbors (rand sw)
                        in sw\<lparr> new_grid := ((new_grid sw)(nc := PREY))(c := EMPTY),
                               new_prey_hunger :=
                                 ((new_prey_hunger sw)(nc := new_hunger))(c := - 1),
                               rand := r1 \<rparr>)
                  else sw))"

definition update_prey :: "simulation \<Rightarrow> coord \<Rightarrow> sweep \<Rightarrow> outcome" where
  "update_prey s c sw =
     (let (d1, r1) = random (rand sw)
      in if d1 < pget (prey_death_chance (params s)) 0.01
         then (sw\<lparr> new_grid := (new_grid sw)(c := EMPTY), rand := r1 \<rparr>, None)
         else
          (let current_hunger = prey_hunger s c;
               hunger_threshold = pget (prey_starvation_steps (params s)) 15
           in if current_hunger \<ge> hunger_threshold
              then (sw\<lparr> new_grid := (new_grid sw)(c := EMPTY), rand := r1 \<rparr>, None)
              else
               (let neighbors = get_nearby_cells (params s) (grid_size s) (fst c) (snd c) 1;
                    predator_nearby = list_ex (\<lambda>c'. grid s c' = PREDATOR) neighbors;
                    new_hunger = current_hunger + 1;
                    sw1 = sw\<lparr> new_prey_hunger := (new_prey_hunger sw)(c := new_hunger),
                              rand := r1 \<rparr>
                in if predator_nearby
                   then (let (d2, r2) = random r1
                         in if d2 < 0.7 then (sw1\<lparr> rand := r2 \<rparr>, None)
                            else (prey_forage s c new_hunger neighbors (sw1\<lparr> rand := r2 \<rparr>), None))
                   else (prey_forage s c new_hunger neighbors sw1, None))))"

subsection \<open>\<open>Simulation._update_substrate\<close> and \<open>Simulation._update_empty\<close>\<close>

definition update_substrate :: "simulation \<Rightarrow> coord \<Rightarrow> sweep \<Rightarrow> outcome" where
  "update_substrate s c sw =
     (let (d, r1) = random (rand sw)
      in case substrate_random_death (params s) of
           None \<Rightarrow> (sw\<lparr> rand := r1 \<rparr>, Some KeyError)
         | Some p \<Rightarrow>
             if d < p then (sw\<lparr> new_grid := (new_grid sw)(c := EMPTY), rand := r1 \<rparr>, None)
             else (sw\<lparr> rand := r1 \<rparr>, None))"

text \<open>The substrate-formation check at the end of \<open>_update_empty\<close>.\<close>

definition empty_regrowth :: "simulation \<Rightarrow> coord \<Rightarrow> sweep \<Rightarrow> outcome" where
  "empty_regrowth s c sw =
     (let (d, r1) = random (rand sw)
      in case initial_substrate_probability (params s) of
           None \<Rightarrow> (sw\<lparr> rand := r1 \<rparr>, Some KeyError)
         | Some p \<Rightarrow>
             if d < p / 10
             then (sw\<lparr> new_grid := (new_grid sw)(c := SUBSTRATE), rand := r1,
                       sw_events := (sw_events sw)\<lparr> substrate_created :=
                                      substrate_created (sw_events sw) + 1 \<rparr> \<rparr>, None)
             else (sw\<lparr> rand := r1 \<rparr>, None))"

definition update_empty :: "simulation \<Rightarrow> coord \<Rightarrow> sweep \<Rightarrow> outcome" where
  "update_empty s c sw =
     (case neighborhood_type (params s) of
        None \<Rightarrow> (sw, Some KeyError)
      | Some nt \<Rightarrow>
         (case grid_type (params s) of
            None \<Rightarrow> (sw, Some KeyError)
          | Some gt \<Rightarrow>
             (let predator_neighbors =
                    count_neighbors (grid s) (grid_size s) (fst c) (snd c) PREDATOR nt gt;
                  prey_neighbors =
                    count_neighbors (grid s) (grid_size s) (fst c) (snd c) PREY nt gt
              in if predator_neighbors \<ge> 2 \<and> prey_neighbors \<ge> 1
                 then (let (d, r1) = random (rand sw)
                       in case predator_birth_probability (params s) of
                            None \<Rightarrow> (sw\<lparr> rand := r1 \<rparr>, Some KeyError)
                          | Some p \<Rightarrow>
                              if d < p
                              then (sw\<lparr> new_grid := (new_grid sw)(c := PREDATOR),
                                        new_predator_hunger := (new_predator_hunger sw)(c := 0),
                                        rand := r1,
                                        sw_events := (sw_events sw)\<lparr> predator_births :=
                                                       predator_births (sw_events sw) + 1 \<rparr> \<rparr>, None)
                              else empty_regrowth s c (sw\<lparr> rand := r1 \<rparr>))
                 else empty_regrowth s c sw)))"

section \<open>\<open>Simulation.step\<close>\<close>

text \<open>
  The body of the per-cell \<open>try\<close>: a cell whose buffer value already differs from the
  committed grid is skipped; otherwise the rule of its committed kind runs, and an exception
  of the rule is answered by writing the committed value back into the buffer.
\<close>

definition process_cell :: "simulation \<Rightarrow> sweep \<Rightarrow> coord \<Rightarrow> sweep" where
  "process_cell s sw c =
     (if new_grid sw c \<noteq> grid s c then sw
      else (let (sw', e) =
                  (if grid s c = PREDATOR then update_predator s c sw
                   else if grid s c = PREY then update_prey s c sw
                   else if grid s c = SUBSTRATE then update_substrate s c sw
                   else if grid s c = EMPTY then update_empty s c sw
                   else (sw, None))
            in case e of
                 None \<Rightarrow> sw'
               | Some _ \<Rightarrow> sw'\<lparr> new_grid := (new_grid sw')(c := grid s c) \<rparr>))"

text \<open>
  The sweep over the shuffled coordinates. The source cuts the list into batches of 10000
  and processes the batches in order, which visits the cells in the order of the list.
\<close>

definition sweep_cells :: "simulation \<Rightarrow> coord list \<Rightarrow> sweep \<Rightarrow> sweep" where
  "sweep_cells s cs sw = foldl (process_cell s) sw cs"

text \<open>
  The buffers at the start of a sweep: a copy of the grid and two arrays filled with -1.
\<close>

definition fresh_buffers :: "simulation \<Rightarrow> rng \<Rightarrow> sweep" where
  "fresh_buffers s r =
     \<lparr> new_grid = grid s,
       new_predator_hunger = (\<lambda>_. - 1),
       new_prey_hunger = (\<lambda>_. - 1),
       rand = r,
       sw_events = statistics s \<rparr>"

text \<open>
  The frame \<open>step\<close> appends when recording is enabled.
\<close>

definition step_frame :: "simulation \<Rightarrow> nat \<Rightarrow> nat \<Rightarrow> nat \<Rightarrow> string \<Rightarrow> frame" where
  "step_frame s new_predator_count new_prey_count new_substrate_count now =
     (let current_step_num = length (recorded_frames s);
          n = grid_size s;
          st = \<lparr> c_predator_count = new_predator_count,
                 c_prey_count = new_prey_count,
                 c_substrate_count = new_substrate_count,
                 c_empty_count = int n * int n
                   - (int new_predator_count + int new_prey_count + int new_substrate_count) \<rparr>
      in if n > 500
         then \<lparr> frame_grid = None, frame_grid_size = Some n, frame_step = current_step_num,
                frame_statistics = st, frame_timestamp = now \<rparr>
         else \<lparr> frame_grid = Some (tolist (grid s) n), frame_grid_size = None,
                frame_step = current_step_num, frame_statistics = st, frame_timestamp = now \<rparr>)"

text \<open>
  The body of the outer \<open>try\<close>. \<open>alloc_ok\<close> tells whether the three buffer allocations
  succeed; when they do not, the inner handler raises \<open>MemoryError\<close> before anything is
  drawn or written.
\<close>

definition step_body :: "bool \<Rightarrow> string \<Rightarrow> simulation \<Rightarrow> rng \<Rightarrow> error + (simulation \<times> rng)" where
  "step_body alloc_ok now s r =
     (if \<not> alloc_ok then Inl MemoryError
      else
       (let n = grid_size s;
            (order, r1) = shuffle (coords n) r;
            sw = sweep_cells s order (fresh_buffers s r1);
            s1 = s\<lparr> grid := new_grid sw,
                    predator_hunger := new_predator_hunger sw,
                    prey_hunger := new_prey_hunger sw,
                    statistics := sw_events sw \<rparr>;
            new_predator_count = count_cells (grid s1) n PREDATOR;
            new_prey_count = count_cells (grid s1) n PREY;
            new_substrate_count = count_cells (grid s1) n SUBSTRATE;
            s2 = s1\<lparr> stats :=
                       \<lparr> h_predator_count = h_predator_count (stats s1) @ [new_predator_count],
                         h_prey_count = h_prey_count (stats s1) @ [new_prey_count],
                         h_substrate_count = h_substrate_count (stats s1) @ [new_substrate_count] \<rparr> \<rparr>;
            s3 = (if recording_enabled s2
                  then s2\<lparr> recorded_frames := recorded_frames s2 @
                             [step_frame s2 new_predator_count new_prey_count new_substrate_count now] \<rparr>
                  else s2)
        in Inr (s3, rand sw)))"

text \<open>
  \<open>step\<close> with its outer handler: any exception of the body is logged and, since the object
  has the attribute \<open>grid\<close> from \<open>__init__\<close> on, answered by returning the committed grid.
  The result is the returned grid, the simulation object and the generator.
\<close>

definition step ::
  "bool \<Rightarrow> string \<Rightarrow> simulation \<Rightarrow> rng \<Rightarrow> error + (int array2 \<times> simulation \<times> rng)" where
  "step alloc_ok now s r =
     (case step_body alloc_ok now s r of
        Inl e \<Rightarrow> Inr (grid s, s, r)
      | Inr (s', r') \<Rightarrow> Inr (grid s', s', r'))"

section \<open>\<open>Simulation.get_statistics\<close>\<close>

text \<open>\<open>int(x)\<close> on a float truncates towards zero.\<close>

definition py_int :: "real \<Rightarrow> int" where
  "py_int x = (if 0 \<le> x then \<lfloor>x\<rfloor> else \<lceil>x\<rceil>)"

text \<open>\<open>round(x, 2)\<close>, as rounding to the nearest hundredth with ties to the even one.\<close>

definition round2 :: "real \<Rightarrow> real" where
  "round2 x =
     (let y = x * 100; f = \<lfloor>y\<rfloor>
      in real_of_int (if y - real_of_int f < 1 / 2 then f
                      else if y - real_of_int f > 1 / 2 then f + 1
                      else if even f then f else f + 1) / 100)"

text \<open>
  The returned dictionary. The four keys \<open>values_adjusted\<close>, \<open>original_values\<close>,
  \<open>adjusted_values\<close> and \<open>adjustment_reason\<close> are added together or not at all.
\<close>

record statistics_out =
  st_predator_count :: nat
  st_prey_count :: nat
  st_substrate_count :: nat
  st_empty_count :: nat
  st_predator_percentage :: real
  st_prey_percentage :: real
  st_substrate_percentage :: real
  st_empty_percentage :: real
  st_starving_predators :: nat
  st_starving_prey :: nat
  st_adjustment :: "(original_values \<times> adjusted_values \<times> string) option"

text \<open>The dictionary of zeros that the outer handler returns.\<close>

definition safe_default_statistics :: statistics_out where
  "safe_default_statistics =
     \<lparr> st_predator_count = 0, st_prey_count = 0, st_substrate_count = 0, st_empty_count = 0,
       st_predator_percentage = 0, st_prey_percentage = 0, st_substrate_percentage = 0,
       st_empty_percentage = 0, st_starving_predators = 0, st_starving_prey = 0,
       st_adjustment = None \<rparr>"

text \<open>
  The result is the returned dictionary and the simulation object after the call. Two
  exceptions can reach the outer handler: the division by \<open>total_cells\<close> on a grid without
  cells, and the read of the last element of an empty historical list.
\<close>

definition get_statistics :: "simulation \<Rightarrow> statistics_out \<times> simulation" where
  "get_statistics s =
     (let n = grid_size s;
          predator_count = count_cells (grid s) n PREDATOR;
          prey_count = count_cells (grid s) n PREY;
          substrate_count = count_cells (grid s) n SUBSTRATE;
          empty_count = count_cells (grid s) n EMPTY;
          total_cells = n * n;
          predator_starvation_threshold = pget (predator_starvation_steps (params s)) 10;
          prey_starvation_threshold = pget (prey_starvation_steps (params s)) 3;
          predator_risk_threshold = py_int (real_of_int predator_starvation_threshold * 0.8);
          prey_risk_threshold = py_int (real_of_int prey_starvation_threshold * 0.8);
          starving_predators =
            length (filter (\<lambda>c. predator_hunger s c \<ge> predator_risk_threshold
                                \<and> grid s c = PREDATOR) (coords n));
          starving_prey =
            length (filter (\<lambda>c. prey_hunger s c \<ge> prey_risk_threshold
                                \<and> grid s c = PREY) (coords n))
      in if total_cells = 0 then (safe_default_statistics, s)
         else
          (let predator_percentage = real predator_count / real total_cells * 100;
               prey_percentage = real prey_count / real total_cells * 100;
               substrate_percentage = real substrate_count / real total_cells * 100;
               empty_percentage = real empty_count / real total_cells * 100
           in if h_predator_count (stats s) \<noteq> []
                 \<and> (h_prey_count (stats s) = [] \<or> h_substrate_count (stats s) = [])
              then (safe_default_statistics, s)
              else
               (let latest_predator =
                      (if h_predator_count (stats s) \<noteq> [] then last (h_predator_count (stats s))
                       else predator_count);
                    latest_prey =
                      (if h_predator_count (stats s) \<noteq> [] then last (h_prey_count (stats s))
                       else prey_count);
                    latest_substrate =
                      (if h_predator_count (stats s) \<noteq> [] then last (h_substrate_count (stats s))
                       else substrate_count)
                in (\<lparr> st_predator_count = latest_predator,
                      st_prey_count = latest_prey,
                      st_substrate_count = latest_substrate,
                      st_empty_count = empty_count,
                      st_predator_percentage = round2 predator_percentage,
                      st_prey_percentage = round2 prey_percentage,
                      st_substrate_percentage = round2 substrate_percentage,
                      st_empty_percentage = round2 empty_percentage,
                      st_starving_predators = starving_predators,
                      st_starving_prey = starving_prey,
                      st_adjustment =
                        (case adjustment_info s of
                           None \<Rightarrow> None
                         | Some a \<Rightarrow>
                             if values_adjusted a
                             then Some (original_values a, adjusted_values a, reason a)
                             else None) \<rparr>, s))))"

section \<open>\<open>grid.initialize_grid\<close>\<close>

text \<open>Decimal rendering of an integer in an f-string.\<close>

fun digits :: "nat \<Rightarrow> string" where
  "digits n = (if n < 10 then [char_of (48 + n)]
               else digits (n div 10) @ [char_of (48 + n mod 10)])"

declare digits.simps [simp del]

definition str_int :: "int \<Rightarrow> string" where
  "str_int i = (if i < 0 then CHR ''-'' # digits (nat (- i)) else digits (nat i))"

text \<open>\<open>xs[a:b]\<close> for non-negative bounds.\<close>

definition py_slice :: "'a list \<Rightarrow> int \<Rightarrow> int \<Rightarrow> 'a list" where
  "py_slice xs a b = drop (nat a) (take (nat b) xs)"

text \<open>\<open>np.unravel_index(i, (size, size))\<close> and the assignment \<open>grid[coords] = v\<close>.\<close>

definition unravel_index :: "nat \<Rightarrow> nat \<Rightarrow> coord" where
  "unravel_index n i = (int (i div n), int (i mod n))"

definition place :: "int array2 \<Rightarrow> nat \<Rightarrow> nat list \<Rightarrow> int \<Rightarrow> int array2" where
  "place g n idxs v = foldl (\<lambda>g' i. g'(unravel_index n i := v)) g idxs"

subsection \<open>Float arithmetic\<close>

text \<open>
  A Python float is a binary64 number: a significand of 53 bits and a power of two. Every
  arithmetic result is the exact result rounded to the nearest such number, a tie going to the
  even significand. \<open>exponent x\<close> is the integer \<open>e\<close> with \<open>2 ^ e \<le> x < 2 ^ (e + 1)\<close> for a
  positive \<open>x\<close>, and \<open>float_round\<close> rounds a real to 53 significant bits. The range of the
  exponent is not modelled: there is no overflow and there are no subnormal numbers, so the
  results are those of the code for magnitudes from \<open>2 ^ -1022\<close> up to \<open>2 ^ 1024\<close>.

  \<open>float_of_int\<close> is the conversion of a Python integer in a mixed product, \<open>true_div\<close> the
  quotient \<open>a / b\<close> of two Python integers, which is correctly rounded, and \<open>float_mul\<close> the
  product of two floats. A float literal such as \<open>0.8\<close> denotes \<open>float_round 0.8\<close>. A float
  parameter is given by the real number the caller wrote; it is rounded where it enters
  the arithmetic, and the comparisons of it with a literal are made on the decimals.
\<close>

definition round_half_even :: "real \<Rightarrow> int" where
  "round_half_even x =
     (let f = \<lfloor>x\<rfloor>; d = x - of_int f
      in if d < 1 / 2 then f else if 1 / 2 < d then f + 1 else if even f then f else f + 1)"

definition exponent :: "real \<Rightarrow> int" where
  "exponent x = (if 1 \<le> x then bitlen \<lfloor>x\<rfloor> - 1 else - bitlen (\<lceil>1 / x\<rceil> - 1))"

definition float_round :: "real \<Rightarrow> real" where
  "float_round x =
     (if x = 0 then 0
      else (let e = exponent \<bar>x\<bar> - 52
            in of_int (round_half_even (x / 2 powi e)) * 2 powi e))"

definition float_of_int :: "int \<Rightarrow> real" where
  "float_of_int n = float_round (of_int n)"

definition true_div :: "int \<Rightarrow> int \<Rightarrow> real" where
  "true_div a b = float_round (of_int a / of_int b)"

definition float_mul :: "real \<Rightarrow> real \<Rightarrow> real" where
  "float_mul a b = float_round (a * b)"

subsection \<open>The density policy and the placement\<close>

text \<open>
  The split of the allowed total, written twice in the source (large grids and the 80% cap):
  the result is \<open>(adjusted_prey, adjusted_predators)\<close>. \<open>max_density\<close> is the float of the
  literal.
\<close>

definition split_entities :: "int \<Rightarrow> int \<Rightarrow> int \<Rightarrow> real \<Rightarrow> int \<times> int" where
  "split_entities initial_prey total_entities total_cells max_density =
     (let ratio = (if total_entities > 0
                   then true_div initial_prey total_entities else 0.5);
          max_entities = py_int (float_mul (float_of_int total_cells) max_density);
          adjusted_prey = py_int (float_mul (float_of_int max_entities) ratio);
          adjusted_predators = max_entities - adjusted_prey
      in (adjusted_prey, adjusted_predators))"

definition grid_too_large_reason :: "int \<Rightarrow> string" where
  "grid_too_large_reason sz =
     ''Grid too large ('' @ str_int sz @ [CHR 0xC3, CHR 0x97] @ str_int sz
       @ ''). Entity counts reduced to prevent memory issues.''"

definition only_placed_reason :: "int \<Rightarrow> int \<Rightarrow> string \<Rightarrow> string" where
  "only_placed_reason placed wanted kind =
     '' Only placed '' @ str_int placed @ ''/'' @ str_int wanted @ '' '' @ kind
       @ '' due to space constraints.''"

text \<open>
  The density policy: the adjusted \<open>(initial_prey, initial_predators,
  initial_substrate_prob)\<close> and the report.
\<close>

definition density_policy ::
  "int \<Rightarrow> int \<Rightarrow> int \<Rightarrow> real \<Rightarrow> adjustment_info \<Rightarrow> int \<times> int \<times> real \<times> adjustment_info" where
  "density_policy sz initial_prey initial_predators prob info =
     (let total_cells = sz * sz;
          total_entities = initial_prey + initial_predators
      in if sz \<ge> 800
         then
          (let max_density = (if sz \<ge> 1000 then float_round 0.3 else float_round 0.4);
               (prey1, pred1, info1) =
                 (if real_of_int total_entities > float_mul (float_of_int total_cells) max_density
                  then (let (adjusted_prey, adjusted_predators) =
                              split_entities initial_prey total_entities total_cells max_density
                        in (adjusted_prey, adjusted_predators,
                            info\<lparr> values_adjusted := True,
                                  adjusted_values := (adjusted_values info)
                                    \<lparr> av_initial_prey := Some adjusted_prey,
                                      av_initial_predators := Some adjusted_predators \<rparr>,
                                  reason := grid_too_large_reason sz \<rparr>))
                  else (initial_prey, initial_predators, info))
           in if prob > 0.2
              then (let prob1 = min prob 0.2
                    in (prey1, pred1, prob1,
                        info1\<lparr> values_adjusted := True,
                               adjusted_values := (adjusted_values info1)
                                 \<lparr> av_initial_substrate_prob := Some prob1 \<rparr>,
                               reason := reason info1
                                 @ '' Substrate probability reduced to avoid memory issues.'' \<rparr>))
              else (prey1, pred1, prob, info1))
         else if real_of_int total_entities > float_mul (float_of_int total_cells) (float_round 0.8)
         then (let (adjusted_prey, adjusted_predators) =
                     split_entities initial_prey total_entities total_cells (float_round 0.8)
               in (adjusted_prey, adjusted_predators, prob,
                   info\<lparr> values_adjusted := True,
                         adjusted_values := (adjusted_values info)
                           \<lparr> av_initial_prey := Some adjusted_prey,
                             av_initial_predators := Some adjusted_predators \<rparr>,
                         reason := ''Too many entities for grid size. Reduced to 80% of total cells.'' \<rparr>))
         else (initial_prey, initial_predators, prob, info))"

text \<open>
  The placement on one shuffled index list: predators, then prey, then substrate, each on the
  next slice of the list. The result is the grid and the report so far.
\<close>

definition place_cells ::
  "int \<Rightarrow> int \<Rightarrow> int \<Rightarrow> real \<Rightarrow> adjustment_info \<Rightarrow> rng \<Rightarrow> int array2 \<times> adjustment_info" where
  "place_cells sz initial_prey initial_predators prob info r =
     (let n = nat sz;
          total_cells = sz * sz;
          grid0 = (\<lambda>_. EMPTY);
          all_indices = fst (shuffle [0..<nat total_cells] r);
          (grid1, index1, info1) =
            (if initial_predators > 0
             then (let predator_count = min initial_predators (total_cells - 0);
                       predator_indices = py_slice all_indices 0 (0 + predator_count)
                   in (place grid0 n predator_indices PREDATOR, 0 + predator_count,
                       if predator_count < initial_predators
                       then info\<lparr> values_adjusted := True,
                                  adjusted_values := (adjusted_values info)
                                    \<lparr> av_actual_predator_count := Some predator_count \<rparr>,
                                  reason := reason info
                                    @ only_placed_reason predator_count initial_predators ''predators'' \<rparr>
                       else info))
             else (grid0, 0, info));
          (grid2, index2, info2) =
            (if initial_prey > 0
             then (let prey_count = min initial_prey (total_cells - index1);
                       prey_indices = py_slice all_indices index1 (index1 + prey_count)
                   in (place grid1 n prey_indices PREY, index1 + prey_count,
                       if prey_count < initial_prey
                       then info1\<lparr> values_adjusted := True,
                                   adjusted_values := (adjusted_values info1)
                                     \<lparr> av_actual_prey_count := Some prey_count \<rparr>,
                                   reason := reason info1
                                     @ only_placed_reason prey_count initial_prey ''prey'' \<rparr>
                       else info1))
             else (grid1, index1, info1))
      in if prob > 0
         then (let remaining_cells = total_cells - index2;
                   substrate_count =
                     py_int (float_mul (float_of_int remaining_cells) (float_round prob))
               in if substrate_count > 0
                  then (place grid2 n
                          (py_slice all_indices index2 (index2 + substrate_count)) SUBSTRATE,
                        info2\<lparr> adjusted_values := (adjusted_values info2)
                                 \<lparr> av_actual_substrate_count := Some substrate_count \<rparr> \<rparr>)
                  else (grid2, info2))
         else (grid2, info2))"

text \<open>The recount of the placed cells and the reconciliation of the report.\<close>

definition reconcile_counts ::
  "int array2 \<Rightarrow> nat \<Rightarrow> int \<Rightarrow> int \<Rightarrow> adjustment_info \<Rightarrow> adjustment_info" where
  "reconcile_counts g n initial_prey initial_predators info =
     (let actual_predator_count = int (count_cells g n PREDATOR);
          actual_prey_count = int (count_cells g n PREY)
      in if actual_predator_count \<noteq> initial_predators \<or> actual_prey_count \<noteq> initial_prey
         then info\<lparr> values_adjusted := True,
                    adjusted_values := (adjusted_values info)
                      \<lparr> av_actual_predator_count := Some actual_predator_count,
                        av_actual_prey_count := Some actual_prey_count \<rparr> \<rparr>
         else info)"

definition place_entities ::
  "int \<Rightarrow> int \<Rightarrow> int \<Rightarrow> real \<Rightarrow> adjustment_info \<Rightarrow> rng \<Rightarrow> int array2 \<times> adjustment_info" where
  "place_entities sz initial_prey initial_predators prob info r =
     (let (grid3, info3) = place_cells sz initial_prey initial_predators prob info r
      in (grid3, reconcile_counts grid3 (nat sz) initial_prey initial_predators info3))"

definition initialize_grid ::
  "int \<Rightarrow> int \<Rightarrow> int \<Rightarrow> real \<Rightarrow> rng \<Rightarrow> error + (int array2 \<times> adjustment_info)" where
  "initialize_grid sz initial_prey initial_predators initial_substrate_prob r =
     (if sz \<le> 0 then Inl ValueError
      else if initial_prey < 0 then Inl ValueError
      else if initial_predators < 0 then Inl ValueError
      else if \<not> (0 \<le> initial_substrate_prob \<and> initial_substrate_prob \<le> 1) then Inl ValueError
      else
       (let info0 = \<lparr> values_adjusted = False,
                      original_values =
                        \<lparr> ov_initial_prey = initial_prey,
                          ov_initial_predators = initial_predators,
                          ov_initial_substrate_prob = initial_substrate_prob \<rparr>,
                      adjusted_values =
                        \<lparr> av_initial_prey = None, av_initial_predators = None,
                          av_initial_substrate_prob = None, av_actual_predator_count = None,
                          av_actual_prey_count = None, av_actual_substrate_count = None \<rparr>,
                      reason = [] \<rparr>;
            (prey1, pred1, prob1, info1) =
              density_policy sz initial_prey initial_predators initial_substrate_prob info0;
            (g, info2) = place_entities sz prey1 pred1 prob1 info1 r
        in Inr (g, info2)))"




section \<open>Concrete inputs\<close>

text \<open>
  The engine's view of \<open>SimulationSettings().dict()\<close>: the keys the engine reads that the
  settings model defines, with their default values; the other keys are absent.
\<close>

definition default_settings :: params where
  "default_settings =
     \<lparr> predator_death_chance = None,
       predator_starvation_steps = Some 10,
       hunt_success_prob = None,
       predator_reproduction_chance = None,
       predator_movement_prob = None,
       prey_death_chance = None,
       prey_starvation_steps = Some 3,
       prey_reproduction_chance = None,
       substrate_random_death = Some 0.03,
       predator_birth_probability = Some 0.33,
       initial_substrate_probability = Some 0.25,
       neighborhood_type = Some ''von_neumann'',
       grid_type = Some ''torus'' \<rparr>"

text \<open>\<open>np.array(rows)\<close> for a list of rows.\<close>

definition grid_of :: "int list list \<Rightarrow> int array2" where
  "grid_of rows =
     (\<lambda>c. if 0 \<le> fst c \<and> nat (fst c) < length rows
              \<and> 0 \<le> snd c \<and> nat (snd c) < length (rows ! nat (fst c))
           then rows ! nat (fst c) ! nat (snd c) else EMPTY)"

text \<open>A generator that replays a finite list of raw draws and then yields zeros.\<close>

definition rng_of :: "nat list \<Rightarrow> rng" where
  "rng_of ks = (\<lambda>i. if i < length ks then ks ! i else 0)"

section \<open>Runs and reachable states\<close>

text \<open>
  \<open>k\<close> successive calls of \<open>step\<close> whose allocations succeed, as the server's loop makes
  them.
\<close>

fun run_steps :: "nat \<Rightarrow> string \<Rightarrow> simulation \<Rightarrow> rng \<Rightarrow> simulation \<times> rng" where
  "run_steps 0 now s r = (s, r)"
| "run_steps (Suc k) now s r =
     (case step True now s r of
        Inr (g, s', r') \<Rightarrow> run_steps k now s' r'
      | Inl e \<Rightarrow> (s, r))"

text \<open>
  The states a session can be in: the state after \<open>__init__\<close>, and the state after any call
  of \<open>step\<close> from such a state, whatever the generator, the clock and the allocator do.
\<close>

inductive reachable :: "simulation \<Rightarrow> bool" where
  reachable_init: "reachable (Simulation_init g n p rec_enabled adj now)"
| reachable_step: "reachable s \<Longrightarrow> step alloc_ok now s r = Inr (g, s', r') \<Longrightarrow> reachable s'"

text \<open>Every predator of the committed grid has a non-negative hunger counter.\<close>

definition hunger_ok :: "simulation \<Rightarrow> bool" where
  "hunger_ok s =
     (\<forall>c \<in> set (coords (grid_size s)). grid s c = PREDATOR \<longrightarrow> 0 \<le> predator_hunger s c)"

text \<open>
  What one rule may do to the buffers: a cell that holds a predator afterwards has a
  non-negative counter, or held a predator before and kept its counter.
\<close>

definition good_write :: "sweep \<Rightarrow> sweep \<Rightarrow> bool" where
  "good_write sw sw' =
     (\<forall>c'. new_grid sw' c' = PREDATOR \<longrightarrow>
        0 \<le> new_predator_hunger sw' c'
        \<or> (new_grid sw c' = PREDATOR \<and> new_predator_hunger sw' c' = new_predator_hunger sw c'))"

text \<open>
  The invariant of the sweep: a predator in the buffer has a non-negative counter, or is a
  predator of the committed grid whose cell is still to be processed.
\<close>

definition sweep_inv :: "simulation \<Rightarrow> coord list \<Rightarrow> sweep \<Rightarrow> bool" where
  "sweep_inv s rem sw =
     (\<forall>c \<in> set (coords (grid_size s)). new_grid sw c = PREDATOR \<longrightarrow>
        0 \<le> new_predator_hunger sw c \<or> (grid s c = PREDATOR \<and> c \<in> set rem))"

text \<open>
  Control reaches the division \<open>current_hunger / hunger_threshold\<close> of
  \<open>_update_predator\<close>: neither the random death nor the starvation branch returned.
\<close>

definition reaches_division :: "simulation \<Rightarrow> coord \<Rightarrow> sweep \<Rightarrow> bool" where
  "reaches_division s c sw =
     (\<not> fst (random (rand sw)) < pget (predator_death_chance (params s)) 0.005
      \<and> \<not> predator_hunger s c \<ge> pget (predator_starvation_steps (params s)) 10)"

text \<open>
  The animal of cell \<open>c\<close> feeds. A predator feeds when the hunting branch of
  \<open>_update_predator\<close> is taken: there is prey within distance 2 and the hunt draw, the
  one after the death draw, is below the hunt probability. A prey feeds when the eating
  branch of \<open>_update_prey\<close> is taken: there is substrate among its neighbours and it does not
  freeze (a predator among its neighbours and the draw after the death draw below 0.7).
\<close>

definition hunt_succeeds :: "simulation \<Rightarrow> coord \<Rightarrow> sweep \<Rightarrow> bool" where
  "hunt_succeeds s c sw =
     (let r1 = snd (random (rand sw));
          current_hunger = predator_hunger s c;
          hunger_threshold = pget (predator_starvation_steps (params s)) 10;
          hunger_risk = real_of_int current_hunger / real_of_int hunger_threshold;
          hunt_probability = pget (hunt_success_prob (params s)) 0.7 * (1 + hunger_risk);
          prey_neighbors =
            filter (\<lambda>c'. grid s c' = PREY)
              (get_nearby_cells (params s) (grid_size s) (fst c) (snd c) 2)
      in prey_neighbors \<noteq> [] \<and> fst (random r1) < hunt_probability)"

definition prey_eats :: "simulation \<Rightarrow> coord \<Rightarrow> sweep \<Rightarrow> bool" where
  "prey_eats s c sw =
     (let r1 = snd (random (rand sw));
          neighbors = get_nearby_cells (params s) (grid_size s) (fst c) (snd c) 1;
          predator_nearby = list_ex (\<lambda>c'. grid s c' = PREDATOR) neighbors;
          substrate_neighbors = filter (\<lambda>c'. grid s c' = SUBSTRATE) neighbors
      in substrate_neighbors \<noteq> [] \<and> \<not> (predator_nearby \<and> fst (random r1) < 0.7))"

text \<open>No draw of the generator, read as \<open>random.random()\<close>, is below \<open>d\<close>.\<close>

definition draws_at_least :: "real \<Rightarrow> rng \<Rightarrow> bool" where
  "draws_at_least d r = (\<forall>i. d \<le> real (r i mod 2 ^ 53) / 2 ^ 53)"

text \<open>
  A single predator, at \<open>p\<close> with hunger \<open>h\<close>, and no prey on the grid; and a grid
  without predator and prey.
\<close>

definition alone :: "simulation \<Rightarrow> coord \<Rightarrow> int \<Rightarrow> bool" where
  "alone s p h =
     (in_grid (grid_size s) p \<and> grid s p = PREDATOR \<and> predator_hunger s p = h
      \<and> (\<forall>c. in_grid (grid_size s) c \<and> c \<noteq> p \<longrightarrow> grid s c \<noteq> PREDATOR \<and> grid s c \<noteq> PREY))"

definition no_animals :: "simulation \<Rightarrow> bool" where
  "no_animals s = (\<forall>c. in_grid (grid_size s) c \<longrightarrow> grid s c \<noteq> PREDATOR \<and> grid s c \<noteq> PREY)"

text \<open>The same two situations in the buffers of a sweep.\<close>

definition alone_in_buffer :: "nat \<Rightarrow> sweep \<Rightarrow> coord \<Rightarrow> bool" where
  "alone_in_buffer n sw p =
     (in_grid n p \<and> new_grid sw p = PREDATOR
      \<and> (\<forall>c. in_grid n c \<and> c \<noteq> p \<longrightarrow> new_grid sw c \<noteq> PREDATOR \<and> new_grid sw c \<noteq> PREY))"

definition none_in_buffer :: "nat \<Rightarrow> sweep \<Rightarrow> bool" where
  "none_in_buffer n sw =
     (\<forall>c. in_grid n c \<longrightarrow> new_grid sw c \<noteq> PREDATOR \<and> new_grid sw c \<noteq> PREY)"

text \<open>A predator next to a prey on a 3 x 3 grid, with the default settings.\<close>

definition hunt_sim :: simulation where
  "hunt_sim = Simulation_init (grid_of [[2, 1, 0], [0, 0, 0], [0, 0, 0]]) 3 default_settings
                False None []"

text \<open>The same grid with a starvation threshold of zero.\<close>

definition zero_threshold_sim :: simulation where
  "zero_threshold_sim =
     Simulation_init (grid_of [[2, 1, 0], [0, 0, 0], [0, 0, 0]]) 3
       (default_settings\<lparr>predator_starvation_steps := Some 0\<rparr>) False None []"

definition zero_rng :: rng where
  "zero_rng = rng_of []"

text \<open>
  Draws for one generation of \<open>hunt_sim\<close>: eight zeros for the shuffle, which then
  visits the cells in row-major order starting at \<open>(0, 1)\<close> and ending at \<open>(0, 0)\<close>; the
  value \<open>2 ^ 52\<close> is the draw 0.5.
\<close>

definition hunt_rng :: rng where
  "hunt_rng = rng_of [0, 0, 0, 0, 0, 0, 0, 0,
                      4503599627370496, 4503599627370496,
                      4503599627370496, 4503599627370496, 4503599627370496, 4503599627370496,
                      4503599627370496, 4503599627370496, 4503599627370496,
                      4503599627370496, 4503599627370496, 0, 4503599627370496]"

text \<open>
  A prey at \<open>(0, 1)\<close> and a predator at \<open>(1, 2)\<close> that share the empty neighbours
  \<open>(0, 2)\<close> and \<open>(1, 1)\<close>, with the default settings; and draws for one generation: the
  value \<open>2 ^ 53 - 1\<close> is the largest draw.
\<close>

definition collide_sim :: simulation where
  "collide_sim = Simulation_init (grid_of [[0, 1, 0], [0, 0, 2], [0, 0, 0]]) 3 default_settings
                   False None []"

definition collide_rng :: rng where
  "collide_rng = rng_of [0, 0, 0, 0, 0, 0, 0, 0,
                         4503599627370496, 3,
                         4503599627370496, 4503599627370496,
                         4503599627370496, 9007199254740991, 0, 1,
                         4503599627370496, 4503599627370496, 4503599627370496, 4503599627370496]"

text \<open>
  A single predator in the middle of an otherwise empty 5 x 5 torus, with a predator death
  chance of 0, a starvation threshold of 3 and no movement.
\<close>

definition lone_sim :: simulation where
  "lone_sim =
     Simulation_init ((\<lambda>_. EMPTY)((2, 2) := PREDATOR)) 5
       (default_settings\<lparr> predator_death_chance := Some 0,
                          predator_starvation_steps := Some 3,
                          predator_movement_prob := Some 0 \<rparr>) False None []"

text \<open>
  The same predator with the settings of the server, where the key
  \<open>predator_death_chance\<close> is absent, and a starvation threshold of 3; and a generator all of
  whose draws are 0.5.
\<close>

definition settings_lone_sim :: simulation where
  "settings_lone_sim =
     Simulation_init ((\<lambda>_. EMPTY)((2, 2) := PREDATOR)) 5
       (default_settings\<lparr> predator_starvation_steps := Some 3 \<rparr>) False None []"

definition half_rng :: rng where
  "half_rng = (\<lambda>_. 4503599627370496)"

text \<open>A prey between a predator and a substrate cell, with the default settings.\<close>

definition graze_sim :: simulation where
  "graze_sim = Simulation_init (grid_of [[2, 1, 3], [0, 0, 0], [0, 0, 0]]) 3 default_settings
                 False None []"

section \<open>Properties of the neighbour helpers\<close>

lemma concat_map_singleton_if:
  "concat (map (\<lambda>a. if P a then [] else [f a]) xs) = map f (filter (\<lambda>a. \<not> P a) xs)"
  by (induction xs) auto

lemma get_nearby_cells_wraps:
  assumes "pget (grid_type p) ''bounded'' \<noteq> ''bounded''"
  shows "get_nearby_cells p n x y distance =
         map (wrap n x y) (nearby_offsets (pget (neighborhood_type p) ''moore'') distance)"
proof -
  have inner: "\<And>dx ys. concat (map (\<lambda>dy.
           if dx = 0 \<and> dy = 0 then []
           else if pget (neighborhood_type p) ''moore'' = ''von_neumann'' \<and> \<bar>dx\<bar> + \<bar>dy\<bar> > distance then []
           else [((x + dx) mod int n, (y + dy) mod int n)]) ys)
        = map (wrap n x y) (concat (map (\<lambda>dy.
           if dx = 0 \<and> dy = 0 then []
           else if pget (neighborhood_type p) ''moore'' = ''von_neumann'' \<and> \<bar>dx\<bar> + \<bar>dy\<bar> > distance then []
           else [(dx, dy)]) ys))"
    subgoal for dx ys by (induction ys) (auto simp: wrap_def)
    done
  have outer: "\<And>xs ys. concat (map (\<lambda>dx. concat (map (\<lambda>dy.
           if dx = 0 \<and> dy = 0 then []
           else if pget (neighborhood_type p) ''moore'' = ''von_neumann'' \<and> \<bar>dx\<bar> + \<bar>dy\<bar> > distance then []
           else [((x + dx) mod int n, (y + dy) mod int n)]) ys)) xs)
        = map (wrap n x y) (concat (map (\<lambda>dx. concat (map (\<lambda>dy.
           if dx = 0 \<and> dy = 0 then []
           else if pget (neighborhood_type p) ''moore'' = ''von_neumann'' \<and> \<bar>dx\<bar> + \<bar>dy\<bar> > distance then []
           else [(dx, dy)]) ys)) xs))"
    subgoal for xs ys by (induction xs) (simp_all add: inner)
    done
  show ?thesis
    using assms unfolding get_nearby_cells_def nearby_offsets_def Let_def
    by (simp add: outer cong del: if_weak_cong)
qed

lemma wrap_in_grid: "0 < n \<Longrightarrow> in_grid n (wrap n x y d)"
  by (simp add: in_grid_def wrap_def)

lemma get_nearby_cells_in_range:
  assumes "0 < n" and "c \<in> set (get_nearby_cells p n x y distance)"
  shows "in_grid n c"
proof (cases "pget (grid_type p) ''bounded'' = ''bounded''")
  case True
  with assms(2) show ?thesis
    by (auto simp: get_nearby_cells_def Let_def in_grid_def split: if_splits)
next
  case False
  with assms show ?thesis
    by (auto simp: get_nearby_cells_wraps wrap_in_grid)
qed

lemma get_neighbors_coords_torus:
  "get_neighbors_coords n x y nt ''torus'' = map (wrap n x y) (directions nt)"
proof -
  have "\<And>ds. concat (map (\<lambda>(dx, dy). [((x + dx) mod int n, (y + dy) mod int n)]) ds)
            = map (wrap n x y) ds"
    subgoal for ds by (induction ds) (auto simp: wrap_def)
    done
  then show ?thesis
    by (simp add: get_neighbors_coords_def Let_def)
qed

lemma get_neighbors_coords_finite:
  assumes "gt \<noteq> ''torus''"
  shows "get_neighbors_coords n x y nt gt =
         filter (in_grid n) (map (shift x y) (directions nt))"
proof -
  have "\<And>ds. concat (map (\<lambda>(dx, dy).
           if 0 \<le> x + dx \<and> x + dx < int n \<and> 0 \<le> y + dy \<and> y + dy < int n
           then [(x + dx, y + dy)] else []) ds)
        = filter (in_grid n) (map (shift x y) ds)"
    subgoal for ds by (induction ds) (auto simp: in_grid_def shift_def)
    done
  with assms show ?thesis
    by (simp add: get_neighbors_coords_def Let_def)
qed

lemma get_neighbors_coords_in_range:
  assumes "0 < n" and "c \<in> set (get_neighbors_coords n x y nt gt)"
  shows "in_grid n c"
proof (cases "gt = ''torus''")
  case True
  with assms show ?thesis by (auto simp: get_neighbors_coords_torus wrap_in_grid)
next
  case False
  with assms show ?thesis by (auto simp: get_neighbors_coords_finite)
qed

text \<open>
  Claim C6. For every grid-type value other than \<open>'bounded'\<close> (the real parameter values
  \<open>'finite'\<close> and \<open>'torus'\<close> among them) the extended-radius helper
  \<open>_get_nearby_cells\<close> keeps every offset of its loops and wraps it modulo the grid size,
  so it returns the same cells as for any other such value; whereas the radius-1 helper
  \<open>get_neighbors_coords\<close> wraps when the grid type is \<open>'torus'\<close> and otherwise returns the
  unwrapped coordinates with the out-of-range ones dropped.
\<close>

theorem boundary_vocabulary_mismatch:
  assumes "gt \<noteq> ''bounded''" and "in_grid n (x, y)"
  shows "get_nearby_cells (p\<lparr>grid_type := Some gt\<rparr>) n x y distance
           = map (wrap n x y) (nearby_offsets (pget (neighborhood_type p) ''moore'') distance)
       \<and> (\<forall>c \<in> set (get_nearby_cells (p\<lparr>grid_type := Some gt\<rparr>) n x y distance). in_grid n c)
       \<and> get_neighbors_coords n x y nt gt
           = (if gt = ''torus'' then map (wrap n x y) (directions nt)
              else filter (in_grid n) (map (shift x y) (directions nt)))"
proof -
  have pos: "0 < n"
    using assms(2) by (auto simp: in_grid_def)
  have g: "pget (grid_type (p\<lparr>grid_type := Some gt\<rparr>)) ''bounded'' \<noteq> ''bounded''"
    using assms(1) by (simp add: pget_def)
  have a: "get_nearby_cells (p\<lparr>grid_type := Some gt\<rparr>) n x y distance
           = map (wrap n x y) (nearby_offsets (pget (neighborhood_type p) ''moore'') distance)"
    using get_nearby_cells_wraps [OF g] by simp
  have b: "\<forall>c \<in> set (get_nearby_cells (p\<lparr>grid_type := Some gt\<rparr>) n x y distance). in_grid n c"
    using get_nearby_cells_in_range [OF pos] by blast
  have c: "get_neighbors_coords n x y nt gt
           = (if gt = ''torus'' then map (wrap n x y) (directions nt)
              else filter (in_grid n) (map (shift x y) (directions nt)))"
    by (simp add: get_neighbors_coords_torus get_neighbors_coords_finite)
  from a b c show ?thesis by blast
qed


theorem boundary_vocabulary_mismatch_witness:
  "''finite'' \<noteq> ''bounded'' \<and> in_grid 3 (0, 0)
   \<and> get_nearby_cells (default_settings\<lparr>grid_type := Some ''finite''\<rparr>) 3 0 0 1
       = [(2, 0), (0, 2), (0, 1), (1, 0)]
   \<and> get_neighbors_coords 3 0 0 ''von_neumann'' ''finite'' = [(0, 1), (1, 0)]"
  using boundary_vocabulary_mismatch
    [where gt = "''finite''" and n = 3 and x = 0 and y = 0 and p = default_settings
       and distance = 1 and nt = "''von_neumann''"]
  by (simp add: nearby_offsets_def wrap_def shift_def directions_def in_grid_def pget_def
      default_settings_def upto.simps)

section \<open>Statistics\<close>

text \<open>
  Claim C9. \<open>get_statistics\<close> is a pure read: the call leaves the simulation object (grid,
  hunger arrays, historical series and every other field) as it was, and a second call
  without an intervening step returns the same dictionary as the first.
\<close>

theorem get_statistics_idempotent:
  "snd (get_statistics s) = s
   \<and> fst (get_statistics (snd (get_statistics s))) = fst (get_statistics s)"
proof -
  have "snd (get_statistics s) = s"
    by (simp add: get_statistics_def Let_def)
  then show ?thesis by simp
qed

section \<open>Allocation failure in \<open>step\<close>\<close>

lemma step_body_alloc_failure: "step_body False now s r = Inl MemoryError"
  by (simp add: step_body_def)

lemma step_returns_normally: "\<exists>res. step alloc_ok now s r = Inr res"
  by (simp add: step_def split: sum.splits prod.splits)

text \<open>
  Claim C7, as the code has it. When the buffer allocation fails, the \<open>MemoryError\<close> raised
  in the body is caught by the outer handler of \<open>step\<close>: the call returns normally with the
  committed grid as its result, and the simulation object and the generator are unchanged.
  No call of \<open>step\<close> ends in an exception.
\<close>

theorem step_alloc_failure_returns_committed_grid:
  "step False now s r = Inr (grid s, s, r) \<and> (\<exists>res. step alloc_ok now s r = Inr res)"
  using step_returns_normally
  by (simp add: step_def step_body_alloc_failure)

text \<open>
  Claim C7 as stated fails on any input: with a failing allocation, \<open>step\<close> returns the
  committed grid as an ordinary result.
\<close>

theorem alloc_failure_not_surfaced:
  "step_body False [] hunt_sim zero_rng = Inl MemoryError
   \<and> step False [] hunt_sim zero_rng = Inr (grid hunt_sim, hunt_sim, zero_rng)"
  by (simp add: step_def step_body_def)

section \<open>Recording\<close>

lemma step_frame_large:
  "500 < grid_size s \<Longrightarrow> frame_grid (step_frame s a b c now) = None"
  by (simp add: step_frame_def Let_def)

lemma step_frame_small:
  "grid_size s \<le> 500 \<Longrightarrow> frame_grid (step_frame s a b c now) = Some (tolist (grid s) (grid_size s))"
  by (simp add: step_frame_def Let_def)

text \<open>
  Claim C8 at the generation-0 frame. With recording enabled, \<open>__init__\<close> stores a full
  copy of the grid in the first frame also for a grid of side 501, where the frames written
  by \<open>step\<close> (lemma \<open>step_frame_large\<close>) omit it.
\<close>

theorem initial_frame_stores_grid_of_large_grid:
  "map frame_grid (recorded_frames (Simulation_init g 501 p True adj now)) = [Some (tolist g 501)]"
  by (simp add: Simulation_init_def)


section \<open>The shuffle\<close>

lemma shuffle_loop_set:
  "i < length xs \<Longrightarrow> set (fst (shuffle_loop i xs r)) = set xs \<and> distinct (fst (shuffle_loop i xs r)) = distinct xs"
proof (induction i arbitrary: xs r)
  case 0
  then show ?case by simp
next
  case (Suc i)
  let ?j = "r 0 mod Suc (Suc i)"
  have j: "?j < length xs" using Suc.prems
    by (meson less_Suc_eq_le less_le_trans mod_less_divisor not_less zero_less_Suc Suc_leI le_trans)
  let ?ys = "xs[Suc i := xs ! ?j, ?j := xs ! Suc i]"
  have "i < length ?ys" using Suc.prems by simp
  from Suc.IH[OF this, of "rtail r"] j Suc.prems show ?case
    by (simp add: Let_def set_swap distinct_swap)
qed

lemma shuffle_set: "set (fst (shuffle xs r)) = set xs"
  by (cases "xs = []") (simp_all add: shuffle_def shuffle_loop_set)

lemma shuffle_distinct: "distinct (fst (shuffle xs r)) = distinct xs"
  by (cases "xs = []") (simp_all add: shuffle_def shuffle_loop_set)

lemma coords_image: "set (coords n) = (\<lambda>(x, y). (int x, int y)) ` ({..<n} \<times> {..<n})"
  by (auto simp: coords_def)

lemma coords_set: "set (coords n) = {c. in_grid n c}"
proof (intro set_eqI iffI)
  fix c assume "c \<in> set (coords n)"
  then show "c \<in> {c. in_grid n c}" by (auto simp: coords_def in_grid_def)
next
  fix c assume "c \<in> {c. in_grid n c}"
  then have "(nat (fst c), nat (snd c)) \<in> {..<n} \<times> {..<n}"
    and "c = (\<lambda>(x, y). (int x, int y)) (nat (fst c), nat (snd c))"
    by (auto simp: in_grid_def)
  then show "c \<in> set (coords n)"
    unfolding coords_image by (rule image_eqI[rotated])
qed

lemma coords_product:
  "coords n = map (\<lambda>(x, y). (int x, int y)) (List.product [0..<n] [0..<n])"
  by (simp add: coords_def product_concat_map map_concat comp_def)

lemma distinct_coords: "distinct (coords n)"
  unfolding coords_product
  by (simp add: distinct_map distinct_product inj_on_def)

section \<open>Predator hunger stays non-negative\<close>

lemma good_write_update_prey: "good_write sw (fst (update_prey s c sw))"
  by (auto simp: good_write_def update_prey_def prey_forage_def Let_def split: prod.splits if_splits)

lemma good_write_update_substrate: "good_write sw (fst (update_substrate s c sw))"
  by (auto simp: good_write_def update_substrate_def Let_def split: prod.splits if_splits option.splits)

lemma good_write_update_empty: "good_write sw (fst (update_empty s c sw))"
  by (auto simp: good_write_def update_empty_def empty_regrowth_def Let_def split: prod.splits if_splits option.splits)

lemma good_write_update_predator:
  "0 \<le> predator_hunger s c \<Longrightarrow> good_write sw (fst (update_predator s c sw))"
  by (auto simp: good_write_def update_predator_def predator_hunt_def predator_move_def Let_def split: prod.splits if_splits)

lemma own_cell_update_predator:
  "0 \<le> predator_hunger s c \<Longrightarrow> new_grid (fst (update_predator s c sw)) c = PREDATOR
     \<Longrightarrow> 0 \<le> new_predator_hunger (fst (update_predator s c sw)) c"
  by (auto simp: update_predator_def predator_hunt_def predator_move_def Let_def split: prod.splits if_splits)

lemma update_predator_no_error:
  "0 \<le> predator_hunger s c \<Longrightarrow> snd (update_predator s c sw) = None"
  by (auto simp: update_predator_def Let_def split: prod.splits if_splits)

lemma inv_step:
  assumes "sweep_inv s (c # rem) sw" and "good_write sw sw'"
    and "new_grid sw' c = PREDATOR \<longrightarrow> 0 \<le> new_predator_hunger sw' c"
  shows "sweep_inv s rem sw'"
  using assms unfolding sweep_inv_def good_write_def
  by (metis set_ConsD)

lemma inv_step_restore:
  assumes "sweep_inv s (c # rem) sw" and "good_write sw sw'" and "v \<noteq> PREDATOR"
  shows "sweep_inv s rem (sw'\<lparr>new_grid := (new_grid sw')(c := v)\<rparr>)"
  using assms unfolding sweep_inv_def good_write_def
  by (auto split: if_splits) (metis set_ConsD)+

lemma good_write_own_cell:
  "good_write sw sw' \<Longrightarrow> new_grid sw c \<noteq> PREDATOR
     \<Longrightarrow> new_grid sw' c = PREDATOR \<longrightarrow> 0 \<le> new_predator_hunger sw' c"
  unfolding good_write_def by blast

lemma process_cell_inv:
  assumes ok: "hunger_ok s" and c: "c \<in> set (coords (grid_size s))"
    and inv: "sweep_inv s (c # rem) sw"
  shows "sweep_inv s rem (process_cell s sw c)"
proof (cases "new_grid sw c \<noteq> grid s c")
  case True
  then have "process_cell s sw c = sw" by (simp add: process_cell_def)
  moreover have "sweep_inv s rem sw"
    using inv True unfolding sweep_inv_def by (metis set_ConsD)
  ultimately show ?thesis by simp
next
  case same: False
  consider (pred) "grid s c = PREDATOR" | (prey) "grid s c = PREY" | (sub) "grid s c = SUBSTRATE"
    | (emp) "grid s c = EMPTY" | (other) "grid s c \<noteq> PREDATOR" "grid s c \<noteq> PREY"
      "grid s c \<noteq> SUBSTRATE" "grid s c \<noteq> EMPTY"
    by blast
  then show ?thesis
  proof cases
    case pred
    have h: "0 \<le> predator_hunger s c" using ok c pred by (simp add: hunger_ok_def)
    have "process_cell s sw c = fst (update_predator s c sw)"
      using same pred update_predator_no_error[OF h, of sw]
      by (cases "update_predator s c sw") (simp add: process_cell_def)
    then show ?thesis
      using inv_step[OF inv good_write_update_predator[OF h]] own_cell_update_predator[OF h]
      by simp
  next
    case prey
    let ?o = "update_prey s c sw"
    have gw: "good_write sw (fst ?o)" by (rule good_write_update_prey)
    have np: "new_grid sw c \<noteq> PREDATOR" using same prey by simp
    have a: "sweep_inv s rem (fst ?o)"
      using inv_step[OF inv gw good_write_own_cell[OF gw np]] .
    have b: "sweep_inv s rem ((fst ?o)\<lparr>new_grid := (new_grid (fst ?o))(c := grid s c)\<rparr>)"
      using inv_step_restore[OF inv gw, of "grid s c"] prey by simp
    have "process_cell s sw c = fst ?o
          \<or> process_cell s sw c = (fst ?o)\<lparr>new_grid := (new_grid (fst ?o))(c := grid s c)\<rparr>"
      using same prey by (cases ?o) (simp add: process_cell_def split: option.splits)
    with a b show ?thesis by auto
  next
    case sub
    let ?o = "update_substrate s c sw"
    have gw: "good_write sw (fst ?o)" by (rule good_write_update_substrate)
    have np: "new_grid sw c \<noteq> PREDATOR" using same sub by simp
    have a: "sweep_inv s rem (fst ?o)"
      using inv_step[OF inv gw good_write_own_cell[OF gw np]] .
    have b: "sweep_inv s rem ((fst ?o)\<lparr>new_grid := (new_grid (fst ?o))(c := grid s c)\<rparr>)"
      using inv_step_restore[OF inv gw, of "grid s c"] sub by simp
    have "process_cell s sw c = fst ?o
          \<or> process_cell s sw c = (fst ?o)\<lparr>new_grid := (new_grid (fst ?o))(c := grid s c)\<rparr>"
      using same sub by (cases ?o) (simp add: process_cell_def split: option.splits)
    with a b show ?thesis by auto
  next
    case emp
    let ?o = "update_empty s c sw"
    have gw: "good_write sw (fst ?o)" by (rule good_write_update_empty)
    have np: "new_grid sw c \<noteq> PREDATOR" using same emp by simp
    have a: "sweep_inv s rem (fst ?o)"
      using inv_step[OF inv gw good_write_own_cell[OF gw np]] .
    have b: "sweep_inv s rem ((fst ?o)\<lparr>new_grid := (new_grid (fst ?o))(c := grid s c)\<rparr>)"
      using inv_step_restore[OF inv gw, of "grid s c"] emp by simp
    have "process_cell s sw c = fst ?o
          \<or> process_cell s sw c = (fst ?o)\<lparr>new_grid := (new_grid (fst ?o))(c := grid s c)\<rparr>"
      using same emp by (cases ?o) (simp add: process_cell_def split: option.splits)
    with a b show ?thesis by auto
  next
    case other
    then have "process_cell s sw c = sw" using same by (simp add: process_cell_def)
    moreover have "sweep_inv s rem sw"
      using inv other unfolding sweep_inv_def by (metis set_ConsD)
    ultimately show ?thesis by simp
  qed
qed

lemma sweep_cells_inv:
  assumes "hunger_ok s"
  shows "set cs \<subseteq> set (coords (grid_size s)) \<Longrightarrow> sweep_inv s cs sw
         \<Longrightarrow> sweep_inv s [] (sweep_cells s cs sw)"
proof (induction cs arbitrary: sw)
  case Nil
  then show ?case by (simp add: sweep_cells_def)
next
  case (Cons c cs)
  have "sweep_inv s cs (process_cell s sw c)"
    using process_cell_inv[OF assms _ Cons.prems(2)] Cons.prems(1) by simp
  from Cons.IH[OF _ this] Cons.prems(1) show ?case
    by (simp add: sweep_cells_def)
qed

lemma step_body_hunger_ok:
  assumes "hunger_ok s" and "step_body alloc_ok now s r = Inr (s', r')"
  shows "hunger_ok s'"
proof -
  from assms(2) have a: "alloc_ok" by (auto simp: step_body_def split: if_splits)
  define order where "order = fst (shuffle (coords (grid_size s)) r)"
  define r1 where "r1 = snd (shuffle (coords (grid_size s)) r)"
  define sw where "sw = sweep_cells s order (fresh_buffers s r1)"
  have so: "set order = set (coords (grid_size s))" by (simp add: order_def shuffle_set)
  have "sweep_inv s order (fresh_buffers s r1)"
    by (simp add: sweep_inv_def fresh_buffers_def so)
  then have fin: "sweep_inv s [] sw"
    unfolding sw_def using sweep_cells_inv[OF assms(1)] so by blast
  have g: "grid s' = new_grid sw" "predator_hunger s' = new_predator_hunger sw"
    "grid_size s' = grid_size s"
    using assms(2) a
    by (auto simp: step_body_def Let_def sw_def order_def r1_def split: prod.splits if_splits)
  show ?thesis using fin by (simp add: hunger_ok_def sweep_inv_def g)
qed

lemma step_hunger_ok:
  assumes "hunger_ok s" and "step alloc_ok now s r = Inr (g, s', r')"
  shows "hunger_ok s'"
  using assms step_body_hunger_ok[OF assms(1)]
  by (auto simp: step_def split: sum.splits prod.splits)

lemma init_hunger_ok: "hunger_ok (Simulation_init g n p rec_enabled adj now)"
  by (simp add: hunger_ok_def Simulation_init_def)

lemma reachable_hunger_ok: "reachable s \<Longrightarrow> hunger_ok s"
  by (induction rule: reachable.induct) (auto intro: init_hunger_ok step_hunger_ok)


text \<open>
  Claim C10. In every reachable state and for every predator cell of the grid, whatever the
  integer starvation threshold: when control reaches the division
  \<open>current_hunger / hunger_threshold\<close>, the hunger is at least 0 and strictly below the
  threshold, so the threshold is at least 1; and \<open>_update_predator\<close> raises no exception
  (the model's only one is \<open>ZeroDivisionError\<close>).
\<close>

theorem hunger_division_defined:
  assumes "reachable s" and "in_grid (grid_size s) c" and "grid s c = PREDATOR"
  shows "(reaches_division s c sw \<longrightarrow>
            0 \<le> predator_hunger s c
            \<and> predator_hunger s c < pget (predator_starvation_steps (params s)) 10
            \<and> 1 \<le> pget (predator_starvation_steps (params s)) 10)
         \<and> snd (update_predator s c sw) = None"
proof -
  have "c \<in> set (coords (grid_size s))"
    using assms(2) by (simp add: coords_set)
  then have h: "0 \<le> predator_hunger s c"
    using reachable_hunger_ok[OF assms(1)] assms(3) by (simp add: hunger_ok_def)
  then show ?thesis
    using update_predator_no_error[OF h, of sw] by (auto simp: reaches_division_def)
qed

lemma zero_threshold_sim_fields:
  "grid_size zero_threshold_sim = 3" "grid zero_threshold_sim (0, 0) = PREDATOR"
  "predator_starvation_steps (params zero_threshold_sim) = Some 0"
  by (simp_all add: zero_threshold_sim_def Simulation_init_def grid_of_def default_settings_def)

theorem hunger_division_defined_witness:
  "reachable zero_threshold_sim \<and> in_grid (grid_size zero_threshold_sim) (0, 0)
   \<and> grid zero_threshold_sim (0, 0) = PREDATOR
   \<and> predator_starvation_steps (params zero_threshold_sim) = Some 0
   \<and> \<not> reaches_division zero_threshold_sim (0, 0) (fresh_buffers zero_threshold_sim zero_rng)
   \<and> snd (update_predator zero_threshold_sim (0, 0) (fresh_buffers zero_threshold_sim zero_rng)) = None"
proof -
  have r: "reachable zero_threshold_sim"
    unfolding zero_threshold_sim_def by (rule reachable_init)
  have i: "in_grid (grid_size zero_threshold_sim) (0, 0)"
    by (simp add: zero_threshold_sim_fields in_grid_def)
  have g: "grid zero_threshold_sim (0, 0) = PREDATOR"
    by (simp add: zero_threshold_sim_fields)
  have h: "predator_hunger zero_threshold_sim (0, 0) = 0"
    by (simp add: zero_threshold_sim_def Simulation_init_def grid_of_def)
  have n: "\<not> reaches_division zero_threshold_sim (0, 0) (fresh_buffers zero_threshold_sim zero_rng)"
    by (simp add: reaches_division_def zero_threshold_sim_fields h pget_def)
  from hunger_division_defined[OF r i g, of "fresh_buffers zero_threshold_sim zero_rng"] r i g n
  show ?thesis by (simp add: zero_threshold_sim_fields)
qed

section \<open>Float rounding\<close>



lemma exponent_bounds:
  assumes "0 < x"
  shows "2 powi exponent x \<le> x" and "x < 2 powi (exponent x + 1)"
proof -
  show "2 powi exponent x \<le> x"
  proof (cases "1 \<le> x")
    case True
    then have p: "0 < \<lfloor>x\<rfloor>" by linarith
    have b: "1 \<le> bitlen \<lfloor>x\<rfloor>" using p bitlen_eq_zero_iff[of "\<lfloor>x\<rfloor>"] bitlen_nonneg[of "\<lfloor>x\<rfloor>"] by linarith
    have "(2::int) ^ nat (bitlen \<lfloor>x\<rfloor> - 1) \<le> \<lfloor>x\<rfloor>" using bitlen_bounds[OF p] by simp
    then have "real_of_int (2 ^ nat (bitlen \<lfloor>x\<rfloor> - 1)) \<le> real_of_int \<lfloor>x\<rfloor>"
      by (simp only: of_int_le_iff)
    moreover have "real_of_int \<lfloor>x\<rfloor> \<le> x" by simp
    ultimately have "real_of_int (2 ^ nat (bitlen \<lfloor>x\<rfloor> - 1)) \<le> x" by (rule order_trans)
    then have "(2::real) ^ nat (bitlen \<lfloor>x\<rfloor> - 1) \<le> x" by simp
    moreover have "(2::real) powi (bitlen \<lfloor>x\<rfloor> - 1) = 2 ^ nat (bitlen \<lfloor>x\<rfloor> - 1)"
      using b by (simp add: power_int_def)
    ultimately show ?thesis using True by (simp add: exponent_def)
  next
    case False
    then have x1: "x < 1" by simp
    define m where "m = \<lceil>1 / x\<rceil> - 1"
    have y: "1 < 1 / x" using assms x1 by simp
    have m1: "real_of_int m < 1 / x" "1 / x \<le> real_of_int m + 1" unfolding m_def by linarith+
    have p: "0 < m" using y m1 by linarith
    have "m < 2 ^ nat (bitlen m)" using bitlen_bounds[OF p] by simp
    then have "m + 1 \<le> 2 ^ nat (bitlen m)" by simp
    then have "real_of_int (m + 1) \<le> real_of_int (2 ^ nat (bitlen m))"
      by (simp only: of_int_le_iff)
    then have "real_of_int m + 1 \<le> 2 ^ nat (bitlen m)" by simp
    then have "1 / x \<le> 2 ^ nat (bitlen m)" using m1(2) by (rule order_trans[rotated])
    then have "1 / 2 ^ nat (bitlen m) \<le> x" using assms
      by (simp add: field_simps)
    moreover have "(2::real) powi (- bitlen m) = 1 / 2 ^ nat (bitlen m)"
      using bitlen_nonneg[of m] by (simp add: power_int_def field_simps)
    ultimately show ?thesis using False by (simp add: exponent_def m_def)
  qed
  show "x < 2 powi (exponent x + 1)"
  proof (cases "1 \<le> x")
    case True
    then have p: "0 < \<lfloor>x\<rfloor>" by linarith
    have "\<lfloor>x\<rfloor> < 2 ^ nat (bitlen \<lfloor>x\<rfloor>)" using bitlen_bounds[OF p] by simp
    then have "\<lfloor>x\<rfloor> + 1 \<le> 2 ^ nat (bitlen \<lfloor>x\<rfloor>)" by simp
    then have "real_of_int (\<lfloor>x\<rfloor> + 1) \<le> real_of_int (2 ^ nat (bitlen \<lfloor>x\<rfloor>))"
      by (simp only: of_int_le_iff)
    then have "real_of_int \<lfloor>x\<rfloor> + 1 \<le> 2 ^ nat (bitlen \<lfloor>x\<rfloor>)" by simp
    moreover have "x < real_of_int \<lfloor>x\<rfloor> + 1" by linarith
    ultimately have "x < 2 ^ nat (bitlen \<lfloor>x\<rfloor>)" by (rule less_le_trans[rotated])
    moreover have "(2::real) powi (bitlen \<lfloor>x\<rfloor>) = 2 ^ nat (bitlen \<lfloor>x\<rfloor>)"
      using bitlen_nonneg[of "\<lfloor>x\<rfloor>"] by (simp add: power_int_def)
    ultimately show ?thesis using True by (simp add: exponent_def)
  next
    case False
    then have x1: "x < 1" by simp
    define m where "m = \<lceil>1 / x\<rceil> - 1"
    have y: "1 < 1 / x" using assms x1 by simp
    have m1: "real_of_int m < 1 / x" "1 / x \<le> real_of_int m + 1" unfolding m_def by linarith+
    have p: "0 < m" using y m1 by linarith
    have b: "1 \<le> bitlen m" using p bitlen_eq_zero_iff[of m] bitlen_nonneg[of m] by linarith
    have "2 ^ nat (bitlen m - 1) \<le> m" using bitlen_bounds[OF p] by simp
    then have "real_of_int (2 ^ nat (bitlen m - 1)) \<le> real_of_int m"
      by (simp only: of_int_le_iff)
    then have "2 ^ nat (bitlen m - 1) \<le> real_of_int m" by simp
    then have "2 ^ nat (bitlen m - 1) < 1 / x" using m1(1) by (rule le_less_trans)
    then have "x < 1 / 2 ^ nat (bitlen m - 1)" using assms
      by (simp add: field_simps)
    moreover have "(2::real) powi (- bitlen m + 1) = 1 / 2 ^ nat (bitlen m - 1)"
    proof -
      have "- bitlen m + 1 = - (bitlen m - 1)" by simp
      then have "(2::real) powi (- bitlen m + 1) = 2 powi (- (bitlen m - 1))" by simp
      also have "\<dots> = 1 / 2 powi (bitlen m - 1)" by (rule power_int_minus_divide)
      also have "\<dots> = 1 / 2 ^ nat (bitlen m - 1)" using b by (simp add: power_int_def)
      finally show ?thesis .
    qed
    ultimately show ?thesis using False by (simp add: exponent_def m_def)
  qed
qed


lemma exponent_eq:
  assumes "0 < x" and "2 powi j \<le> x" and "x < 2 powi (j + 1)"
  shows "exponent x = j"
proof -
  note b = exponent_bounds[OF assms(1)]
  have "\<not> j + 1 \<le> exponent x"
  proof
    assume "j + 1 \<le> exponent x"
    then have "(2::real) powi (j + 1) \<le> 2 powi exponent x" by (rule power_int_increasing) simp
    then show False using b(1) assms(3) by linarith
  qed
  moreover have "\<not> exponent x + 1 \<le> j"
  proof
    assume "exponent x + 1 \<le> j"
    then have "(2::real) powi (exponent x + 1) \<le> 2 powi j" by (rule power_int_increasing) simp
    then show False using b(2) assms(2) by linarith
  qed
  ultimately show ?thesis by linarith
qed

lemma float_round_eval:
  assumes "2 ^ 52 \<le> x * 2 ^ k" and "x * 2 ^ k < 2 ^ 53"
  shows "float_round x = real_of_int (round_half_even (x * 2 ^ k)) / 2 ^ k"
proof -
  have pk: "(0::real) < 2 ^ k" by simp
  have "0 < x * 2 ^ k" using assms(1) by (rule less_le_trans[rotated]) simp
  then have x: "0 < x" using pk by (simp add: zero_less_mult_iff)
  have p1: "(2::real) powi (52 - int k) = 2 ^ 52 / 2 ^ k"
    by (simp add: power_int_diff)
  have p2: "(2::real) powi (52 - int k + 1) = 2 ^ 53 / 2 ^ k"
  proof -
    have "52 - int k + 1 = 53 - int k" by simp
    then show ?thesis by (simp add: power_int_diff)
  qed
  have "2 powi (52 - int k) \<le> x" unfolding p1 using assms(1) pk by (simp add: field_simps)
  moreover have "x < 2 powi (52 - int k + 1)" unfolding p2 using assms(2) pk by (simp add: field_simps)
  ultimately have e: "exponent x = 52 - int k" by (rule exponent_eq[OF x])
  have s: "(2::real) powi (- int k) = 1 / 2 ^ k"
    by (simp add: power_int_minus_divide)
  show ?thesis using x by (simp add: float_round_def e s Let_def)
qed





text \<open>Evaluation on a concrete number below \<open>2 ^ 53\<close>: scale it to 53 bits and round.\<close>

lemmas float_defs =
  float_mul_def float_of_int_def true_div_def py_int_def round_half_even_def Let_def


section \<open>Initialization: placement and density policy\<close>

lemma py_int_nonneg: "0 \<le> x \<Longrightarrow> py_int x = \<lfloor>x\<rfloor>"
  by (simp add: py_int_def)

lemma unravel_index_inj:
  "unravel_index n i = unravel_index n j \<Longrightarrow> i = j"
proof -
  assume "unravel_index n i = unravel_index n j"
  then have "i div n = j div n" "i mod n = j mod n"
    by (simp_all add: unravel_index_def)
  then show "i = j" by (metis div_mult_mod_eq)
qed

lemma unravel_index_in_grid: "i < n * n \<Longrightarrow> in_grid n (unravel_index n i)"
proof -
  assume a: "i < n * n"
  then have "0 < n" by (cases n) auto
  moreover have "i div n < n" using a by (simp add: less_mult_imp_div_less)
  ultimately show ?thesis by (simp add: in_grid_def unravel_index_def)
qed

lemma place_apply:
  "place g n idxs v c = (if c \<in> unravel_index n ` set idxs then v else g c)"
proof -
  have "\<And>g. foldl (\<lambda>g' i. g'(unravel_index n i := v)) g idxs c
          = (if c \<in> unravel_index n ` set idxs then v else g c)"
    subgoal for g by (induction idxs arbitrary: g) auto
    done
  then show ?thesis by (simp add: place_def)
qed

lemma count_cells_card: "count_cells g n v = card {c. in_grid n c \<and> g c = v}"
proof -
  have "count_cells g n v = card ({c. g c = v} \<inter> set (coords n))"
    by (simp add: count_cells_def distinct_length_filter distinct_coords)
  also have "{c. g c = v} \<inter> set (coords n) = {c. in_grid n c \<and> g c = v}"
    by (auto simp: coords_set)
  finally show ?thesis .
qed

lemma card_unravel_image:
  "distinct idxs \<Longrightarrow> card (unravel_index n ` set idxs) = length idxs"
proof -
  assume d: "distinct idxs"
  have "inj_on (unravel_index n) (set idxs)"
    by (auto simp: inj_on_def dest: unravel_index_inj)
  then show ?thesis by (simp add: card_image distinct_card d)
qed


lemma shuffle_indices:
  "set (fst (shuffle [0..<t] r)) = {..<t}" "distinct (fst (shuffle [0..<t] r))"
  by (auto simp: shuffle_set shuffle_distinct)

text \<open>The three index slices of the placement.\<close>

lemma py_slice_empty: "py_slice xs a a = []"
  by (simp add: py_slice_def)

lemma place_nil: "place g n [] v = g"
  by (simp add: place_def)

lemma place_cells_grid:
  assumes "0 \<le> initial_predators" and "0 \<le> initial_prey"
    and "initial_predators + initial_prey \<le> sz * sz"
  shows "\<exists>ks. fst (place_cells sz initial_prey initial_predators prob info r) =
           place (place (place (\<lambda>_. EMPTY) (nat sz)
               (py_slice (fst (shuffle [0..<nat (sz * sz)] r)) 0 initial_predators) PREDATOR) (nat sz)
               (py_slice (fst (shuffle [0..<nat (sz * sz)] r)) initial_predators
                  (initial_predators + initial_prey)) PREY) (nat sz)
               (py_slice (fst (shuffle [0..<nat (sz * sz)] r)) (initial_predators + initial_prey)
                  (initial_predators + initial_prey + ks)) SUBSTRATE \<and> 0 \<le> ks"
proof -
  have z: "initial_predators = 0" if "\<not> 0 < initial_predators" using that assms(1) by simp
  have y: "initial_prey = 0" if "\<not> 0 < initial_prey" using that assms(2) by simp
  have m1: "min initial_predators (sz * sz) = initial_predators" using assms by simp
  have m2: "min initial_prey (sz * sz - initial_predators) = initial_prey" using assms by simp
  show ?thesis
  proof (cases "prob > 0 \<and> py_int (float_mul (float_of_int (sz * sz - (initial_predators + initial_prey)))
                                   (float_round prob)) > 0")
    case True
    show ?thesis
      apply (rule exI[of _ "py_int (float_mul (float_of_int (sz * sz - (initial_predators + initial_prey)))
                              (float_round prob))"])
      using True z y m1 m2
      by (auto simp: place_cells_def Let_def py_slice_empty place_nil split: prod.splits)
  next
    case False
    show ?thesis
      apply (rule exI[of _ 0])
      using False z y m1 m2
      by (auto simp: place_cells_def Let_def py_slice_empty place_nil split: prod.splits)
  qed
qed


lemma placed_counts:
  assumes d: "distinct perm" and sp: "set perm = {..<n * n}"
    and k: "0 \<le> kp" "0 \<le> ky" "kp + ky \<le> int (n * n)"
  shows "count_cells (place (place (place (\<lambda>_. EMPTY) n (py_slice perm 0 kp) PREDATOR) n
                        (py_slice perm kp (kp + ky)) PREY) n
                        (py_slice perm (kp + ky) (kp + ky + ks)) SUBSTRATE) n PREDATOR = nat kp
       \<and> count_cells (place (place (place (\<lambda>_. EMPTY) n (py_slice perm 0 kp) PREDATOR) n
                        (py_slice perm kp (kp + ky)) PREY) n
                        (py_slice perm (kp + ky) (kp + ky + ks)) SUBSTRATE) n PREY = nat ky"
proof -
  define S1 where "S1 = py_slice perm 0 kp"
  define S2 where "S2 = py_slice perm kp (kp + ky)"
  define S3 where "S3 = py_slice perm (kp + ky) (kp + ky + ks)"
  define g3 where "g3 = place (place (place (\<lambda>_. EMPTY) n S1 PREDATOR) n S2 PREY) n S3 SUBSTRATE"
  have len: "length perm = n * n"
    using distinct_card[OF d] sp by simp
  have S1: "S1 = take (nat kp) perm" by (simp add: S1_def py_slice_def)
  have S2: "S2 = drop (nat kp) (take (nat kp + nat ky) perm)"
    using k by (simp add: S2_def py_slice_def nat_add_distrib)
  have S3: "set S3 \<subseteq> set (drop (nat kp + nat ky) perm)"
    using k by (auto simp: S3_def py_slice_def nat_add_distrib drop_take dest: in_set_takeD)
  have kk: "nat kp + nat ky \<le> n * n"
  proof -
    have "int (nat kp + nat ky) \<le> int (n * n)" using k by simp
    then show ?thesis by (simp only: of_nat_le_iff)
  qed
  have l1: "length S1 = nat kp" using kk len by (simp add: S1)
  have l2: "length S2 = nat ky" using kk len by (simp add: S2)
  have d1: "distinct S1" using d by (simp add: S1)
  have d2: "distinct S2" using d by (simp add: S2)
  have sub: "set S1 \<subseteq> {..<n * n}" "set S2 \<subseteq> {..<n * n}"
    using sp by (auto simp: S1 S2 dest: in_set_takeD in_set_dropD)
  have S2': "set S2 \<subseteq> set (drop (nat kp) perm)" "set S2 \<subseteq> set (take (nat kp + nat ky) perm)"
  proof -
    show "set S2 \<subseteq> set (drop (nat kp) perm)"
      by (auto simp: S2 drop_take dest: in_set_takeD)
    show "set S2 \<subseteq> set (take (nat kp + nat ky) perm)"
      by (auto simp: S2 dest: in_set_dropD)
  qed
  have dj12: "set S1 \<inter> set S2 = {}"
    using set_take_disj_set_drop_if_distinct[OF d, of "nat kp" "nat kp"] S2'(1) by (auto simp: S1)
  have dj13: "set S1 \<inter> set S3 = {}"
    using set_take_disj_set_drop_if_distinct[OF d, of "nat kp" "nat kp + nat ky"] S3 by (auto simp: S1)
  have dj23: "set S2 \<inter> set S3 = {}"
    using set_take_disj_set_drop_if_distinct[OF d, of "nat kp + nat ky" "nat kp + nat ky"] S3 S2'(2)
    by auto
  have inj: "\<And>i j. unravel_index n i = unravel_index n j \<Longrightarrow> i = j"
    by (rule unravel_index_inj)
  have g3: "\<And>c. g3 c = (if c \<in> unravel_index n ` set S3 then SUBSTRATE
                        else if c \<in> unravel_index n ` set S2 then PREY
                        else if c \<in> unravel_index n ` set S1 then PREDATOR else EMPTY)"
    by (simp add: g3_def place_apply)
  have p: "{c. in_grid n c \<and> g3 c = PREDATOR} = unravel_index n ` set S1"
  proof (intro set_eqI iffI)
    fix c assume "c \<in> {c. in_grid n c \<and> g3 c = PREDATOR}"
    then show "c \<in> unravel_index n ` set S1" by (auto simp: g3 split: if_splits)
  next
    fix c assume "c \<in> unravel_index n ` set S1"
    then obtain i where i: "i \<in> set S1" "c = unravel_index n i" by blast
    have "c \<notin> unravel_index n ` set S3" using i dj13 inj by (auto simp: disjoint_iff)
    moreover have "c \<notin> unravel_index n ` set S2" using i dj12 inj by (auto simp: disjoint_iff)
    moreover have "in_grid n c" using i sub(1) by (auto intro: unravel_index_in_grid)
    ultimately show "c \<in> {c. in_grid n c \<and> g3 c = PREDATOR}" using i by (simp add: g3)
  qed
  have q: "{c. in_grid n c \<and> g3 c = PREY} = unravel_index n ` set S2"
  proof (intro set_eqI iffI)
    fix c assume "c \<in> {c. in_grid n c \<and> g3 c = PREY}"
    then show "c \<in> unravel_index n ` set S2" by (auto simp: g3 split: if_splits)
  next
    fix c assume "c \<in> unravel_index n ` set S2"
    then obtain i where i: "i \<in> set S2" "c = unravel_index n i" by blast
    have "c \<notin> unravel_index n ` set S3" using i dj23 inj by (auto simp: disjoint_iff)
    moreover have "in_grid n c" using i sub(2) by (auto intro: unravel_index_in_grid)
    ultimately show "c \<in> {c. in_grid n c \<and> g3 c = PREY}" using i by (simp add: g3)
  qed
  have "count_cells g3 n PREDATOR = nat kp" "count_cells g3 n PREY = nat ky"
    by (simp_all add: count_cells_card p q card_unravel_image d1 d2 l1 l2)
  then show ?thesis by (simp add: g3_def S1_def S2_def S3_def)
qed


lemma place_cells_counts:
  assumes "0 \<le> sz" and "0 \<le> initial_predators" and "0 \<le> initial_prey"
    and "initial_predators + initial_prey \<le> sz * sz"
  shows "int (count_cells (fst (place_cells sz initial_prey initial_predators prob info r)) (nat sz) PREDATOR)
           = initial_predators"
    and "int (count_cells (fst (place_cells sz initial_prey initial_predators prob info r)) (nat sz) PREY)
           = initial_prey"
proof -
  obtain ks where g: "fst (place_cells sz initial_prey initial_predators prob info r) =
           place (place (place (\<lambda>_. EMPTY) (nat sz)
               (py_slice (fst (shuffle [0..<nat (sz * sz)] r)) 0 initial_predators) PREDATOR) (nat sz)
               (py_slice (fst (shuffle [0..<nat (sz * sz)] r)) initial_predators
                  (initial_predators + initial_prey)) PREY) (nat sz)
               (py_slice (fst (shuffle [0..<nat (sz * sz)] r)) (initial_predators + initial_prey)
                  (initial_predators + initial_prey + ks)) SUBSTRATE"
    using place_cells_grid[OF assms(2,3,4)] by blast
  have t: "nat (sz * sz) = nat sz * nat sz" using assms(1) by (simp add: nat_mult_distrib)
  have le: "initial_predators + initial_prey \<le> int (nat sz * nat sz)"
    using assms(1,4) by simp
  have sp: "set (fst (shuffle [0..<nat (sz * sz)] r)) = {..<nat sz * nat sz}"
    by (auto simp: shuffle_set t)
  have d: "distinct (fst (shuffle [0..<nat (sz * sz)] r))"
    by (simp add: shuffle_distinct)
  from placed_counts[OF d sp assms(2,3) le, of ks] assms(2,3)
  show "int (count_cells (fst (place_cells sz initial_prey initial_predators prob info r)) (nat sz) PREDATOR)
           = initial_predators"
    and "int (count_cells (fst (place_cells sz initial_prey initial_predators prob info r)) (nat sz) PREY)
           = initial_prey"
    by (simp_all add: g)
qed

lemma place_cells_info_exact:
  assumes "0 \<le> initial_predators" and "0 \<le> initial_prey"
    and "initial_predators + initial_prey \<le> sz * sz"
  shows "values_adjusted (snd (place_cells sz initial_prey initial_predators prob info r)) = values_adjusted info"
    and "av_initial_prey (adjusted_values (snd (place_cells sz initial_prey initial_predators prob info r)))
           = av_initial_prey (adjusted_values info)"
    and "av_initial_predators (adjusted_values (snd (place_cells sz initial_prey initial_predators prob info r)))
           = av_initial_predators (adjusted_values info)"
  using assms by (auto simp: place_cells_def Let_def split: prod.splits)

lemma place_cells_info_kept:
  "original_values (snd (place_cells sz initial_prey initial_predators prob info r)) = original_values info"
  "av_initial_prey (adjusted_values (snd (place_cells sz initial_prey initial_predators prob info r)))
           = av_initial_prey (adjusted_values info)"
  "av_initial_predators (adjusted_values (snd (place_cells sz initial_prey initial_predators prob info r)))
           = av_initial_predators (adjusted_values info)"
  "values_adjusted info \<Longrightarrow> values_adjusted (snd (place_cells sz initial_prey initial_predators prob info r))"
  "reason info \<noteq> [] \<Longrightarrow> reason (snd (place_cells sz initial_prey initial_predators prob info r)) \<noteq> []"
  by (auto simp: place_cells_def Let_def split: prod.splits)

lemma reconcile_counts_kept:
  "original_values (reconcile_counts g n a b info) = original_values info"
  "av_initial_prey (adjusted_values (reconcile_counts g n a b info)) = av_initial_prey (adjusted_values info)"
  "av_initial_predators (adjusted_values (reconcile_counts g n a b info))
     = av_initial_predators (adjusted_values info)"
  "values_adjusted info \<Longrightarrow> values_adjusted (reconcile_counts g n a b info)"
  "reason (reconcile_counts g n a b info) = reason info"
  by (auto simp: reconcile_counts_def Let_def)

lemma place_entities_kept:
  "original_values (snd (place_entities sz a b prob info r)) = original_values info"
  "av_initial_prey (adjusted_values (snd (place_entities sz a b prob info r)))
     = av_initial_prey (adjusted_values info)"
  "av_initial_predators (adjusted_values (snd (place_entities sz a b prob info r)))
     = av_initial_predators (adjusted_values info)"
  "values_adjusted info \<Longrightarrow> values_adjusted (snd (place_entities sz a b prob info r))"
  "reason info \<noteq> [] \<Longrightarrow> reason (snd (place_entities sz a b prob info r)) \<noteq> []"
  by (simp_all add: place_entities_def case_prod_beta reconcile_counts_kept place_cells_info_kept)

lemma place_entities_exact:
  assumes "0 \<le> sz" and "0 \<le> initial_predators" and "0 \<le> initial_prey"
    and "initial_predators + initial_prey \<le> sz * sz"
  shows "int (count_cells (fst (place_entities sz initial_prey initial_predators prob info r)) (nat sz) PREDATOR)
           = initial_predators"
    and "int (count_cells (fst (place_entities sz initial_prey initial_predators prob info r)) (nat sz) PREY)
           = initial_prey"
    and "values_adjusted (snd (place_entities sz initial_prey initial_predators prob info r))
           = values_adjusted info"
  using place_cells_counts[OF assms] place_cells_info_exact(1)[OF assms(2,3,4)]
  by (simp_all add: place_entities_def case_prod_beta reconcile_counts_def)









lemma initialize_grid_valid:
  assumes "0 < sz" "0 \<le> a" "0 \<le> b" "0 \<le> prob" "prob \<le> 1"
  shows "initialize_grid sz a b prob r =
     Inr (place_entities sz
            (fst (density_policy sz a b prob
               \<lparr> values_adjusted = False,
                 original_values = \<lparr> ov_initial_prey = a, ov_initial_predators = b,
                                     ov_initial_substrate_prob = prob \<rparr>,
                 adjusted_values = \<lparr> av_initial_prey = None, av_initial_predators = None,
                                     av_initial_substrate_prob = None, av_actual_predator_count = None,
                                     av_actual_prey_count = None, av_actual_substrate_count = None \<rparr>,
                 reason = [] \<rparr>))
            (fst (snd (density_policy sz a b prob
               \<lparr> values_adjusted = False,
                 original_values = \<lparr> ov_initial_prey = a, ov_initial_predators = b,
                                     ov_initial_substrate_prob = prob \<rparr>,
                 adjusted_values = \<lparr> av_initial_prey = None, av_initial_predators = None,
                                     av_initial_substrate_prob = None, av_actual_predator_count = None,
                                     av_actual_prey_count = None, av_actual_substrate_count = None \<rparr>,
                 reason = [] \<rparr>)))
            (fst (snd (snd (density_policy sz a b prob
               \<lparr> values_adjusted = False,
                 original_values = \<lparr> ov_initial_prey = a, ov_initial_predators = b,
                                     ov_initial_substrate_prob = prob \<rparr>,
                 adjusted_values = \<lparr> av_initial_prey = None, av_initial_predators = None,
                                     av_initial_substrate_prob = None, av_actual_predator_count = None,
                                     av_actual_prey_count = None, av_actual_substrate_count = None \<rparr>,
                 reason = [] \<rparr>))))
            (snd (snd (snd (density_policy sz a b prob
               \<lparr> values_adjusted = False,
                 original_values = \<lparr> ov_initial_prey = a, ov_initial_predators = b,
                                     ov_initial_substrate_prob = prob \<rparr>,
                 adjusted_values = \<lparr> av_initial_prey = None, av_initial_predators = None,
                                     av_initial_substrate_prob = None, av_actual_predator_count = None,
                                     av_actual_prey_count = None, av_actual_substrate_count = None \<rparr>,
                 reason = [] \<rparr>))))
            r)"
  using assms by (simp add: initialize_grid_def Let_def case_prod_beta)




lemma density_product_900: "float_mul (float_of_int 810000) (float_round (2 / 5)) = 324000"
  by (simp add: float_defs float_round_eval[where k = 54] float_round_eval[where k = 33]
      float_round_eval[where k = 34])



lemma density_policy_900:
  "density_policy 900 5000 1000 prob info =
     (5000, 1000, min prob (1 / 5),
      if prob > 1 / 5
      then info\<lparr> values_adjusted := True,
                 adjusted_values := (adjusted_values info)\<lparr> av_initial_substrate_prob := Some (1 / 5) \<rparr>,
                 reason := reason info @ '' Substrate probability reduced to avoid memory issues.'' \<rparr>
      else info)"
  by (simp add: density_policy_def Let_def min_def density_product_900)

lemma initialize_grid_900:
  assumes "0 \<le> prob" "prob \<le> 1"
  shows "\<not> isl (initialize_grid 900 5000 1000 prob r)"
    and "count_cells (fst (projr (initialize_grid 900 5000 1000 prob r))) 900 PREDATOR = 1000"
    and "count_cells (fst (projr (initialize_grid 900 5000 1000 prob r))) 900 PREY = 5000"
    and "values_adjusted (snd (projr (initialize_grid 900 5000 1000 prob r))) = (prob > 1 / 5)"
    and "av_initial_prey (adjusted_values (snd (projr (initialize_grid 900 5000 1000 prob r)))) = None"
    and "av_initial_predators (adjusted_values (snd (projr (initialize_grid 900 5000 1000 prob r)))) = None"
proof -
  have e: "(0::int) \<le> 900" "(0::int) \<le> 1000" "(0::int) \<le> 5000" "(1000::int) + 5000 \<le> 900 * 900"
    by simp_all
  note ex = place_entities_exact[OF e]
  have v: "(0::int) < 900" "(0::int) \<le> 5000" "(0::int) \<le> 1000" by simp_all
  note ig = initialize_grid_valid[OF v assms]
  show "\<not> isl (initialize_grid 900 5000 1000 prob r)" by (simp add: ig)
  show "count_cells (fst (projr (initialize_grid 900 5000 1000 prob r))) 900 PREDATOR = 1000"
    using ex(1)[of "min prob (1 / 5)" _ r] by (simp add: ig density_policy_900)
  show "count_cells (fst (projr (initialize_grid 900 5000 1000 prob r))) 900 PREY = 5000"
    using ex(2)[of "min prob (1 / 5)" _ r] by (simp add: ig density_policy_900)
  show "values_adjusted (snd (projr (initialize_grid 900 5000 1000 prob r))) = (prob > 1 / 5)"
    by (simp add: ig density_policy_900 ex(3))
  show "av_initial_prey (adjusted_values (snd (projr (initialize_grid 900 5000 1000 prob r)))) = None"
    by (simp add: ig density_policy_900 place_entities_kept)
  show "av_initial_predators (adjusted_values (snd (projr (initialize_grid 900 5000 1000 prob r)))) = None"
    by (simp add: ig density_policy_900 place_entities_kept)
qed










text \<open>
  Claim C4, as the code has it. For side 900 the limit is 40%, and the requested 1000
  predators and 5000 prey do not exceed it, so the total is not clamped: whatever the shuffle
  and the valid substrate probability, exactly 1000 predators and 5000 prey are placed (which
  is below 30% of the cells), the report holds no adjusted prey or predator number, and
  \<open>values_adjusted\<close> is set exactly when the requested substrate probability exceeds 0.2.
\<close>

theorem side_900_is_not_clamped:
  assumes "0 \<le> prob" and "prob \<le> 1"
  shows "\<not> isl (initialize_grid 900 5000 1000 prob r)
    \<and> count_cells (fst (projr (initialize_grid 900 5000 1000 prob r))) 900 PREDATOR = 1000
    \<and> count_cells (fst (projr (initialize_grid 900 5000 1000 prob r))) 900 PREY = 5000
    \<and> real (count_cells (fst (projr (initialize_grid 900 5000 1000 prob r))) 900 PREDATOR
             + count_cells (fst (projr (initialize_grid 900 5000 1000 prob r))) 900 PREY)
          \<le> 0.3 * (900 * 900)
    \<and> values_adjusted (snd (projr (initialize_grid 900 5000 1000 prob r))) = (prob > 0.2)
    \<and> av_initial_prey (adjusted_values (snd (projr (initialize_grid 900 5000 1000 prob r)))) = None
    \<and> av_initial_predators (adjusted_values (snd (projr (initialize_grid 900 5000 1000 prob r)))) = None"
  using initialize_grid_900[OF assms, of r] by simp

theorem side_900_is_not_clamped_witness:
  "(0::real) \<le> 1 / 2 \<and> (1::real) / 2 \<le> 1
   \<and> count_cells (fst (projr (initialize_grid 900 5000 1000 (1 / 2) zero_rng))) 900 PREDATOR = 1000
   \<and> count_cells (fst (projr (initialize_grid 900 5000 1000 (1 / 2) zero_rng))) 900 PREY = 5000
   \<and> values_adjusted (snd (projr (initialize_grid 900 5000 1000 (1 / 2) zero_rng)))"
  using side_900_is_not_clamped[of "1 / 2" zero_rng] by simp

text \<open>
  Claim C4 as stated fails: with a substrate probability of 0.1 nothing is adjusted and
  \<open>values_adjusted\<close> stays false.
\<close>

theorem side_900_values_not_adjusted:
  "\<not> isl (initialize_grid 900 5000 1000 (1 / 10) zero_rng)
   \<and> \<not> values_adjusted (snd (projr (initialize_grid 900 5000 1000 (1 / 10) zero_rng)))
   \<and> count_cells (fst (projr (initialize_grid 900 5000 1000 (1 / 10) zero_rng))) 900 PREDATOR = 1000
   \<and> count_cells (fst (projr (initialize_grid 900 5000 1000 (1 / 10) zero_rng))) 900 PREY = 5000"
  using initialize_grid_900[of "1 / 10" zero_rng] by simp

section \<open>Successive generations\<close>

lemma one_generation:
  "grid (fst (run_steps (Suc 0) now s r))
     = new_grid (sweep_cells s (fst (shuffle (coords (grid_size s)) r))
                  (fresh_buffers s (snd (shuffle (coords (grid_size s)) r))))"
  "predator_hunger (fst (run_steps (Suc 0) now s r))
     = new_predator_hunger (sweep_cells s (fst (shuffle (coords (grid_size s)) r))
                  (fresh_buffers s (snd (shuffle (coords (grid_size s)) r))))"
  "prey_hunger (fst (run_steps (Suc 0) now s r))
     = new_prey_hunger (sweep_cells s (fst (shuffle (coords (grid_size s)) r))
                  (fresh_buffers s (snd (shuffle (coords (grid_size s)) r))))"
  "grid_size (fst (run_steps (Suc 0) now s r)) = grid_size s"
  "params (fst (run_steps (Suc 0) now s r)) = params s"
  by (simp_all add: step_def step_body_def Let_def case_prod_beta)

lemma run_steps_Suc:
  "run_steps (Suc k) now s r
     = run_steps k now (fst (run_steps (Suc 0) now s r)) (snd (run_steps (Suc 0) now s r))"
  by (simp add: step_def split: sum.splits prod.splits)

lemma run_steps_snoc:
  "run_steps (Suc k) now s r
     = run_steps (Suc 0) now (fst (run_steps k now s r)) (snd (run_steps k now s r))"
proof (induction k arbitrary: s r)
  case 0
  show ?case by simp
next
  case (Suc k)
  have "run_steps (Suc (Suc k)) now s r
          = run_steps (Suc k) now (fst (run_steps (Suc 0) now s r)) (snd (run_steps (Suc 0) now s r))"
    by (rule run_steps_Suc)
  also have "\<dots> = run_steps (Suc 0) now
        (fst (run_steps k now (fst (run_steps (Suc 0) now s r)) (snd (run_steps (Suc 0) now s r))))
        (snd (run_steps k now (fst (run_steps (Suc 0) now s r)) (snd (run_steps (Suc 0) now s r))))"
    by (rule Suc.IH)
  also have "run_steps k now (fst (run_steps (Suc 0) now s r)) (snd (run_steps (Suc 0) now s r))
          = run_steps (Suc k) now s r"
    by (rule run_steps_Suc[symmetric])
  finally show ?case .
qed

lemma run_steps_params: "params (fst (run_steps k now s r)) = params s"
proof (induction k)
  case 0
  show ?case by simp
next
  case (Suc k)
  show ?case
    unfolding run_steps_snoc[of k] using Suc by (simp only: one_generation(5))
qed

lemma step_true_result:
  "\<exists>g. step True now s r = Inr (g, fst (run_steps (Suc 0) now s r), snd (run_steps (Suc 0) now s r))"
  by (simp add: step_def split: sum.splits prod.splits)

lemma run_steps_reachable: "reachable s \<Longrightarrow> reachable (fst (run_steps k now s r))"
proof (induction k)
  case 0
  then show ?case by simp
next
  case (Suc k)
  obtain g where "step True now (fst (run_steps k now s r)) (snd (run_steps k now s r))
      = Inr (g, fst (run_steps (Suc k) now s r), snd (run_steps (Suc k) now s r))"
    using step_true_result[of now "fst (run_steps k now s r)" "snd (run_steps k now s r)"]
    unfolding run_steps_snoc[of k, symmetric] by blast
  then show ?case using Suc by (blast intro: reachable_step)
qed


section \<open>Evaluating a generation on concrete draws\<close>

lemma rtail_rng_of: "rtail (rng_of ks) = rng_of (tl ks)"
  by (auto simp: rtail_def rng_of_def fun_eq_iff nth_tl)

lemma rng_of_0: "rng_of (k # ks) 0 = k" "rng_of [] 0 = 0"
  by (simp_all add: rng_of_def)

lemma random_rng_of: "random (rng_of (k # ks)) = (real (k mod 2 ^ 53) / 2 ^ 53, rng_of ks)"
  by (simp add: random_def rtail_rng_of rng_of_0)

lemma choice_rng_of: "choice xs (rng_of (k # ks)) = (xs ! (k mod length xs), rng_of ks)"
  by (simp add: choice_def rtail_rng_of rng_of_0)

lemma shuffle_loop_numeral:
  "shuffle_loop (numeral k) xs r =
     (let i = numeral k; j = r 0 mod (Suc i)
      in shuffle_loop (pred_numeral k) (xs[i := xs ! j, j := xs ! i]) (rtail r))"
  by (simp add: numeral_eq_Suc Let_def)

lemma shuffle_loop_1:
  "shuffle_loop 1 xs r =
     (let j = r 0 mod 2
      in shuffle_loop 0 (xs[1 := xs ! j, j := xs ! 1]) (rtail r))"
  using shuffle_loop.simps(2)[of 0 xs r] by (simp add: Let_def numeral_2_eq_2)

lemma coords_3:
  "coords 3 = [(0, 0), (0, 1), (0, 2), (1, 0), (1, 1), (1, 2), (2, 0), (2, 1), (2, 2)]"
  by (simp add: coords_def upt_rec)

lemma default_settings_fields:
  "predator_death_chance default_settings = None"
  "predator_starvation_steps default_settings = Some 10"
  "hunt_success_prob default_settings = None"
  "predator_reproduction_chance default_settings = None"
  "predator_movement_prob default_settings = None"
  "prey_death_chance default_settings = None"
  "prey_starvation_steps default_settings = Some 3"
  "prey_reproduction_chance default_settings = None"
  "substrate_random_death default_settings = Some (3 / 100)"
  "predator_birth_probability default_settings = Some (33 / 100)"
  "initial_substrate_probability default_settings = Some (1 / 4)"
  "neighborhood_type default_settings = Some ''von_neumann''"
  "grid_type default_settings = Some ''torus''"
  by (simp_all add: default_settings_def)

lemma default_nearby_cells:
  "get_nearby_cells default_settings n x y d = map (wrap n x y) (nearby_offsets ''von_neumann'' d)"
  using get_nearby_cells_wraps[of default_settings n x y d]
  by (simp add: default_settings_fields pget_def)

lemma von_neumann_offsets:
  "nearby_offsets ''von_neumann'' 1 = [(- 1, 0), (0, - 1), (0, 1), (1, 0)]"
  "nearby_offsets ''von_neumann'' 2 =
     [(- 2, 0), (- 1, - 1), (- 1, 0), (- 1, 1), (0, - 2), (0, - 1), (0, 1), (0, 2),
      (1, - 1), (1, 0), (1, 1), (2, 0)]"
  by (simp_all add: nearby_offsets_def upto.simps)

lemmas rule_defs =
  process_cell_def update_predator_def update_prey_def update_substrate_def update_empty_def
  empty_regrowth_def predator_hunt_def predator_move_def prey_forage_def
  get_neighbors_coords_def count_neighbors_def directions_def Let_def pget_def wrap_def
  default_settings_fields default_nearby_cells von_neumann_offsets random_rng_of choice_rng_of

lemma hunt_sim_fields:
  "grid_size hunt_sim = 3" "params hunt_sim = default_settings"
  "grid hunt_sim (0, 0) = 2" "grid hunt_sim (0, 1) = 1" "grid hunt_sim (0, 2) = 0"
  "grid hunt_sim (1, 0) = 0" "grid hunt_sim (1, 1) = 0" "grid hunt_sim (1, 2) = 0"
  "grid hunt_sim (2, 0) = 0" "grid hunt_sim (2, 1) = 0" "grid hunt_sim (2, 2) = 0"
  "prey_hunger hunt_sim c = (if grid hunt_sim c = PREY then 0 else - 1)"
  "predator_hunger hunt_sim c = (if grid hunt_sim c = PREDATOR then 0 else - 1)"
  "recording_enabled hunt_sim = False"
  by (simp_all add: hunt_sim_def Simulation_init_def grid_of_def)

lemma hunt_shuffle:
  "shuffle (coords 3) hunt_rng =
     ([(0, 1), (0, 2), (1, 0), (1, 1), (1, 2), (2, 0), (2, 1), (2, 2), (0, 0)],
      rng_of [4503599627370496, 4503599627370496,
              4503599627370496, 4503599627370496, 4503599627370496, 4503599627370496,
              4503599627370496, 4503599627370496, 4503599627370496,
              4503599627370496, 4503599627370496, 0, 4503599627370496])"
  by (simp add: coords_3 shuffle_def hunt_rng_def shuffle_loop_numeral shuffle_loop_1
      rtail_rng_of rng_of_0 Let_def)

lemma hunt_sweep:
  "sweep_cells hunt_sim [(0, 1), (0, 2), (1, 0), (1, 1), (1, 2), (2, 0), (2, 1), (2, 2), (0, 0)]
     (fresh_buffers hunt_sim
        (rng_of [4503599627370496, 4503599627370496,
                 4503599627370496, 4503599627370496, 4503599627370496, 4503599627370496,
                 4503599627370496, 4503599627370496, 4503599627370496,
                 4503599627370496, 4503599627370496, 0, 4503599627370496]))
   = \<lparr> new_grid = (grid hunt_sim)((0, 1) := 2, (0, 0) := 0),
       new_predator_hunger = (\<lambda>_. - 1)((0, 1) := 0, (0, 0) := - 1),
       new_prey_hunger = (\<lambda>_. - 1)((0, 1) := 1),
       rand = rng_of [],
       sw_events = statistics hunt_sim \<rparr>"
  by (simp add: sweep_cells_def fresh_buffers_def rule_defs hunt_sim_fields)

lemma hunt_generation:
  "grid (fst (run_steps (Suc 0) [] hunt_sim hunt_rng)) = (grid hunt_sim)((0, 1) := 2, (0, 0) := 0)"
  "prey_hunger (fst (run_steps (Suc 0) [] hunt_sim hunt_rng)) = (\<lambda>_. - 1)((0, 1) := 1)"
  "grid_size (fst (run_steps (Suc 0) [] hunt_sim hunt_rng)) = 3"
  unfolding one_generation by (simp_all add: hunt_sim_fields(1) hunt_shuffle hunt_sweep)

lemma init_hunger_exact:
  "(predator_hunger (Simulation_init g n p rec_enabled adj now) c = - 1) = (g c \<noteq> PREDATOR)"
  "(prey_hunger (Simulation_init g n p rec_enabled adj now) c = - 1) = (g c \<noteq> PREY)"
  "0 \<le> predator_hunger (Simulation_init g n p rec_enabled adj now) c
     \<or> g c \<noteq> PREDATOR"
  by (simp_all add: Simulation_init_def)

text \<open>
  Claim C2 at a reachable state. From the freshly initialised \<open>hunt_sim\<close>, one generation
  in which the threatened prey at \<open>(0, 1)\<close> is processed first and freezes (its new hunger 1
  is written), and the predator at \<open>(0, 0)\<close> then hunts it, ends with a predator in cell
  \<open>(0, 1)\<close> whose prey hunger is 1, not -1.
\<close>

theorem stale_prey_hunger_after_hunt:
  "reachable (fst (run_steps (Suc 0) [] hunt_sim hunt_rng))
   \<and> in_grid (grid_size (fst (run_steps (Suc 0) [] hunt_sim hunt_rng))) (0, 1)
   \<and> grid (fst (run_steps (Suc 0) [] hunt_sim hunt_rng)) (0, 1) = PREDATOR
   \<and> prey_hunger (fst (run_steps (Suc 0) [] hunt_sim hunt_rng)) (0, 1) = 1"
proof -
  have "reachable hunt_sim" unfolding hunt_sim_def by (rule reachable_init)
  then have "reachable (fst (run_steps (Suc 0) [] hunt_sim hunt_rng))"
    by (rule run_steps_reachable)
  then show ?thesis
    by (simp add: hunt_generation in_grid_def del: run_steps.simps)
qed

lemma collide_sim_fields:
  "grid_size collide_sim = 3" "params collide_sim = default_settings"
  "grid collide_sim (0, 0) = 0" "grid collide_sim (0, 1) = 1" "grid collide_sim (0, 2) = 0"
  "grid collide_sim (1, 0) = 0" "grid collide_sim (1, 1) = 0" "grid collide_sim (1, 2) = 2"
  "grid collide_sim (2, 0) = 0" "grid collide_sim (2, 1) = 0" "grid collide_sim (2, 2) = 0"
  "prey_hunger collide_sim c = (if grid collide_sim c = PREY then 0 else - 1)"
  "predator_hunger collide_sim c = (if grid collide_sim c = PREDATOR then 0 else - 1)"
  "recording_enabled collide_sim = False"
  by (simp_all add: collide_sim_def Simulation_init_def grid_of_def)

lemma collide_shuffle:
  "shuffle (coords 3) collide_rng =
     ([(0, 1), (0, 2), (1, 0), (1, 1), (1, 2), (2, 0), (2, 1), (2, 2), (0, 0)],
      rng_of [4503599627370496, 3,
              4503599627370496, 4503599627370496,
              4503599627370496, 9007199254740991, 0, Suc 0,
              4503599627370496, 4503599627370496, 4503599627370496, 4503599627370496])"
  by (simp add: coords_3 shuffle_def collide_rng_def shuffle_loop_numeral shuffle_loop_1
      rtail_rng_of rng_of_0 Let_def)

lemma collide_sweep:
  "new_grid (sweep_cells collide_sim [(0, 1)]
     (fresh_buffers collide_sim
        (rng_of [4503599627370496, 3,
              4503599627370496, 4503599627370496,
              4503599627370496, 9007199254740991, 0, Suc 0,
              4503599627370496, 4503599627370496, 4503599627370496, 4503599627370496])))
   = (grid collide_sim)((1, 1) := 1, (0, 1) := 0)"
  "new_grid (sweep_cells collide_sim [(0, 1), (0, 2), (1, 0), (1, 1)]
     (fresh_buffers collide_sim
        (rng_of [4503599627370496, 3,
              4503599627370496, 4503599627370496,
              4503599627370496, 9007199254740991, 0, Suc 0,
              4503599627370496, 4503599627370496, 4503599627370496, 4503599627370496])))
   = (grid collide_sim)((1, 1) := 1, (0, 1) := 0)"
  "new_grid (sweep_cells collide_sim [(0, 1), (0, 2), (1, 0), (1, 1), (1, 2)]
     (fresh_buffers collide_sim
        (rng_of [4503599627370496, 3,
              4503599627370496, 4503599627370496,
              4503599627370496, 9007199254740991, 0, Suc 0,
              4503599627370496, 4503599627370496, 4503599627370496, 4503599627370496])))
   = (grid collide_sim)((0, 1) := 0, (1, 1) := 2, (1, 2) := 0)"
  "sweep_cells collide_sim [(0, 1), (0, 2), (1, 0), (1, 1), (1, 2), (2, 0), (2, 1), (2, 2), (0, 0)]
     (fresh_buffers collide_sim
        (rng_of [4503599627370496, 3,
              4503599627370496, 4503599627370496,
              4503599627370496, 9007199254740991, 0, Suc 0,
              4503599627370496, 4503599627370496, 4503599627370496, 4503599627370496]))
   = \<lparr> new_grid = (grid collide_sim)((0, 1) := 0, (1, 1) := 2, (1, 2) := 0),
       new_predator_hunger = (\<lambda>_. - 1)((1, 1) := 1, (1, 2) := - 1),
       new_prey_hunger = (\<lambda>_. - 1)((1, 1) := 1, (0, 1) := - 1),
       rand = rng_of [],
       sw_events = statistics collide_sim \<rparr>"
  by (simp_all add: sweep_cells_def fresh_buffers_def rule_defs collide_sim_fields)

text \<open>
  Claim C1 on a concrete sweep. In \<open>collide_sim\<close> the shuffle visits \<open>(0, 1)\<close> first: the
  prey there moves to the empty cell \<open>(1, 1)\<close> and the buffer holds a prey in that cell,
  also after the next three cells; then the rule of the predator at \<open>(1, 2)\<close>, which picks its
  destination on the committed grid, moves onto \<open>(1, 1)\<close> and overwrites the prey. The
  generation ends with the cell a predator and no prey left on the grid.
\<close>

theorem destination_written_twice_in_one_sweep:
  "fst (shuffle (coords (grid_size collide_sim)) collide_rng)
     = [(0, 1), (0, 2), (1, 0), (1, 1), (1, 2), (2, 0), (2, 1), (2, 2), (0, 0)]
   \<and> grid collide_sim (1, 1) = EMPTY
   \<and> new_grid (sweep_cells collide_sim [(0, 1)]
         (fresh_buffers collide_sim (snd (shuffle (coords (grid_size collide_sim)) collide_rng)))) (1, 1) = PREY
   \<and> new_grid (sweep_cells collide_sim [(0, 1), (0, 2), (1, 0), (1, 1)]
         (fresh_buffers collide_sim (snd (shuffle (coords (grid_size collide_sim)) collide_rng)))) (1, 1) = PREY
   \<and> new_grid (sweep_cells collide_sim [(0, 1), (0, 2), (1, 0), (1, 1), (1, 2)]
         (fresh_buffers collide_sim (snd (shuffle (coords (grid_size collide_sim)) collide_rng)))) (1, 1) = PREDATOR
   \<and> grid (fst (run_steps (Suc 0) [] collide_sim collide_rng)) (1, 1) = PREDATOR
   \<and> count_cells (grid collide_sim) 3 PREY = 1
   \<and> count_cells (grid (fst (run_steps (Suc 0) [] collide_sim collide_rng))) 3 PREY = 0"
proof -
  have g: "grid (fst (run_steps (Suc 0) [] collide_sim collide_rng))
             = (grid collide_sim)((0, 1) := 0, (1, 1) := 2, (1, 2) := 0)"
    unfolding one_generation by (simp add: collide_sim_fields(1) collide_shuffle collide_sweep(4))
  have sh: "shuffle (coords (grid_size collide_sim)) collide_rng =
     ([(0, 1), (0, 2), (1, 0), (1, 1), (1, 2), (2, 0), (2, 1), (2, 2), (0, 0)],
      rng_of [4503599627370496, 3,
              4503599627370496, 4503599627370496,
              4503599627370496, 9007199254740991, 0, Suc 0,
              4503599627370496, 4503599627370496, 4503599627370496, 4503599627370496])"
    by (simp add: collide_sim_fields(1) collide_shuffle)
  show ?thesis
    unfolding g sh
    by (simp add: collide_sim_fields collide_sweep(1,2,3) count_cells_def coords_3)
qed

section \<open>A single predator without prey\<close>

lemma random_nonneg: "0 \<le> fst (random r)"
  by (simp add: random_def)

lemma choice_in_set: "xs \<noteq> [] \<Longrightarrow> fst (choice xs r) \<in> set xs"
  by (simp add: choice_def)

lemma count_neighbors_none:
  assumes "0 < n" and "\<forall>c. in_grid n c \<longrightarrow> g c \<noteq> v"
  shows "count_neighbors g n x y v nt gt = 0"
proof -
  have "g c \<noteq> v" if "c \<in> set (get_neighbors_coords n x y nt gt)" for c
    using get_neighbors_coords_in_range[OF assms(1) that] assms(2) by blast
  then show ?thesis by (simp add: count_neighbors_def filter_empty_conv)
qed

lemma nearby_none:
  assumes "0 < n" and "\<forall>c. in_grid n c \<longrightarrow> g c \<noteq> v"
  shows "filter (\<lambda>c. g c = v) (get_nearby_cells p n x y d) = []"
proof -
  have "g c \<noteq> v" if "c \<in> set (get_nearby_cells p n x y d)" for c
    using get_nearby_cells_in_range[OF assms(1) that] assms(2) by blast
  then show ?thesis by (simp add: filter_empty_conv)
qed

text \<open>A cell that holds neither predator nor prey, on a grid without prey, writes at most
  its own buffer cell, and only \<open>EMPTY\<close> or \<open>SUBSTRATE\<close>.\<close>

lemma process_cell_quiet:
  assumes c: "in_grid (grid_size s) c" and k: "grid s c \<noteq> PREDATOR" "grid s c \<noteq> PREY"
    and np: "\<forall>c'. in_grid (grid_size s) c' \<longrightarrow> grid s c' \<noteq> PREY"
  shows "new_predator_hunger (process_cell s sw c) = new_predator_hunger sw"
    and "c' \<noteq> c \<Longrightarrow> new_grid (process_cell s sw c) c' = new_grid sw c'"
    and "new_grid (process_cell s sw c) c = new_grid sw c
         \<or> new_grid (process_cell s sw c) c = EMPTY
         \<or> new_grid (process_cell s sw c) c = SUBSTRATE"
proof -
  have pos: "0 < grid_size s" using c by (auto simp: in_grid_def)
  have z: "\<And>nt gt. count_neighbors (grid s) (grid_size s) (fst c) (snd c) PREY nt gt = 0"
    by (rule count_neighbors_none[OF pos np])
  show "new_predator_hunger (process_cell s sw c) = new_predator_hunger sw"
    using k
    by (auto simp: process_cell_def update_substrate_def update_empty_def empty_regrowth_def z Let_def
        split: prod.splits option.splits if_splits)
  show "c' \<noteq> c \<Longrightarrow> new_grid (process_cell s sw c) c' = new_grid sw c'"
    using k
    by (auto simp: process_cell_def update_substrate_def update_empty_def empty_regrowth_def z Let_def
        split: prod.splits option.splits if_splits)
  show "new_grid (process_cell s sw c) c = new_grid sw c
         \<or> new_grid (process_cell s sw c) c = EMPTY
         \<or> new_grid (process_cell s sw c) c = SUBSTRATE"
    using k
    by (auto simp: process_cell_def update_substrate_def update_empty_def empty_regrowth_def z Let_def
        split: prod.splits option.splits if_splits)
qed


text \<open>
  A generator none of whose draws is below \<open>d\<close> stays so through every rule, through the
  sweep and from one generation to the next.
\<close>

lemma draws_random:
  assumes "draws_at_least d r"
  shows "draws_at_least d (snd (random r))" and "\<not> fst (random r) < d"
proof -
  show "draws_at_least d (snd (random r))"
    using assms by (simp add: draws_at_least_def random_def rtail_def)
  have "d \<le> fst (random r)"
    using assms by (simp add: draws_at_least_def random_def)
  then show "\<not> fst (random r) < d" by simp
qed

lemma draws_choice: "draws_at_least d r \<Longrightarrow> draws_at_least d (snd (choice xs r))"
  by (simp add: draws_at_least_def choice_def rtail_def)

lemma draws_shuffle_loop:
  "draws_at_least d r \<Longrightarrow> draws_at_least d (snd (shuffle_loop i xs r))"
proof (induction i arbitrary: xs r)
  case 0
  then show ?case by simp
next
  case (Suc i)
  have "draws_at_least d (rtail r)"
    using Suc.prems by (simp add: draws_at_least_def rtail_def)
  then show ?case using Suc.IH by (simp add: Let_def)
qed

lemma draws_shuffle: "draws_at_least d r \<Longrightarrow> draws_at_least d (snd (shuffle xs r))"
  by (simp add: shuffle_def draws_shuffle_loop)

lemma draws_update_predator:
  "draws_at_least d (rand sw) \<Longrightarrow> draws_at_least d (rand (fst (update_predator s c sw)))"
  by (auto simp: update_predator_def predator_hunt_def predator_move_def Let_def case_prod_beta
      intro!: draws_random(1) draws_choice)

lemma draws_update_prey:
  "draws_at_least d (rand sw) \<Longrightarrow> draws_at_least d (rand (fst (update_prey s c sw)))"
  by (auto simp: update_prey_def prey_forage_def Let_def case_prod_beta
      intro!: draws_random(1) draws_choice)

lemma draws_update_substrate:
  "draws_at_least d (rand sw) \<Longrightarrow> draws_at_least d (rand (fst (update_substrate s c sw)))"
  by (auto simp: update_substrate_def Let_def case_prod_beta split: option.splits
      intro!: draws_random(1))

lemma draws_update_empty:
  "draws_at_least d (rand sw) \<Longrightarrow> draws_at_least d (rand (fst (update_empty s c sw)))"
  by (auto simp: update_empty_def empty_regrowth_def Let_def case_prod_beta split: option.splits
      intro!: draws_random(1))

lemma draws_process_cell:
  assumes "draws_at_least d (rand sw)"
  shows "draws_at_least d (rand (process_cell s sw c))"
proof -
  have "rand (process_cell s sw c) = rand sw
      \<or> rand (process_cell s sw c) = rand (fst (update_predator s c sw))
      \<or> rand (process_cell s sw c) = rand (fst (update_prey s c sw))
      \<or> rand (process_cell s sw c) = rand (fst (update_substrate s c sw))
      \<or> rand (process_cell s sw c) = rand (fst (update_empty s c sw))"
    by (simp add: process_cell_def case_prod_beta split: option.splits)
  then show ?thesis
    using assms draws_update_predator[of d sw s c] draws_update_prey[of d sw s c]
      draws_update_substrate[of d sw s c] draws_update_empty[of d sw s c]
    by auto
qed

lemma draws_sweep_cells:
  "draws_at_least d (rand sw) \<Longrightarrow> draws_at_least d (rand (sweep_cells s cs sw))"
proof (induction cs arbitrary: sw)
  case Nil
  then show ?case by (simp add: sweep_cells_def)
next
  case (Cons c cs)
  from Cons.IH[OF draws_process_cell[OF Cons.prems, of s c]]
  show ?case by (simp add: sweep_cells_def)
qed

lemma draws_generation:
  assumes "draws_at_least d r"
  shows "draws_at_least d (snd (run_steps (Suc 0) now s r))"
proof -
  have "snd (run_steps (Suc 0) now s r)
          = rand (sweep_cells s (fst (shuffle (coords (grid_size s)) r))
                    (fresh_buffers s (snd (shuffle (coords (grid_size s)) r))))"
    by (simp add: step_def step_body_def Let_def case_prod_beta)
  moreover have "draws_at_least d (rand (fresh_buffers s (snd (shuffle (coords (grid_size s)) r))))"
    using draws_shuffle[OF assms] by (simp add: fresh_buffers_def)
  ultimately show ?thesis by (simp add: draws_sweep_cells)
qed

lemma draws_run:
  "draws_at_least d r \<Longrightarrow> draws_at_least d (snd (run_steps k now s r))"
proof (induction k)
  case 0
  then show ?case by simp
next
  case (Suc k)
  from draws_generation[OF Suc.IH[OF Suc.prems], of now "fst (run_steps k now s r)"]
  show ?case by (simp add: run_steps_snoc[of k] del: run_steps.simps)
qed

lemma update_predator_starves:
  assumes "\<not> fst (random (rand sw)) < pget (predator_death_chance (params s)) 0.005"
    and "pget (predator_starvation_steps (params s)) 10 \<le> predator_hunger s c"
  shows "update_predator s c sw
           = (sw\<lparr>new_grid := (new_grid sw)(c := EMPTY), rand := snd (random (rand sw))\<rparr>, None)"
  using assms
  by (auto simp: update_predator_def Let_def split: prod.splits)

lemma update_predator_no_prey:
  assumes "\<not> fst (random (rand sw)) < pget (predator_death_chance (params s)) 0.005"
    and "predator_hunger s c < pget (predator_starvation_steps (params s)) 10"
    and "0 \<le> predator_hunger s c"
    and "filter (\<lambda>c'. grid s c' = PREY)
           (get_nearby_cells (params s) (grid_size s) (fst c) (snd c) 2) = []"
  shows "update_predator s c sw
           = (predator_move s c (predator_hunger s c) (sw\<lparr>rand := snd (random (rand sw))\<rparr>), None)"
  using assms
  by (auto simp: update_predator_def Let_def split: prod.splits)

lemma predator_move_cases:
  assumes "0 < grid_size s"
  shows "(new_grid (predator_move s c h sw) = new_grid sw
          \<and> new_predator_hunger (predator_move s c h sw) = (new_predator_hunger sw)(c := h + 1))
       \<or> (\<exists>nc. in_grid (grid_size s) nc \<and> grid s nc = EMPTY
             \<and> 0 < pget (predator_movement_prob (params s)) 0.5
             \<and> new_grid (predator_move s c h sw) = ((new_grid sw)(nc := PREDATOR))(c := EMPTY)
             \<and> new_predator_hunger (predator_move s c h sw)
                 = ((new_predator_hunger sw)(nc := h + 1))(c := - 1))"
proof -
  let ?E = "filter (\<lambda>c'. grid s c' = EMPTY) (get_nearby_cells (params s) (grid_size s) (fst c) (snd c) 1)"
  have m: "\<And>r. ?E \<noteq> [] \<Longrightarrow> in_grid (grid_size s) (fst (choice ?E r)) \<and> grid s (fst (choice ?E r)) = EMPTY"
  proof -
    fix r :: rng assume ne: "?E \<noteq> []"
    then have "fst (choice ?E r) \<in> set ?E" by (rule choice_in_set)
    then have a: "fst (choice ?E r) \<in> set (get_nearby_cells (params s) (grid_size s) (fst c) (snd c) 1)"
      and b: "grid s (fst (choice ?E r)) = EMPTY" by simp_all
    from get_nearby_cells_in_range[OF assms a] b
    show "in_grid (grid_size s) (fst (choice ?E r)) \<and> grid s (fst (choice ?E r)) = EMPTY"
      by simp
  qed
  show ?thesis
  proof (cases "?E \<noteq> [] \<and> fst (random (rand sw)) < pget (predator_movement_prob (params s)) 0.5")
    case True
    then have ne: "?E \<noteq> []" by simp
    define nc where "nc = fst (choice ?E (snd (random (rand sw))))"
    have "new_grid (predator_move s c h sw) = ((new_grid sw)(nc := PREDATOR))(c := EMPTY)"
      and "new_predator_hunger (predator_move s c h sw) = ((new_predator_hunger sw)(nc := h + 1))(c := - 1)"
      using True by (simp_all add: predator_move_def Let_def case_prod_beta nc_def)
    moreover have "in_grid (grid_size s) nc \<and> grid s nc = EMPTY"
      unfolding nc_def by (rule m[OF ne])
    moreover have "0 < pget (predator_movement_prob (params s)) 0.5"
      using True random_nonneg[of "rand sw"] by linarith
    ultimately show ?thesis by blast
  next
    case False
    then have "new_grid (predator_move s c h sw) = new_grid sw
          \<and> new_predator_hunger (predator_move s c h sw) = (new_predator_hunger sw)(c := h + 1)"
      by (auto simp: predator_move_def Let_def case_prod_beta)
    then show ?thesis by simp
  qed
qed


lemma aloneD:
  assumes "alone s p h"
  shows "in_grid (grid_size s) p" and "grid s p = PREDATOR" and "predator_hunger s p = h"
    and "\<And>c. in_grid (grid_size s) c \<Longrightarrow> c \<noteq> p \<Longrightarrow> grid s c \<noteq> PREDATOR \<and> grid s c \<noteq> PREY"
  using assms unfolding alone_def by blast+

lemma alone_in_bufferD:
  assumes "alone_in_buffer n sw p"
  shows "in_grid n p" and "new_grid sw p = PREDATOR"
    and "\<And>c. in_grid n c \<Longrightarrow> c \<noteq> p \<Longrightarrow> new_grid sw c \<noteq> PREDATOR \<and> new_grid sw c \<noteq> PREY"
  using assms unfolding alone_in_buffer_def by blast+

lemma none_in_bufferD:
  "none_in_buffer n sw \<Longrightarrow> in_grid n c \<Longrightarrow> new_grid sw c \<noteq> PREDATOR \<and> new_grid sw c \<noteq> PREY"
  unfolding none_in_buffer_def by blast

lemma alone_no_prey:
  assumes "alone s p h"
  shows "\<forall>c. in_grid (grid_size s) c \<longrightarrow> grid s c \<noteq> PREY"
proof (intro allI impI)
  fix c assume "in_grid (grid_size s) c"
  then show "grid s c \<noteq> PREY"
    using aloneD(2,4)[OF assms] by (cases "c = p") auto
qed

lemma cell_keeps_alone:
  assumes al: "alone s p h" and c: "in_grid (grid_size s) c" "c \<noteq> p"
    and b: "alone_in_buffer (grid_size s) sw p'" and p': "p' = p \<or> grid s p' = EMPTY"
  shows "alone_in_buffer (grid_size s) (process_cell s sw c) p'
       \<and> new_predator_hunger (process_cell s sw c) p' = new_predator_hunger sw p'"
proof (cases "c = p'")
  case True
  then have "grid s c = EMPTY" using p' c(2) by simp
  moreover have "new_grid sw c = PREDATOR" using alone_in_bufferD(2)[OF b] True by simp
  ultimately have "process_cell s sw c = sw" by (simp add: process_cell_def)
  then show ?thesis using b by simp
next
  case False
  have k: "grid s c \<noteq> PREDATOR" "grid s c \<noteq> PREY"
    using aloneD(4)[OF al c] by simp_all
  note q = process_cell_quiet[OF c(1) k alone_no_prey[OF al], where sw = sw]
  have old: "new_grid sw c \<noteq> PREDATOR" "new_grid sw c \<noteq> PREY"
    using alone_in_bufferD(3)[OF b c(1) False] by simp_all
  have "alone_in_buffer (grid_size s) (process_cell s sw c) p'"
    unfolding alone_in_buffer_def
  proof (intro conjI allI impI)
    show "in_grid (grid_size s) p'" by (rule alone_in_bufferD(1)[OF b])
    show "new_grid (process_cell s sw c) p' = PREDATOR"
      using q(2)[where c' = p'] False alone_in_bufferD(2)[OF b] by auto
  next
    fix c' assume a: "in_grid (grid_size s) c' \<and> c' \<noteq> p'"
    show "new_grid (process_cell s sw c) c' \<noteq> PREDATOR"
    proof (cases "c' = c")
      case True
      then show ?thesis using q(3) old by auto
    next
      case False
      then show ?thesis using q(2)[where c' = c'] a alone_in_bufferD(3)[OF b, of c'] by auto
    qed
    show "new_grid (process_cell s sw c) c' \<noteq> PREY"
    proof (cases "c' = c")
      case True
      then show ?thesis using q(3) old by auto
    next
      case False
      then show ?thesis using q(2)[where c' = c'] a alone_in_bufferD(3)[OF b, of c'] by auto
    qed
  qed
  then show ?thesis using q(1) by simp
qed

lemma cell_keeps_none:
  assumes al: "alone s p h" and c: "in_grid (grid_size s) c" "c \<noteq> p"
    and b: "none_in_buffer (grid_size s) sw"
  shows "none_in_buffer (grid_size s) (process_cell s sw c)"
proof -
  have k: "grid s c \<noteq> PREDATOR" "grid s c \<noteq> PREY"
    using aloneD(4)[OF al c] by simp_all
  note q = process_cell_quiet[OF c(1) k alone_no_prey[OF al], where sw = sw]
  have old: "new_grid sw c \<noteq> PREDATOR" "new_grid sw c \<noteq> PREY"
    using none_in_bufferD[OF b c(1)] by simp_all
  show ?thesis
    unfolding none_in_buffer_def
  proof (intro allI impI)
    fix c' assume a: "in_grid (grid_size s) c'"
    show "new_grid (process_cell s sw c) c' \<noteq> PREDATOR \<and> new_grid (process_cell s sw c) c' \<noteq> PREY"
    proof (cases "c' = c")
      case True
      then show ?thesis using q(3) old by auto
    next
      case False
      then show ?thesis using q(2)[where c' = c'] none_in_bufferD[OF b a] by auto
    qed
  qed
qed

lemma sweep_keeps_alone:
  assumes al: "alone s p h"
  shows "p \<notin> set cs \<Longrightarrow> \<forall>c \<in> set cs. in_grid (grid_size s) c
         \<Longrightarrow> alone_in_buffer (grid_size s) sw p' \<Longrightarrow> p' = p \<or> grid s p' = EMPTY
         \<Longrightarrow> alone_in_buffer (grid_size s) (sweep_cells s cs sw) p'
             \<and> new_predator_hunger (sweep_cells s cs sw) p' = new_predator_hunger sw p'"
proof (induction cs arbitrary: sw)
  case Nil
  then show ?case by (simp add: sweep_cells_def)
next
  case (Cons c cs)
  have c: "in_grid (grid_size s) c" "c \<noteq> p" using Cons.prems by auto
  note one = cell_keeps_alone[OF al c Cons.prems(3,4)]
  have "alone_in_buffer (grid_size s) (sweep_cells s cs (process_cell s sw c)) p'
        \<and> new_predator_hunger (sweep_cells s cs (process_cell s sw c)) p'
            = new_predator_hunger (process_cell s sw c) p'"
    using Cons.IH[of "process_cell s sw c"] Cons.prems one by simp
  then show ?case using one by (simp add: sweep_cells_def)
qed

lemma sweep_keeps_none:
  assumes al: "alone s p h"
  shows "p \<notin> set cs \<Longrightarrow> \<forall>c \<in> set cs. in_grid (grid_size s) c
         \<Longrightarrow> none_in_buffer (grid_size s) sw
         \<Longrightarrow> none_in_buffer (grid_size s) (sweep_cells s cs sw)"
proof (induction cs arbitrary: sw)
  case Nil
  then show ?case by (simp add: sweep_cells_def)
next
  case (Cons c cs)
  have c: "in_grid (grid_size s) c" "c \<noteq> p" using Cons.prems by auto
  note one = cell_keeps_none[OF al c Cons.prems(3)]
  show ?case using Cons.IH[OF _ _ one] Cons.prems by (simp add: sweep_cells_def)
qed


lemma cell_predator_survives:
  assumes al: "alone s p h" and h: "0 \<le> h" "h < pget (predator_starvation_steps (params s)) 10"
    and d: "draws_at_least (pget (predator_death_chance (params s)) 0.005) (rand sw)"
    and b: "alone_in_buffer (grid_size s) sw p"
  shows "\<exists>p'. alone_in_buffer (grid_size s) (process_cell s sw p) p'
              \<and> new_predator_hunger (process_cell s sw p) p' = h + 1
              \<and> (p' = p \<or> grid s p' = EMPTY \<and> 0 < pget (predator_movement_prob (params s)) 0.5)"
proof -
  have pos: "0 < grid_size s" using aloneD(1)[OF al] by (auto simp: in_grid_def)
  have hp: "predator_hunger s p = h" by (rule aloneD(3)[OF al])
  let ?sw = "sw\<lparr>rand := snd (random (rand sw))\<rparr>"
  have up: "update_predator s p sw = (predator_move s p h ?sw, None)"
    using update_predator_no_prey[where s = s and c = p and sw = sw, OF draws_random(2)[OF d] _ _ nearby_none[OF pos alone_no_prey[OF al]]] h hp by simp
  have pc: "process_cell s sw p = predator_move s p h ?sw"
    using aloneD(2)[OF al] alone_in_bufferD(2)[OF b] up by (simp add: process_cell_def)
  from predator_move_cases[OF pos, where c = p and h = h and sw = ?sw]
  consider (stay) "new_grid (process_cell s sw p) = new_grid sw"
      "new_predator_hunger (process_cell s sw p) = (new_predator_hunger sw)(p := h + 1)"
    | (move) nc where "in_grid (grid_size s) nc" "grid s nc = EMPTY"
      "0 < pget (predator_movement_prob (params s)) 0.5"
      "new_grid (process_cell s sw p) = ((new_grid sw)(nc := PREDATOR))(p := EMPTY)"
      "new_predator_hunger (process_cell s sw p) = ((new_predator_hunger sw)(nc := h + 1))(p := - 1)"
    unfolding pc by auto
  then show ?thesis
  proof cases
    case stay
    have "alone_in_buffer (grid_size s) (process_cell s sw p) p"
      using b by (simp add: alone_in_buffer_def stay(1))
    moreover have "new_predator_hunger (process_cell s sw p) p = h + 1"
      by (simp add: stay(2))
    ultimately show ?thesis by blast
  next
    case move
    have ne: "nc \<noteq> p" using move(2) aloneD(2)[OF al] by auto
    have "alone_in_buffer (grid_size s) (process_cell s sw p) nc"
      unfolding alone_in_buffer_def
    proof (intro conjI allI impI)
      show "in_grid (grid_size s) nc" by (rule move(1))
      show "new_grid (process_cell s sw p) nc = PREDATOR" using ne by (simp add: move(4))
    next
      fix c assume a: "in_grid (grid_size s) c \<and> c \<noteq> nc"
      show "new_grid (process_cell s sw p) c \<noteq> PREDATOR"
        using a alone_in_bufferD(3)[OF b, of c] by (cases "c = p") (simp_all add: move(4))
      show "new_grid (process_cell s sw p) c \<noteq> PREY"
        using a alone_in_bufferD(3)[OF b, of c] by (cases "c = p") (simp_all add: move(4))
    qed
    moreover have "new_predator_hunger (process_cell s sw p) nc = h + 1"
      using ne by (simp add: move(5))
    ultimately show ?thesis using move(2,3) by blast
  qed
qed

lemma cell_predator_starves:
  assumes al: "alone s p h" and h: "pget (predator_starvation_steps (params s)) 10 \<le> h"
    and d: "draws_at_least (pget (predator_death_chance (params s)) 0.005) (rand sw)"
    and b: "alone_in_buffer (grid_size s) sw p"
  shows "none_in_buffer (grid_size s) (process_cell s sw p)"
proof -
  have hp: "predator_hunger s p = h" by (rule aloneD(3)[OF al])
  have up: "update_predator s p sw
              = (sw\<lparr>new_grid := (new_grid sw)(p := EMPTY), rand := snd (random (rand sw))\<rparr>, None)"
    using update_predator_starves[where s = s and c = p and sw = sw, OF draws_random(2)[OF d]] h hp by simp
  have pc: "new_grid (process_cell s sw p) = (new_grid sw)(p := EMPTY)"
    using aloneD(2)[OF al] alone_in_bufferD(2)[OF b] up by (simp add: process_cell_def)
  show ?thesis
    unfolding none_in_buffer_def
  proof (intro allI impI)
    fix c assume a: "in_grid (grid_size s) c"
    show "new_grid (process_cell s sw p) c \<noteq> PREDATOR \<and> new_grid (process_cell s sw p) c \<noteq> PREY"
      using a alone_in_bufferD(3)[OF b, of c] by (cases "c = p") (simp_all add: pc)
  qed
qed

text \<open>The sweep of a generation that starts with a single predator and no prey.\<close>

lemma sweep_split:
  "sweep_cells s (xs @ p # ys) sw = sweep_cells s ys (process_cell s (sweep_cells s xs sw) p)"
  by (simp add: sweep_cells_def)

lemma order_split:
  assumes "in_grid n p"
  shows "\<exists>xs ys. fst (shuffle (coords n) r) = xs @ p # ys \<and> p \<notin> set xs \<and> p \<notin> set ys
           \<and> (\<forall>c \<in> set xs. in_grid n c) \<and> (\<forall>c \<in> set ys. in_grid n c)"
proof -
  let ?o = "fst (shuffle (coords n) r)"
  have so: "set ?o = {c. in_grid n c}" by (simp add: shuffle_set coords_set)
  have d: "distinct ?o" by (simp add: shuffle_distinct distinct_coords)
  have "p \<in> set ?o" using assms so by simp
  then obtain xs ys where o: "?o = xs @ p # ys" by (meson split_list)
  have "p \<notin> set xs" "p \<notin> set ys" using d unfolding o by auto
  moreover have "\<forall>c \<in> set xs. in_grid n c" "\<forall>c \<in> set ys. in_grid n c"
    using so unfolding o by auto
  ultimately show ?thesis using o by blast
qed


lemma sweep_keeps_cell:
  assumes al: "alone s p h"
  shows "p \<notin> set cs \<Longrightarrow> \<forall>c \<in> set cs. in_grid (grid_size s) c
         \<Longrightarrow> new_grid (sweep_cells s cs sw) p = new_grid sw p"
proof (induction cs arbitrary: sw)
  case Nil
  then show ?case by (simp add: sweep_cells_def)
next
  case (Cons c cs)
  have c: "in_grid (grid_size s) c" "c \<noteq> p" using Cons.prems by auto
  have k: "grid s c \<noteq> PREDATOR" "grid s c \<noteq> PREY"
    using aloneD(4)[OF al c] by simp_all
  have "new_grid (process_cell s sw c) p = new_grid sw p"
    using process_cell_quiet(2)[OF c(1) k alone_no_prey[OF al], where c' = p and sw = sw] c(2) by auto
  then show ?case using Cons.IH[of "process_cell s sw c"] Cons.prems by (simp add: sweep_cells_def)
qed

lemma generation_survives:
  assumes al: "alone s p h" and h: "0 \<le> h" "h < pget (predator_starvation_steps (params s)) 10"
    and d: "draws_at_least (pget (predator_death_chance (params s)) 0.005) r"
  shows "\<exists>p'. alone (fst (run_steps (Suc 0) now s r)) p' (h + 1)
              \<and> (p' = p \<or> 0 < pget (predator_movement_prob (params s)) 0.5)"
proof -
  obtain xs ys where o: "fst (shuffle (coords (grid_size s)) r) = xs @ p # ys"
    and nx: "p \<notin> set xs" and ny: "p \<notin> set ys"
    and ix: "\<forall>c \<in> set xs. in_grid (grid_size s) c" and iy: "\<forall>c \<in> set ys. in_grid (grid_size s) c"
    using order_split[OF aloneD(1)[OF al], of r] by blast
  let ?sw0 = "fresh_buffers s (snd (shuffle (coords (grid_size s)) r))"
  have b0: "alone_in_buffer (grid_size s) ?sw0 p"
    using aloneD[OF al] by (simp add: alone_in_buffer_def fresh_buffers_def)
  have b1: "alone_in_buffer (grid_size s) (sweep_cells s xs ?sw0) p"
    using sweep_keeps_alone[OF al nx ix b0] by simp
  have d1: "draws_at_least (pget (predator_death_chance (params s)) 0.005)
              (rand (sweep_cells s xs ?sw0))"
    using draws_shuffle[OF d] by (intro draws_sweep_cells) (simp add: fresh_buffers_def)
  obtain p' where b2: "alone_in_buffer (grid_size s) (process_cell s (sweep_cells s xs ?sw0) p) p'"
    and h2: "new_predator_hunger (process_cell s (sweep_cells s xs ?sw0) p) p' = h + 1"
    and e2: "p' = p \<or> grid s p' = EMPTY \<and> 0 < pget (predator_movement_prob (params s)) 0.5"
    using cell_predator_survives[OF al h d1 b1] by blast
  have e2': "p' = p \<or> grid s p' = EMPTY" using e2 by blast
  let ?sw = "sweep_cells s (xs @ p # ys) ?sw0"
  have b3: "alone_in_buffer (grid_size s) ?sw p' \<and> new_predator_hunger ?sw p' = h + 1"
    unfolding sweep_split using sweep_keeps_alone[OF al ny iy b2 e2'] h2 by simp
  have "alone (fst (run_steps (Suc 0) now s r)) p' (h + 1)"
    using b3 by (simp add: alone_def alone_in_buffer_def one_generation o del: run_steps.simps)
  then show ?thesis using e2 by blast
qed

lemma generation_starves:
  assumes al: "alone s p h" and h: "pget (predator_starvation_steps (params s)) 10 \<le> h"
    and d: "draws_at_least (pget (predator_death_chance (params s)) 0.005) r"
  shows "no_animals (fst (run_steps (Suc 0) now s r))"
    and "grid (fst (run_steps (Suc 0) now s r)) p = EMPTY"
proof -
  obtain xs ys where o: "fst (shuffle (coords (grid_size s)) r) = xs @ p # ys"
    and nx: "p \<notin> set xs" and ny: "p \<notin> set ys"
    and ix: "\<forall>c \<in> set xs. in_grid (grid_size s) c" and iy: "\<forall>c \<in> set ys. in_grid (grid_size s) c"
    using order_split[OF aloneD(1)[OF al], of r] by blast
  let ?sw0 = "fresh_buffers s (snd (shuffle (coords (grid_size s)) r))"
  have b0: "alone_in_buffer (grid_size s) ?sw0 p"
    using aloneD[OF al] by (simp add: alone_in_buffer_def fresh_buffers_def)
  have b1: "alone_in_buffer (grid_size s) (sweep_cells s xs ?sw0) p"
    using sweep_keeps_alone[OF al nx ix b0] by simp
  have d1: "draws_at_least (pget (predator_death_chance (params s)) 0.005)
              (rand (sweep_cells s xs ?sw0))"
    using draws_shuffle[OF d] by (intro draws_sweep_cells) (simp add: fresh_buffers_def)
  let ?sw1 = "process_cell s (sweep_cells s xs ?sw0) p"
  have b2: "none_in_buffer (grid_size s) ?sw1"
    by (rule cell_predator_starves[OF al h d1 b1])
  have e2: "new_grid ?sw1 p = EMPTY"
    using update_predator_starves[where s = s and c = p and sw = "sweep_cells s xs ?sw0", OF draws_random(2)[OF d1]]
      h aloneD(2,3)[OF al] alone_in_bufferD(2)[OF b1]
    by (simp add: process_cell_def)
  let ?sw = "sweep_cells s (xs @ p # ys) ?sw0"
  have b3: "none_in_buffer (grid_size s) ?sw"
    unfolding sweep_split by (rule sweep_keeps_none[OF al ny iy b2])
  have e3: "new_grid ?sw p = EMPTY"
    unfolding sweep_split using sweep_keeps_cell[OF al ny iy, of ?sw1] e2 by simp
  show "no_animals (fst (run_steps (Suc 0) now s r))"
    using b3 by (simp add: no_animals_def none_in_buffer_def one_generation o del: run_steps.simps)
  show "grid (fst (run_steps (Suc 0) now s r)) p = EMPTY"
    using e3 by (simp add: one_generation o del: run_steps.simps)
qed

lemma run_survives:
  assumes d: "draws_at_least (pget (predator_death_chance (params s)) 0.005) r"
  shows "alone s p 0 \<Longrightarrow> int k \<le> pget (predator_starvation_steps (params s)) 10
         \<Longrightarrow> \<exists>p'. alone (fst (run_steps k now s r)) p' (int k)
                  \<and> (p' = p \<or> 0 < pget (predator_movement_prob (params s)) 0.5)"
proof (induction k)
  case 0
  then show ?case by (intro exI[of _ p]) simp
next
  case (Suc k)
  then obtain p' where a: "alone (fst (run_steps k now s r)) p' (int k)"
    and m: "p' = p \<or> 0 < pget (predator_movement_prob (params s)) 0.5" by auto
  have "\<exists>p''. alone (fst (run_steps (Suc 0) now (fst (run_steps k now s r)) (snd (run_steps k now s r))))
           p'' (int k + 1)
         \<and> (p'' = p' \<or> 0 < pget (predator_movement_prob (params (fst (run_steps k now s r)))) 0.5)"
    by (rule generation_survives[OF a])
      (use Suc.prems draws_run[OF d, of k now s] in \<open>simp_all add: run_steps_params\<close>)
  then obtain p'' where
    "alone (fst (run_steps (Suc 0) now (fst (run_steps k now s r)) (snd (run_steps k now s r)))) p'' (int k + 1)"
    and "p'' = p' \<or> 0 < pget (predator_movement_prob (params s)) 0.5"
    by (auto simp: run_steps_params)
  then have "alone (fst (run_steps (Suc k) now s r)) p'' (int (Suc k))"
    and "p'' = p \<or> 0 < pget (predator_movement_prob (params s)) 0.5"
    using m by (auto simp: run_steps_snoc[of k] add.commute simp del: run_steps.simps)
  then show ?case by blast
qed

lemma run_starves:
  assumes d: "draws_at_least (pget (predator_death_chance (params s)) 0.005) r"
    and al: "alone s p 0" and t: "pget (predator_starvation_steps (params s)) 10 = int T"
  shows "\<exists>p'. alone (fst (run_steps T now s r)) p' (int T)
              \<and> (p' = p \<or> 0 < pget (predator_movement_prob (params s)) 0.5)
              \<and> grid (fst (run_steps (Suc T) now s r)) p' = EMPTY
              \<and> no_animals (fst (run_steps (Suc T) now s r))"
proof -
  obtain p' where a: "alone (fst (run_steps T now s r)) p' (int T)"
    and m: "p' = p \<or> 0 < pget (predator_movement_prob (params s)) 0.5"
    using run_survives[OF d al, where k = T and now = now] t by auto
  have h: "pget (predator_starvation_steps (params (fst (run_steps T now s r)))) 10 \<le> int T"
    and d': "draws_at_least (pget (predator_death_chance (params (fst (run_steps T now s r)))) 0.005)
               (snd (run_steps T now s r))"
    using t draws_run[OF d, of T now s] by (simp_all add: run_steps_params)
  note g = generation_starves[OF a h d', of now]
  have "grid (fst (run_steps (Suc T) now s r)) p' = EMPTY"
    and "no_animals (fst (run_steps (Suc T) now s r))"
    using g unfolding run_steps_snoc[of T] by blast+
  then show ?thesis using a m by blast
qed

section \<open>The two rules: starvation check first, increment after\<close>

lemma predator_rule_starves:
  assumes "\<not> fst (random (rand sw)) < pget (predator_death_chance (params s)) 0.005"
    and "pget (predator_starvation_steps (params s)) 10 \<le> predator_hunger s c"
  shows "new_grid (fst (update_predator s c sw)) c = EMPTY"
  by (simp add: update_predator_starves[OF assms])

lemma prey_rule_starves:
  assumes "\<not> fst (random (rand sw)) < pget (prey_death_chance (params s)) 0.01"
    and "pget (prey_starvation_steps (params s)) 15 \<le> prey_hunger s c"
  shows "new_grid (fst (update_prey s c sw)) c = EMPTY"
  using assms by (auto simp: update_prey_def Let_def split: prod.splits)

lemma predator_move_writes:
  assumes k: "grid s c = PREDATOR"
  shows "(new_grid (predator_move s c h sw) = new_grid sw
          \<and> new_predator_hunger (predator_move s c h sw) = (new_predator_hunger sw)(c := h + 1))
       \<or> (\<exists>nc. nc \<noteq> c \<and> grid s nc = EMPTY
             \<and> new_grid (predator_move s c h sw) = ((new_grid sw)(nc := PREDATOR))(c := EMPTY)
             \<and> new_predator_hunger (predator_move s c h sw)
                 = ((new_predator_hunger sw)(nc := h + 1))(c := - 1))"
proof -
  let ?E = "filter (\<lambda>c'. grid s c' = EMPTY) (get_nearby_cells (params s) (grid_size s) (fst c) (snd c) 1)"
  show ?thesis
  proof (cases "?E \<noteq> [] \<and> fst (random (rand sw)) < pget (predator_movement_prob (params s)) 0.5")
    case True
    define nc where "nc = fst (choice ?E (snd (random (rand sw))))"
    have "nc \<in> set ?E" unfolding nc_def using True by (intro choice_in_set) simp
    then have e: "grid s nc = EMPTY" by simp
    then have ne: "nc \<noteq> c" using k by auto
    have "new_grid (predator_move s c h sw) = ((new_grid sw)(nc := PREDATOR))(c := EMPTY)"
      and "new_predator_hunger (predator_move s c h sw) = ((new_predator_hunger sw)(nc := h + 1))(c := - 1)"
      using True by (simp_all add: predator_move_def Let_def case_prod_beta nc_def)
    then show ?thesis using e ne by blast
  next
    case False
    then have "new_grid (predator_move s c h sw) = new_grid sw
          \<and> new_predator_hunger (predator_move s c h sw) = (new_predator_hunger sw)(c := h + 1)"
      by (auto simp: predator_move_def Let_def case_prod_beta)
    then show ?thesis by simp
  qed
qed

lemma predator_rule_hungrier:
  assumes nd: "\<not> fst (random (rand sw)) < pget (predator_death_chance (params s)) 0.005"
    and h: "predator_hunger s c < pget (predator_starvation_steps (params s)) 10" "0 \<le> predator_hunger s c"
    and k: "grid s c = PREDATOR"
    and nh: "\<not> hunt_succeeds s c sw"
  shows "(new_grid (fst (update_predator s c sw)) = new_grid sw
          \<and> new_predator_hunger (fst (update_predator s c sw))
              = (new_predator_hunger sw)(c := predator_hunger s c + 1))
       \<or> (\<exists>nc. nc \<noteq> c \<and> grid s nc = EMPTY
             \<and> new_grid (fst (update_predator s c sw)) = ((new_grid sw)(nc := PREDATOR))(c := EMPTY)
             \<and> new_predator_hunger (fst (update_predator s c sw))
                 = ((new_predator_hunger sw)(nc := predator_hunger s c + 1))(c := - 1))"
proof -
  let ?r1 = "snd (random (rand sw))"
  let ?P = "filter (\<lambda>c'. grid s c' = PREY) (get_nearby_cells (params s) (grid_size s) (fst c) (snd c) 2)"
  have t: "pget (predator_starvation_steps (params s)) 10 \<noteq> 0" using h by linarith
  have "fst (update_predator s c sw) = predator_move s c (predator_hunger s c) (sw\<lparr>rand := ?r1\<rparr>)
      \<or> fst (update_predator s c sw)
           = predator_move s c (predator_hunger s c) (sw\<lparr>rand := snd (random ?r1)\<rparr>)"
    using nd h t nh
    by (auto simp: update_predator_def hunt_succeeds_def Let_def case_prod_beta)
  then show ?thesis
  proof
    assume u: "fst (update_predator s c sw)
                 = predator_move s c (predator_hunger s c) (sw\<lparr>rand := ?r1\<rparr>)"
    show ?thesis
      unfolding u
      using predator_move_writes[OF k, of "predator_hunger s c" "sw\<lparr>rand := ?r1\<rparr>"]
      by simp
  next
    assume u: "fst (update_predator s c sw)
                 = predator_move s c (predator_hunger s c) (sw\<lparr>rand := snd (random ?r1)\<rparr>)"
    show ?thesis
      unfolding u
      using predator_move_writes[OF k, of "predator_hunger s c" "sw\<lparr>rand := snd (random ?r1)\<rparr>"]
      by simp
  qed
qed

lemma predator_rule_feeds:
  assumes nd: "\<not> fst (random (rand sw)) < pget (predator_death_chance (params s)) 0.005"
    and h: "predator_hunger s c < pget (predator_starvation_steps (params s)) 10" "0 \<le> predator_hunger s c"
    and k: "grid s c = PREDATOR"
    and hs: "hunt_succeeds s c sw"
  shows "\<exists>pc. grid s pc = PREY
            \<and> new_grid (fst (update_predator s c sw)) pc = PREDATOR
            \<and> new_predator_hunger (fst (update_predator s c sw)) pc = 0
            \<and> new_grid (fst (update_predator s c sw)) c = EMPTY"
proof -
  let ?r1 = "snd (random (rand sw))"
  let ?r2 = "snd (random ?r1)"
  let ?P = "filter (\<lambda>c'. grid s c' = PREY) (get_nearby_cells (params s) (grid_size s) (fst c) (snd c) 2)"
  let ?E = "filter (\<lambda>c'. grid s c' = EMPTY) (get_nearby_cells (params s) (grid_size s) (fst c) (snd c) 1)"
  have t: "pget (predator_starvation_steps (params s)) 10 \<noteq> 0" using h by linarith
  have P: "?P \<noteq> []" using hs by (simp add: hunt_succeeds_def Let_def)
  have up: "fst (update_predator s c sw) = predator_hunt s c ?P (sw\<lparr>rand := ?r2\<rparr>)"
    using nd h t hs
    by (auto simp: update_predator_def hunt_succeeds_def Let_def case_prod_beta)
  define pc where "pc = fst (choice ?P ?r2)"
  have "pc \<in> set ?P" unfolding pc_def using P by (rule choice_in_set)
  then have py: "grid s pc = PREY" by simp
  then have ne: "pc \<noteq> c" using k by auto
  have nc: "nc \<noteq> pc \<and> nc \<noteq> c" if "nc \<in> set ?E" for nc
    using that py k by auto
  have "new_grid (predator_hunt s c ?P (sw\<lparr>rand := ?r2\<rparr>)) pc = PREDATOR
      \<and> new_predator_hunger (predator_hunt s c ?P (sw\<lparr>rand := ?r2\<rparr>)) pc = 0
      \<and> new_grid (predator_hunt s c ?P (sw\<lparr>rand := ?r2\<rparr>)) c = EMPTY"
  proof (cases "?E \<noteq> []")
    case True
    define nc where "nc = fst (choice ?E (snd (random (snd (choice ?P ?r2)))))"
    have "nc \<in> set ?E" unfolding nc_def using True by (rule choice_in_set)
    then have "nc \<noteq> pc" "nc \<noteq> c" using nc by blast+
    then show ?thesis using ne
      by (simp add: predator_hunt_def Let_def case_prod_beta pc_def[symmetric] nc_def[symmetric])
  next
    case False
    then show ?thesis using ne
      by (auto simp: predator_hunt_def Let_def case_prod_beta pc_def[symmetric])
  qed
  then show ?thesis using py unfolding up by blast
qed

lemma prey_rule_hungrier:
  assumes nd: "\<not> fst (random (rand sw)) < pget (prey_death_chance (params s)) 0.01"
    and h: "prey_hunger s c < pget (prey_starvation_steps (params s)) 15"
    and k: "grid s c = PREY"
    and ne: "\<not> prey_eats s c sw"
  shows "(new_grid (fst (update_prey s c sw)) = new_grid sw
          \<and> new_prey_hunger (fst (update_prey s c sw)) = (new_prey_hunger sw)(c := prey_hunger s c + 1))
       \<or> (\<exists>nc. nc \<noteq> c \<and> grid s nc = EMPTY
             \<and> new_grid (fst (update_prey s c sw)) = ((new_grid sw)(nc := PREY))(c := EMPTY)
             \<and> new_prey_hunger (fst (update_prey s c sw))
                 = ((new_prey_hunger sw)(nc := prey_hunger s c + 1))(c := - 1))"
proof -
  let ?N = "get_nearby_cells (params s) (grid_size s) (fst c) (snd c) 1"
  let ?E = "filter (\<lambda>c'. grid s c' = EMPTY) ?N"
  let ?S = "filter (\<lambda>c'. grid s c' = SUBSTRATE) ?N"
  let ?h = "prey_hunger s c + 1"
  let ?r1 = "snd (random (rand sw))"
  let ?sw1 = "sw\<lparr>new_prey_hunger := (new_prey_hunger sw)(c := ?h), rand := ?r1\<rparr>"
  let ?frozen = "list_ex (\<lambda>c'. grid s c' = PREDATOR) ?N \<and> fst (random ?r1) < 7 / 10"
  have forage: "(new_grid (prey_forage s c ?h ?N sw') = new_grid sw
          \<and> new_prey_hunger (prey_forage s c ?h ?N sw') = (new_prey_hunger sw)(c := ?h))
       \<or> (\<exists>nc. nc \<noteq> c \<and> grid s nc = EMPTY
             \<and> new_grid (prey_forage s c ?h ?N sw') = ((new_grid sw)(nc := PREY))(c := EMPTY)
             \<and> new_prey_hunger (prey_forage s c ?h ?N sw') = ((new_prey_hunger sw)(nc := ?h))(c := - 1))"
    if w: "new_prey_hunger sw' = (new_prey_hunger sw)(c := ?h)" "new_grid sw' = new_grid sw"
      and ns: "?S = []" for sw'
  proof (cases "?E \<noteq> []")
    case True
    define nc where "nc = fst (choice ?E (rand sw'))"
    have "nc \<in> set ?E" unfolding nc_def using True by (rule choice_in_set)
    then have e: "grid s nc = EMPTY" by simp
    then have n: "nc \<noteq> c" using k by auto
    have "new_grid (prey_forage s c ?h ?N sw') = ((new_grid sw)(nc := PREY))(c := EMPTY)"
      using True ns w by (simp add: prey_forage_def Let_def case_prod_beta nc_def)
    moreover have "new_prey_hunger (prey_forage s c ?h ?N sw') = ((new_prey_hunger sw)(nc := ?h))(c := - 1)"
      using True ns w n by (auto simp: prey_forage_def Let_def case_prod_beta nc_def[symmetric] fun_eq_iff)
    ultimately show ?thesis using e n by blast
  next
    case False
    then show ?thesis using ns w by (simp add: prey_forage_def Let_def)
  qed
  show ?thesis
  proof (cases ?frozen)
    case True
    then have "fst (update_prey s c sw) = ?sw1\<lparr>rand := snd (random ?r1)\<rparr>"
      using nd h by (simp add: update_prey_def Let_def case_prod_beta)
    then show ?thesis by simp
  next
    case False
    then have ns: "?S = []" using ne by (auto simp: prey_eats_def Let_def)
    have "fst (update_prey s c sw) = prey_forage s c ?h ?N (?sw1\<lparr>rand := snd (random ?r1)\<rparr>)
        \<or> fst (update_prey s c sw) = prey_forage s c ?h ?N ?sw1"
      using nd h False by (auto simp: update_prey_def Let_def case_prod_beta)
    then show ?thesis
    proof
      assume u: "fst (update_prey s c sw) = prey_forage s c ?h ?N (?sw1\<lparr>rand := snd (random ?r1)\<rparr>)"
      show ?thesis unfolding u by (rule forage[OF _ _ ns]) simp_all
    next
      assume u: "fst (update_prey s c sw) = prey_forage s c ?h ?N ?sw1"
      show ?thesis unfolding u by (rule forage[OF _ _ ns]) simp_all
    qed
  qed
qed

lemma prey_rule_feeds:
  assumes nd: "\<not> fst (random (rand sw)) < pget (prey_death_chance (params s)) 0.01"
    and h: "prey_hunger s c < pget (prey_starvation_steps (params s)) 15"
    and k: "grid s c = PREY"
    and e: "prey_eats s c sw"
  shows "new_prey_hunger (fst (update_prey s c sw)) c = 0
       \<and> new_grid (fst (update_prey s c sw)) c = new_grid sw c"
proof -
  let ?N = "get_nearby_cells (params s) (grid_size s) (fst c) (snd c) 1"
  let ?E = "filter (\<lambda>c'. grid s c' = EMPTY) ?N"
  let ?S = "filter (\<lambda>c'. grid s c' = SUBSTRATE) ?N"
  let ?h = "prey_hunger s c + 1"
  let ?r1 = "snd (random (rand sw))"
  let ?sw1 = "sw\<lparr>new_prey_hunger := (new_prey_hunger sw)(c := ?h), rand := ?r1\<rparr>"
  have S: "?S \<noteq> []" using e by (simp add: prey_eats_def Let_def)
  have forage: "new_prey_hunger (prey_forage s c ?h ?N sw') c = 0
       \<and> new_grid (prey_forage s c ?h ?N sw') c = new_grid sw c"
    if w: "new_grid sw' = new_grid sw" for sw'
  proof -
    define sc where "sc = fst (choice ?S (rand sw'))"
    have "sc \<in> set ?S" unfolding sc_def using S by (rule choice_in_set)
    then have sc: "sc \<noteq> c" using k by auto
    show ?thesis
    proof (cases "?E \<noteq> []")
      case True
      define nc where "nc = fst (choice ?E (snd (random (snd (choice ?S (rand sw'))))))"
      have "nc \<in> set ?E" unfolding nc_def using True by (rule choice_in_set)
      then have "nc \<noteq> c" using k by auto
      then show ?thesis using S sc w
        by (simp add: prey_forage_def Let_def case_prod_beta sc_def[symmetric] nc_def[symmetric])
    next
      case False
      then show ?thesis using S sc w
        by (simp add: prey_forage_def Let_def case_prod_beta sc_def[symmetric])
    qed
  qed
  have "fst (update_prey s c sw) = prey_forage s c ?h ?N (?sw1\<lparr>rand := snd (random ?r1)\<rparr>)
      \<or> fst (update_prey s c sw) = prey_forage s c ?h ?N ?sw1"
    using nd h e by (auto simp: update_prey_def prey_eats_def Let_def case_prod_beta)
  then show ?thesis
  proof
    assume u: "fst (update_prey s c sw) = prey_forage s c ?h ?N (?sw1\<lparr>rand := snd (random ?r1)\<rparr>)"
    show ?thesis unfolding u by (rule forage) simp
  next
    assume u: "fst (update_prey s c sw) = prey_forage s c ?h ?N ?sw1"
    show ?thesis unfolding u by (rule forage) simp
  qed
qed

lemma lone_sim_fields:
  "grid_size lone_sim = 5" "grid lone_sim = (\<lambda>_. EMPTY)((2, 2) := PREDATOR)"
  "predator_hunger lone_sim (2, 2) = 0"
  "predator_death_chance (params lone_sim) = Some 0"
  "predator_starvation_steps (params lone_sim) = Some 3"
  "predator_movement_prob (params lone_sim) = Some 0"
  "grid_type (params lone_sim) = Some ''torus''"
  by (simp_all add: lone_sim_def Simulation_init_def default_settings_def)

lemma lone_sim_alone: "alone lone_sim (2, 2) 0"
  by (simp add: alone_def lone_sim_fields in_grid_def)

lemma lone_sim_draws:
  "draws_at_least (pget (predator_death_chance (params lone_sim)) 0.005) zero_rng"
  by (simp add: draws_at_least_def lone_sim_fields pget_def)

lemma settings_lone_sim_fields:
  "grid_size settings_lone_sim = 5" "grid settings_lone_sim = (\<lambda>_. EMPTY)((2, 2) := PREDATOR)"
  "predator_hunger settings_lone_sim (2, 2) = 0"
  "predator_death_chance (params settings_lone_sim) = None"
  "predator_starvation_steps (params settings_lone_sim) = Some 3"
  by (simp_all add: settings_lone_sim_def Simulation_init_def default_settings_def)

lemma settings_lone_sim_alone: "alone settings_lone_sim (2, 2) 0"
  by (simp add: alone_def settings_lone_sim_fields in_grid_def)

lemma settings_lone_sim_draws:
  "draws_at_least (pget (predator_death_chance (params settings_lone_sim)) 0.005) half_rng"
  by (simp add: draws_at_least_def settings_lone_sim_fields pget_def half_rng_def)

text \<open>
  Claim C3, as the code has it. Both rules check starvation against the hunger recorded in
  the committed state, before they increment it. For every predator or prey cell \<open>c\<close> of
  any state \<open>u\<close> and any buffers \<open>sw\<close> of the sweep, when the animal survives the random
  death: if its recorded hunger is at or above its threshold the rule empties its cell; if it
  is below the threshold (and, for a predator, not negative, as it is in every reachable
  state) and the animal does not feed, whether there is no food in range, the hunt fails or
  the prey freezes, the rule writes the hunger plus one for it, in its own cell when it stays
  and in the cell it moves to otherwise; and if it feeds, its hunger is written as 0. So an
  animal is removed by the rule of the generation that starts with its hunger at the
  threshold: the generation after the one in which the threshold was reached.

  For a single predator without prey, with the starvation threshold \<open>T\<close>, on any grid, for
  any clock and for any generator none of whose draws is below the death chance the rule
  reads (the key \<open>predator_death_chance\<close>, 0.005 when the key is absent; the key
  \<open>predator_death_probability\<close> of the settings is not read): after \<open>k \<le> T\<close>
  generations there is still exactly one predator, with hunger \<open>k\<close>; after \<open>T + 1\<close>
  generations its cell is empty and no animal is left. With \<open>T = 3\<close> the predator is still
  there after 3 generations and gone after 4.
\<close>

theorem starvation_in_generation_after_threshold:
  assumes "alone s p 0"
    and "predator_starvation_steps (params s) = Some (int T)"
    and "draws_at_least (pget (predator_death_chance (params s)) 0.005) r"
  shows "(\<forall>k \<le> T. \<exists>p'. alone (fst (run_steps k now s r)) p' (int k))
    \<and> (\<exists>p'. alone (fst (run_steps T now s r)) p' (int T)
            \<and> grid (fst (run_steps (Suc T) now s r)) p' = EMPTY)
    \<and> no_animals (fst (run_steps (Suc T) now s r))
    \<and> (\<not> fst (random (rand sw)) < pget (predator_death_chance (params u)) 0.005
          \<and> pget (predator_starvation_steps (params u)) 10 \<le> predator_hunger u c
         \<longrightarrow> new_grid (fst (update_predator u c sw)) c = EMPTY)
    \<and> (\<not> fst (random (rand sw)) < pget (predator_death_chance (params u)) 0.005
          \<and> predator_hunger u c < pget (predator_starvation_steps (params u)) 10
          \<and> 0 \<le> predator_hunger u c \<and> grid u c = PREDATOR
          \<and> \<not> hunt_succeeds u c sw
         \<longrightarrow> (new_grid (fst (update_predator u c sw)) = new_grid sw
               \<and> new_predator_hunger (fst (update_predator u c sw))
                   = (new_predator_hunger sw)(c := predator_hunger u c + 1))
             \<or> (\<exists>nc. nc \<noteq> c \<and> grid u nc = EMPTY
                   \<and> new_grid (fst (update_predator u c sw))
                       = ((new_grid sw)(nc := PREDATOR))(c := EMPTY)
                   \<and> new_predator_hunger (fst (update_predator u c sw))
                       = ((new_predator_hunger sw)(nc := predator_hunger u c + 1))(c := - 1)))
    \<and> (\<not> fst (random (rand sw)) < pget (predator_death_chance (params u)) 0.005
          \<and> predator_hunger u c < pget (predator_starvation_steps (params u)) 10
          \<and> 0 \<le> predator_hunger u c \<and> grid u c = PREDATOR
          \<and> hunt_succeeds u c sw
         \<longrightarrow> (\<exists>pc. grid u pc = PREY
                   \<and> new_grid (fst (update_predator u c sw)) pc = PREDATOR
                   \<and> new_predator_hunger (fst (update_predator u c sw)) pc = 0
                   \<and> new_grid (fst (update_predator u c sw)) c = EMPTY))
    \<and> (\<not> fst (random (rand sw)) < pget (prey_death_chance (params u)) 0.01
          \<and> pget (prey_starvation_steps (params u)) 15 \<le> prey_hunger u c
         \<longrightarrow> new_grid (fst (update_prey u c sw)) c = EMPTY)
    \<and> (\<not> fst (random (rand sw)) < pget (prey_death_chance (params u)) 0.01
          \<and> prey_hunger u c < pget (prey_starvation_steps (params u)) 15
          \<and> grid u c = PREY
          \<and> \<not> prey_eats u c sw
         \<longrightarrow> (new_grid (fst (update_prey u c sw)) = new_grid sw
               \<and> new_prey_hunger (fst (update_prey u c sw))
                   = (new_prey_hunger sw)(c := prey_hunger u c + 1))
             \<or> (\<exists>nc. nc \<noteq> c \<and> grid u nc = EMPTY
                   \<and> new_grid (fst (update_prey u c sw)) = ((new_grid sw)(nc := PREY))(c := EMPTY)
                   \<and> new_prey_hunger (fst (update_prey u c sw))
                       = ((new_prey_hunger sw)(nc := prey_hunger u c + 1))(c := - 1)))
    \<and> (\<not> fst (random (rand sw)) < pget (prey_death_chance (params u)) 0.01
          \<and> prey_hunger u c < pget (prey_starvation_steps (params u)) 15
          \<and> grid u c = PREY
          \<and> prey_eats u c sw
         \<longrightarrow> new_prey_hunger (fst (update_prey u c sw)) c = 0
             \<and> new_grid (fst (update_prey u c sw)) c = new_grid sw c)"
proof -
  have t: "pget (predator_starvation_steps (params s)) 10 = int T"
    using assms(2) by (simp add: pget_def)
  note d = assms(3)
  have a: "\<forall>k \<le> T. \<exists>p'. alone (fst (run_steps k now s r)) p' (int k)"
  proof (intro allI impI)
    fix k assume "k \<le> T"
    then have "int k \<le> pget (predator_starvation_steps (params s)) 10" using t by simp
    from run_survives[OF d assms(1) this, where now = now]
    show "\<exists>p'. alone (fst (run_steps k now s r)) p' (int k)" by blast
  qed
  have b: "\<exists>p'. alone (fst (run_steps T now s r)) p' (int T)
            \<and> grid (fst (run_steps (Suc T) now s r)) p' = EMPTY"
    and c: "no_animals (fst (run_steps (Suc T) now s r))"
    using run_starves[OF d assms(1) t, where now = now] by blast+
  have c1: "\<not> fst (random (rand sw)) < pget (predator_death_chance (params u)) 0.005
          \<and> pget (predator_starvation_steps (params u)) 10 \<le> predator_hunger u c
         \<longrightarrow> new_grid (fst (update_predator u c sw)) c = EMPTY"
    using predator_rule_starves[where sw = sw and s = u and c = c] by blast
  have c2: "\<not> fst (random (rand sw)) < pget (predator_death_chance (params u)) 0.005
          \<and> predator_hunger u c < pget (predator_starvation_steps (params u)) 10
          \<and> 0 \<le> predator_hunger u c \<and> grid u c = PREDATOR
          \<and> \<not> hunt_succeeds u c sw
         \<longrightarrow> (new_grid (fst (update_predator u c sw)) = new_grid sw
               \<and> new_predator_hunger (fst (update_predator u c sw))
                   = (new_predator_hunger sw)(c := predator_hunger u c + 1))
             \<or> (\<exists>nc. nc \<noteq> c \<and> grid u nc = EMPTY
                   \<and> new_grid (fst (update_predator u c sw))
                       = ((new_grid sw)(nc := PREDATOR))(c := EMPTY)
                   \<and> new_predator_hunger (fst (update_predator u c sw))
                       = ((new_predator_hunger sw)(nc := predator_hunger u c + 1))(c := - 1))"
    using predator_rule_hungrier[where sw = sw and s = u and c = c] by blast
  have c3: "\<not> fst (random (rand sw)) < pget (predator_death_chance (params u)) 0.005
          \<and> predator_hunger u c < pget (predator_starvation_steps (params u)) 10
          \<and> 0 \<le> predator_hunger u c \<and> grid u c = PREDATOR
          \<and> hunt_succeeds u c sw
         \<longrightarrow> (\<exists>pc. grid u pc = PREY
                   \<and> new_grid (fst (update_predator u c sw)) pc = PREDATOR
                   \<and> new_predator_hunger (fst (update_predator u c sw)) pc = 0
                   \<and> new_grid (fst (update_predator u c sw)) c = EMPTY)"
    using predator_rule_feeds[where sw = sw and s = u and c = c] by blast
  have c4: "\<not> fst (random (rand sw)) < pget (prey_death_chance (params u)) 0.01
          \<and> pget (prey_starvation_steps (params u)) 15 \<le> prey_hunger u c
         \<longrightarrow> new_grid (fst (update_prey u c sw)) c = EMPTY"
    using prey_rule_starves[where sw = sw and s = u and c = c] by blast
  have c5: "\<not> fst (random (rand sw)) < pget (prey_death_chance (params u)) 0.01
          \<and> prey_hunger u c < pget (prey_starvation_steps (params u)) 15
          \<and> grid u c = PREY
          \<and> \<not> prey_eats u c sw
         \<longrightarrow> (new_grid (fst (update_prey u c sw)) = new_grid sw
               \<and> new_prey_hunger (fst (update_prey u c sw))
                   = (new_prey_hunger sw)(c := prey_hunger u c + 1))
             \<or> (\<exists>nc. nc \<noteq> c \<and> grid u nc = EMPTY
                   \<and> new_grid (fst (update_prey u c sw)) = ((new_grid sw)(nc := PREY))(c := EMPTY)
                   \<and> new_prey_hunger (fst (update_prey u c sw))
                       = ((new_prey_hunger sw)(nc := prey_hunger u c + 1))(c := - 1))"
    using prey_rule_hungrier[where sw = sw and s = u and c = c] by blast
  have c6: "\<not> fst (random (rand sw)) < pget (prey_death_chance (params u)) 0.01
          \<and> prey_hunger u c < pget (prey_starvation_steps (params u)) 15
          \<and> grid u c = PREY
          \<and> prey_eats u c sw
         \<longrightarrow> new_prey_hunger (fst (update_prey u c sw)) c = 0
             \<and> new_grid (fst (update_prey u c sw)) c = new_grid sw c"
    using prey_rule_feeds[where sw = sw and s = u and c = c] by blast
  show ?thesis
    by (intro conjI) (rule a b c c1 c2 c3 c4 c5 c6)+
qed


lemma graze_sim_fields:
  "grid_size graze_sim = 3" "params graze_sim = default_settings"
  "grid graze_sim (0, 0) = 2" "grid graze_sim (0, 1) = 1" "grid graze_sim (0, 2) = 3"
  "grid graze_sim (1, 0) = 0" "grid graze_sim (1, 1) = 0" "grid graze_sim (1, 2) = 0"
  "grid graze_sim (2, 0) = 0" "grid graze_sim (2, 1) = 0" "grid graze_sim (2, 2) = 0"
  "prey_hunger graze_sim (0, 1) = 0"
  by (simp_all add: graze_sim_def Simulation_init_def grid_of_def)

lemma starving_sims:
  "predator_hunger zero_threshold_sim (0, 0) = 0"
  "predator_death_chance (params zero_threshold_sim) = None"
  "predator_starvation_steps (params zero_threshold_sim) = Some 0"
  "prey_starvation_steps (params (hunt_sim\<lparr>params := default_settings\<lparr>prey_starvation_steps := Some 0\<rparr>\<rparr>)) = Some 0"
  "prey_death_chance (params (hunt_sim\<lparr>params := default_settings\<lparr>prey_starvation_steps := Some 0\<rparr>\<rparr>)) = None"
  "prey_hunger (hunt_sim\<lparr>params := default_settings\<lparr>prey_starvation_steps := Some 0\<rparr>\<rparr>) (0, 1) = 0"
  by (simp_all add: zero_threshold_sim_def hunt_sim_def Simulation_init_def grid_of_def
      default_settings_def)

lemma first_draw:
  "fst (random (rand (fresh_buffers u (rng_of (k # ks))))) = real (k mod 2 ^ 53) / 2 ^ 53"
  "snd (random (rand (fresh_buffers u (rng_of (k # ks))))) = rng_of ks"
  "new_grid (fresh_buffers u r) = grid u"
  by (simp_all add: fresh_buffers_def random_rng_of)

lemmas nearby_3x3 =
  default_nearby_cells von_neumann_offsets wrap_def default_settings_fields pget_def Let_def
  first_draw random_rng_of

lemma failed_hunt:
  "filter (\<lambda>c'. grid collide_sim c' = PREY)
     (get_nearby_cells (params collide_sim) (grid_size collide_sim) (fst (1, 2)) (snd (1, 2)) 2) \<noteq> []"
  "\<not> hunt_succeeds collide_sim (1, 2)
       (fresh_buffers collide_sim (rng_of [4503599627370496, 9007199254740991]))"
  by (simp_all add: hunt_succeeds_def collide_sim_fields nearby_3x3)

lemma good_hunt:
  "hunt_succeeds hunt_sim (0, 0) (fresh_buffers hunt_sim (rng_of [4503599627370496, 4503599627370496]))"
  by (simp add: hunt_succeeds_def hunt_sim_fields nearby_3x3)

lemma frozen_prey:
  "filter (\<lambda>c'. grid graze_sim c' = SUBSTRATE)
     (get_nearby_cells (params graze_sim) (grid_size graze_sim) (fst (0, 1)) (snd (0, 1)) 1) \<noteq> []"
  "\<not> prey_eats graze_sim (0, 1)
       (fresh_buffers graze_sim (rng_of [4503599627370496, 4503599627370496]))"
  by (simp_all add: prey_eats_def graze_sim_fields nearby_3x3)

lemma grazing_prey:
  "prey_eats graze_sim (0, 1)
     (fresh_buffers graze_sim (rng_of [4503599627370496, 9007199254740991]))"
  by (simp add: prey_eats_def graze_sim_fields nearby_3x3)

theorem starvation_in_generation_after_threshold_witness:
  "alone lone_sim (2, 2) 0
   \<and> predator_starvation_steps (params lone_sim) = Some (int 3)
   \<and> draws_at_least (pget (predator_death_chance (params lone_sim)) 0.005) zero_rng
   \<and> (\<exists>p'. alone (fst (run_steps 3 [] lone_sim zero_rng)) p' 3
          \<and> grid (fst (run_steps 4 [] lone_sim zero_rng)) p' = EMPTY)
   \<and> no_animals (fst (run_steps 4 [] lone_sim zero_rng))
   \<and> alone settings_lone_sim (2, 2) 0
   \<and> predator_starvation_steps (params settings_lone_sim) = Some (int 3)
   \<and> predator_death_chance (params settings_lone_sim) = None
   \<and> draws_at_least (pget (predator_death_chance (params settings_lone_sim)) 0.005) half_rng
   \<and> (\<exists>p'. alone (fst (run_steps 3 [] settings_lone_sim half_rng)) p' 3
          \<and> grid (fst (run_steps 4 [] settings_lone_sim half_rng)) p' = EMPTY)
   \<and> no_animals (fst (run_steps 4 [] settings_lone_sim half_rng))
   \<and> new_grid (fst (update_predator zero_threshold_sim (0, 0)
         (fresh_buffers zero_threshold_sim (rng_of [4503599627370496])))) (0, 0) = EMPTY
   \<and> filter (\<lambda>c'. grid collide_sim c' = PREY)
        (get_nearby_cells (params collide_sim) (grid_size collide_sim) (fst (1, 2)) (snd (1, 2)) 2) \<noteq> []
   \<and> \<not> hunt_succeeds collide_sim (1, 2)
         (fresh_buffers collide_sim (rng_of [4503599627370496, 9007199254740991]))
   \<and> (\<exists>c'. new_predator_hunger (fst (update_predator collide_sim (1, 2)
         (fresh_buffers collide_sim (rng_of [4503599627370496, 9007199254740991])))) c' = 1)
   \<and> hunt_succeeds hunt_sim (0, 0)
         (fresh_buffers hunt_sim (rng_of [4503599627370496, 4503599627370496]))
   \<and> (\<exists>pc. grid hunt_sim pc = PREY
         \<and> new_grid (fst (update_predator hunt_sim (0, 0)
               (fresh_buffers hunt_sim (rng_of [4503599627370496, 4503599627370496])))) pc = PREDATOR
         \<and> new_predator_hunger (fst (update_predator hunt_sim (0, 0)
               (fresh_buffers hunt_sim (rng_of [4503599627370496, 4503599627370496])))) pc = 0
         \<and> new_grid (fst (update_predator hunt_sim (0, 0)
               (fresh_buffers hunt_sim (rng_of [4503599627370496, 4503599627370496])))) (0, 0) = EMPTY)
   \<and> new_grid (fst (update_prey (hunt_sim\<lparr>params := default_settings\<lparr>prey_starvation_steps := Some 0\<rparr>\<rparr>)
         (0, 1) (fresh_buffers (hunt_sim\<lparr>params := default_settings\<lparr>prey_starvation_steps := Some 0\<rparr>\<rparr>)
            (rng_of [4503599627370496])))) (0, 1) = EMPTY
   \<and> filter (\<lambda>c'. grid graze_sim c' = SUBSTRATE)
        (get_nearby_cells (params graze_sim) (grid_size graze_sim) (fst (0, 1)) (snd (0, 1)) 1) \<noteq> []
   \<and> \<not> prey_eats graze_sim (0, 1)
         (fresh_buffers graze_sim (rng_of [4503599627370496, 4503599627370496]))
   \<and> (\<exists>c'. new_prey_hunger (fst (update_prey graze_sim (0, 1)
         (fresh_buffers graze_sim (rng_of [4503599627370496, 4503599627370496])))) c' = 1)
   \<and> prey_eats graze_sim (0, 1)
         (fresh_buffers graze_sim (rng_of [4503599627370496, 9007199254740991]))
   \<and> new_prey_hunger (fst (update_prey graze_sim (0, 1)
         (fresh_buffers graze_sim (rng_of [4503599627370496, 9007199254740991])))) (0, 1) = 0"
proof -
  note th = starvation_in_generation_after_threshold
  have l: "predator_starvation_steps (params lone_sim) = Some (int 3)"
    by (simp add: lone_sim_fields)
  have l': "predator_starvation_steps (params settings_lone_sim) = Some (int 3)"
    by (simp add: settings_lone_sim_fields)
  note scen = th[OF lone_sim_alone l lone_sim_draws, where now = "[]"]
  note scen' = th[OF settings_lone_sim_alone l' settings_lone_sim_draws, where now = "[]"]
  note rules = scen[THEN conjunct2, THEN conjunct2, THEN conjunct2]
  note r1 = rules[THEN conjunct1, THEN mp]
  note r2 = rules[THEN conjunct2, THEN conjunct1, THEN mp]
  note r3 = rules[THEN conjunct2, THEN conjunct2, THEN conjunct1, THEN mp]
  note r4 = rules[THEN conjunct2, THEN conjunct2, THEN conjunct2, THEN conjunct1, THEN mp]
  note r5 = rules[THEN conjunct2, THEN conjunct2, THEN conjunct2, THEN conjunct2, THEN conjunct1, THEN mp]
  note r6 = rules[THEN conjunct2, THEN conjunct2, THEN conjunct2, THEN conjunct2, THEN conjunct2, THEN mp]
  have n: "Suc 3 = 4" "int 3 = 3" by simp_all
  have s1: "\<exists>p'. alone (fst (run_steps 3 [] lone_sim zero_rng)) p' 3
          \<and> grid (fst (run_steps 4 [] lone_sim zero_rng)) p' = EMPTY"
    using scen[THEN conjunct2, THEN conjunct1] unfolding n .
  have s2: "no_animals (fst (run_steps 4 [] lone_sim zero_rng))"
    using scen[THEN conjunct2, THEN conjunct2, THEN conjunct1] unfolding n .
  have s3: "\<exists>p'. alone (fst (run_steps 3 [] settings_lone_sim half_rng)) p' 3
          \<and> grid (fst (run_steps 4 [] settings_lone_sim half_rng)) p' = EMPTY"
    using scen'[THEN conjunct2, THEN conjunct1] unfolding n .
  have s4: "no_animals (fst (run_steps 4 [] settings_lone_sim half_rng))"
    using scen'[THEN conjunct2, THEN conjunct2, THEN conjunct1] unfolding n .
  let ?u4 = "hunt_sim\<lparr>params := default_settings\<lparr>prey_starvation_steps := Some 0\<rparr>\<rparr>"
  let ?sw1 = "fresh_buffers zero_threshold_sim (rng_of [4503599627370496])"
  let ?sw2 = "fresh_buffers collide_sim (rng_of [4503599627370496, 9007199254740991])"
  let ?sw3 = "fresh_buffers hunt_sim (rng_of [4503599627370496, 4503599627370496])"
  let ?sw4 = "fresh_buffers ?u4 (rng_of [4503599627370496])"
  let ?sw5 = "fresh_buffers graze_sim (rng_of [4503599627370496, 4503599627370496])"
  let ?sw6 = "fresh_buffers graze_sim (rng_of [4503599627370496, 9007199254740991])"
  have p1: "new_grid (fst (update_predator zero_threshold_sim (0, 0) ?sw1)) (0, 0) = EMPTY"
    by (rule r1) (simp add: first_draw starving_sims pget_def)
  have "(new_grid (fst (update_predator collide_sim (1, 2) ?sw2)) = new_grid ?sw2
         \<and> new_predator_hunger (fst (update_predator collide_sim (1, 2) ?sw2))
             = (new_predator_hunger ?sw2)((1, 2) := predator_hunger collide_sim (1, 2) + 1))
       \<or> (\<exists>nc. nc \<noteq> (1, 2) \<and> grid collide_sim nc = EMPTY
             \<and> new_grid (fst (update_predator collide_sim (1, 2) ?sw2))
                 = ((new_grid ?sw2)(nc := PREDATOR))((1, 2) := EMPTY)
             \<and> new_predator_hunger (fst (update_predator collide_sim (1, 2) ?sw2))
                 = ((new_predator_hunger ?sw2)(nc := predator_hunger collide_sim (1, 2) + 1))
                     ((1, 2) := - 1))"
    by (rule r2)
      (simp add: first_draw collide_sim_fields default_settings_fields pget_def failed_hunt(2))
  then have p2: "\<exists>c'. new_predator_hunger (fst (update_predator collide_sim (1, 2) ?sw2)) c' = 1"
  proof (elim disjE conjE exE)
    assume "new_predator_hunger (fst (update_predator collide_sim (1, 2) ?sw2))
             = (new_predator_hunger ?sw2)((1, 2) := predator_hunger collide_sim (1, 2) + 1)"
    then have "new_predator_hunger (fst (update_predator collide_sim (1, 2) ?sw2)) (1, 2) = 1"
      by (simp add: collide_sim_fields)
    then show ?thesis by (rule exI)
  next
    fix nc :: coord
    assume "nc \<noteq> (1, 2)"
      and "new_predator_hunger (fst (update_predator collide_sim (1, 2) ?sw2))
                 = ((new_predator_hunger ?sw2)(nc := predator_hunger collide_sim (1, 2) + 1))
                     ((1, 2) := - 1)"
    then have "new_predator_hunger (fst (update_predator collide_sim (1, 2) ?sw2)) nc = 1"
      by (simp add: collide_sim_fields)
    then show ?thesis by (rule exI)
  qed
  have p3: "\<exists>pc. grid hunt_sim pc = PREY
         \<and> new_grid (fst (update_predator hunt_sim (0, 0) ?sw3)) pc = PREDATOR
         \<and> new_predator_hunger (fst (update_predator hunt_sim (0, 0) ?sw3)) pc = 0
         \<and> new_grid (fst (update_predator hunt_sim (0, 0) ?sw3)) (0, 0) = EMPTY"
    by (rule r3) (simp add: first_draw hunt_sim_fields default_settings_fields pget_def good_hunt)
  have q1: "new_grid (fst (update_prey ?u4 (0, 1) ?sw4)) (0, 1) = EMPTY"
    by (rule r4) (simp add: first_draw hunt_sim_fields default_settings_fields pget_def)
  have "(new_grid (fst (update_prey graze_sim (0, 1) ?sw5)) = new_grid ?sw5
         \<and> new_prey_hunger (fst (update_prey graze_sim (0, 1) ?sw5))
             = (new_prey_hunger ?sw5)((0, 1) := prey_hunger graze_sim (0, 1) + 1))
       \<or> (\<exists>nc. nc \<noteq> (0, 1) \<and> grid graze_sim nc = EMPTY
             \<and> new_grid (fst (update_prey graze_sim (0, 1) ?sw5))
                 = ((new_grid ?sw5)(nc := PREY))((0, 1) := EMPTY)
             \<and> new_prey_hunger (fst (update_prey graze_sim (0, 1) ?sw5))
                 = ((new_prey_hunger ?sw5)(nc := prey_hunger graze_sim (0, 1) + 1))((0, 1) := - 1))"
    by (rule r5)
      (simp add: first_draw graze_sim_fields default_settings_fields pget_def frozen_prey(2))
  then have q2: "\<exists>c'. new_prey_hunger (fst (update_prey graze_sim (0, 1) ?sw5)) c' = 1"
  proof (elim disjE conjE exE)
    assume "new_prey_hunger (fst (update_prey graze_sim (0, 1) ?sw5))
             = (new_prey_hunger ?sw5)((0, 1) := prey_hunger graze_sim (0, 1) + 1)"
    then have "new_prey_hunger (fst (update_prey graze_sim (0, 1) ?sw5)) (0, 1) = 1"
      by (simp add: graze_sim_fields)
    then show ?thesis by (rule exI)
  next
    fix nc :: coord
    assume "nc \<noteq> (0, 1)"
      and "new_prey_hunger (fst (update_prey graze_sim (0, 1) ?sw5))
                 = ((new_prey_hunger ?sw5)(nc := prey_hunger graze_sim (0, 1) + 1))((0, 1) := - 1)"
    then have "new_prey_hunger (fst (update_prey graze_sim (0, 1) ?sw5)) nc = 1"
      by (simp add: graze_sim_fields)
    then show ?thesis by (rule exI)
  qed
  have "new_prey_hunger (fst (update_prey graze_sim (0, 1) ?sw6)) (0, 1) = 0
      \<and> new_grid (fst (update_prey graze_sim (0, 1) ?sw6)) (0, 1) = new_grid ?sw6 (0, 1)"
    by (rule r6)
      (simp add: first_draw graze_sim_fields default_settings_fields pget_def grazing_prey)
  then have q3: "new_prey_hunger (fst (update_prey graze_sim (0, 1) ?sw6)) (0, 1) = 0"
    by (rule conjunct1)
  show ?thesis
    by (intro conjI)
      (rule lone_sim_alone l lone_sim_draws s1 s2 settings_lone_sim_alone l'
        settings_lone_sim_fields(4) settings_lone_sim_draws s3 s4 p1 failed_hunt p2 good_hunt p3 q1
        frozen_prey q2 grazing_prey q3)+
qed

text \<open>
  Claim C3 as stated fails. The single predator of \<open>lone_sim\<close> (5 x 5 torus, death chance 0,
  threshold 3; it never moves) is still in its cell after exactly 3 generations, with hunger
  3; the cell is empty after the fourth.
\<close>

theorem lone_predator_present_after_three_generations:
  "grid (fst (run_steps 3 [] lone_sim zero_rng)) (2, 2) = PREDATOR
   \<and> predator_hunger (fst (run_steps 3 [] lone_sim zero_rng)) (2, 2) = 3
   \<and> grid (fst (run_steps 4 [] lone_sim zero_rng)) (2, 2) = EMPTY"
proof -
  have t: "pget (predator_starvation_steps (params lone_sim)) 10 = int 3"
    and m: "\<not> 0 < pget (predator_movement_prob (params lone_sim)) 0.5"
    by (simp_all add: lone_sim_fields pget_def)
  obtain p' where a: "alone (fst (run_steps 3 [] lone_sim zero_rng)) p' (int 3)"
    and e: "p' = (2, 2) \<or> 0 < pget (predator_movement_prob (params lone_sim)) 0.5"
    and g: "grid (fst (run_steps (Suc 3) [] lone_sim zero_rng)) p' = EMPTY"
    using run_starves[OF lone_sim_draws lone_sim_alone t, where now = "[]"] by blast
  have p: "p' = (2, 2)" using e m by blast
  have "Suc 3 = 4" by simp
  then show ?thesis
    using aloneD(2,3)[OF a] g unfolding p by (simp del: run_steps.simps)
qed

end
